(* ===== verification/Prelude.thy ===== *)
theory Prelude
  imports Main "HOL-Library.List_Lexorder" "HOL-Library.Char_ord" "HOL-Library.Multiset"
begin

text \<open>
  Shared vocabulary of the development: the Python string primitives that the
  sources of \<open>ngSkinTools2\<close> call (\<open>str.rfind\<close> with a slice end,
  \<open>str.lower\<close>, \<open>str.isspace\<close>, \<open>str.split\<close>, \<open>str.strip\<close>), the
  hierarchy delimiter \<open>|\<close>, and the predicate \<open>whole_suffix\<close> that
  says a display name is a trailing run of whole path segments.

  Python strings are sequences of code points; here a \<open>string\<close> is a list of
  8-bit \<open>char\<close>s read as the code points 0 to 255 (Latin-1), so \<open>py_lower\<close>
  and \<open>py_isspace\<close> follow Python's Unicode tables on that range.
  The collection \<open>py_simps\<close> gathers the evaluation rules of these
  primitives, so that component proofs and witnesses can say \<open>simp add: py_simps\<close>.
\<close>

named_theorems py_simps "evaluation rules of the modelled Python string primitives"

abbreviation PIPE :: char where
  "PIPE \<equiv> CHR ''|''"

abbreviation NL :: char where
  "NL \<equiv> CHR 0x0A"

subsection \<open>Characters\<close>

text \<open>\<open>str.lower\<close> on one code point below 256: \<open>A\<close>--\<open>Z\<close> and the
  Latin-1 capitals \<open>0xC0\<close>--\<open>0xDE\<close> (but the multiplication sign \<open>0xD7\<close>)
  map to the code point 32 higher; everything else is unchanged.\<close>

definition py_lower :: "char \<Rightarrow> char" where
  "py_lower c =
     (let n = (of_char c :: nat)
      in if (65 \<le> n \<and> n \<le> 90) \<or> (192 \<le> n \<and> n \<le> 222 \<and> n \<noteq> 215)
         then char_of (n + 32) else c)"

definition py_lower_str :: "string \<Rightarrow> string" where
  "py_lower_str s = map py_lower s"

text \<open>\<open>str.isspace\<close> below 256: tab to carriage return, the four
  information separators \<open>0x1C\<close>--\<open>0x1F\<close>, space, NEL and NBSP.\<close>

definition py_isspace :: "char \<Rightarrow> bool" where
  "py_isspace c =
     (let n = (of_char c :: nat)
      in (9 \<le> n \<and> n \<le> 13) \<or> (28 \<le> n \<and> n \<le> 32) \<or> n = 133 \<or> n = 160)"

subsection \<open>\<open>str.split()\<close> and \<open>str.strip()\<close>\<close>

text \<open>\<open>s.split()\<close> with no separator: runs of whitespace separate the
  fields and no field is empty. The accumulator holds the current field reversed.\<close>

fun split_acc :: "string \<Rightarrow> string \<Rightarrow> string list" where
  "split_acc cur [] = (if cur = [] then [] else [rev cur])"
| "split_acc cur (c # cs) =
     (if py_isspace c
      then (if cur = [] then split_acc [] cs else rev cur # split_acc [] cs)
      else split_acc (c # cur) cs)"

definition py_split :: "string \<Rightarrow> string list" where
  "py_split s = split_acc [] s"

definition py_strip :: "string \<Rightarrow> string" where
  "py_strip s = rev (dropWhile py_isspace (rev (dropWhile py_isspace s)))"

subsection \<open>\<open>str.rfind\<close> with a slice end\<close>

text \<open>The index of the last occurrence of \<open>c\<close> in \<open>s\<close>, or \<open>-1\<close>.\<close>

fun rfind_char :: "char \<Rightarrow> string \<Rightarrow> int" where
  "rfind_char c [] = -1"
| "rfind_char c (x # xs) =
     (let r = rfind_char c xs
      in if 0 \<le> r then r + 1 else if x = c then 0 else -1)"

text \<open>Python normalises a slice end \<open>e\<close> of a sequence of length \<open>n\<close>:
  a negative end counts from the back and is cut at 0, a large end is cut at \<open>n\<close>.\<close>

definition py_slice_end :: "nat \<Rightarrow> int \<Rightarrow> nat" where
  "py_slice_end n e = nat (if e < 0 then max 0 (int n + e) else min e (int n))"

text \<open>\<open>s.rfind(c, None, e)\<close>: the last \<open>c\<close> in \<open>s[:e]\<close>, as an index of \<open>s\<close>.\<close>

definition py_rfind :: "char \<Rightarrow> string \<Rightarrow> int \<Rightarrow> int" where
  "py_rfind c s e = rfind_char c (take (py_slice_end (length s) e) s)"

subsection \<open>Whole-segment suffixes\<close>

text \<open>\<open>s\<close> is the whole of \<open>p\<close>, or a suffix of \<open>p\<close> right after a
  delimiter. Executable form; \<open>whole_suffix_iff\<close> below gives the logical one.\<close>

definition whole_suffix :: "string \<Rightarrow> string \<Rightarrow> bool" where
  "whole_suffix s p \<longleftrightarrow>
     s = p \<or>
     (length s < length p \<and> drop (length p - length s) p = s
      \<and> p ! (length p - length s - 1) = PIPE)"

subsection \<open>Python containers\<close>

text \<open>\<open>d[k] = v\<close> on a dict, as an association list in insertion order: an
  existing key keeps its position, a new key goes last.\<close>

definition py_dict_set :: "('k \<times> 'v) list \<Rightarrow> 'k \<Rightarrow> 'v \<Rightarrow> ('k \<times> 'v) list" where
  "py_dict_set d k v =
     (if k \<in> set (map fst d) then map (\<lambda>(k', v'). if k' = k then (k', v) else (k', v')) d
      else d @ [(k, v)])"

text \<open>\<open>xs.remove(x)\<close>: drops the first occurrence; \<open>None\<close> is the
  \<open>ValueError\<close> raised when there is none.\<close>

fun py_remove :: "'a \<Rightarrow> 'a list \<Rightarrow> 'a list option" where
  "py_remove x [] = None"
| "py_remove x (y # ys) = (if x = y then Some ys else map_option (Cons y) (py_remove x ys))"

text \<open>The outcome of a Python statement sequence that may raise after some of its effects:
  the state reached, and the exception if one was raised there.\<close>

datatype ('e, 's) outcome = Done 's | Raised 'e 's

lemmas py_defs [py_simps] =
  py_lower_str_def py_split_def py_strip_def py_slice_end_def py_rfind_def py_dict_set_def

lemma rfind_char_bounds:
  "-1 \<le> rfind_char c s \<and> rfind_char c s < int (length s)"
  by (induction s) (auto simp: Let_def)

lemma rfind_char_neg_iff [simp]: "rfind_char c s < 0 \<longleftrightarrow> c \<notin> set s"
  by (induction s) (auto simp: Let_def)

lemma rfind_char_nonneg_iff [simp]: "0 \<le> rfind_char c s \<longleftrightarrow> c \<in> set s"
  using rfind_char_neg_iff [of c s] by linarith

lemma rfind_char_found:
  assumes "0 \<le> rfind_char c s"
  shows "s ! nat (rfind_char c s) = c \<and> c \<notin> set (drop (nat (rfind_char c s) + 1) s)"
  using assms
proof (induction s)
  case Nil
  then show ?case by simp
next
  case (Cons x xs)
  show ?case
  proof (cases "0 \<le> rfind_char c xs")
    case True
    with Cons.IH have "xs ! nat (rfind_char c xs) = c"
      and "c \<notin> set (drop (nat (rfind_char c xs) + 1) xs)" by auto
    with True show ?thesis by (simp add: Let_def nat_add_distrib)
  next
    case False
    then have "c \<notin> set xs" by simp
    moreover from Cons.prems have "c \<in> set (x # xs)" by (simp only: rfind_char_nonneg_iff)
    ultimately show ?thesis by (auto simp: Let_def)
  qed
qed

text \<open>The found index splits \<open>s\<close> at its last \<open>c\<close>.\<close>

lemma rfind_char_split:
  assumes "0 \<le> rfind_char c s"
  shows "s = take (nat (rfind_char c s)) s @ c # drop (nat (rfind_char c s) + 1) s
    \<and> c \<notin> set (drop (nat (rfind_char c s) + 1) s)"
proof -
  let ?i = "nat (rfind_char c s)"
  have lt: "?i < length s" using assms rfind_char_bounds [of c s] by linarith
  have "s = take ?i s @ s ! ?i # drop (Suc ?i) s"
    using lt by (simp add: id_take_nth_drop)
  with rfind_char_found [OF assms] show ?thesis by simp
qed

lemma rfind_char_last [simp]: "c \<notin> set t \<Longrightarrow> rfind_char c (u @ c # t) = int (length u)"
  by (induction u) (auto simp: Let_def)

lemma rfind_char_take_bound:
  "0 \<le> rfind_char c (take k s) \<Longrightarrow> nat (rfind_char c (take k s)) < min k (length s)"
  using rfind_char_bounds [of c "take k s"] by (auto simp: nat_less_iff)

lemma take_rfind_prefix:
  assumes "0 \<le> rfind_char c (take k s)"
  shows "s ! nat (rfind_char c (take k s)) = c"
proof -
  let ?i = "nat (rfind_char c (take k s))"
  have "?i < min k (length s)" by (rule rfind_char_take_bound [OF assms])
  moreover have "take k s ! ?i = c" using rfind_char_found [OF assms] by blast
  ultimately show ?thesis by simp
qed

lemma whole_suffix_iff:
  "whole_suffix s p \<longleftrightarrow> s = p \<or> (\<exists>pre. p = pre @ PIPE # s)"
proof
  assume "whole_suffix s p"
  then show "s = p \<or> (\<exists>pre. p = pre @ PIPE # s)"
  proof (unfold whole_suffix_def, elim disjE conjE)
    assume len: "length s < length p" and d: "drop (length p - length s) p = s"
      and pipe: "p ! (length p - length s - 1) = PIPE"
    let ?k = "length p - length s - 1"
    have "p = take ?k p @ p ! ?k # drop (Suc ?k) p"
      using len by (simp add: id_take_nth_drop)
    moreover have "Suc ?k = length p - length s" using len by simp
    ultimately have "p = take ?k p @ PIPE # s" using d pipe by simp
    then show ?thesis by blast
  qed simp
next
  assume "s = p \<or> (\<exists>pre. p = pre @ PIPE # s)"
  then show "whole_suffix s p"
  proof
    assume "\<exists>pre. p = pre @ PIPE # s"
    then obtain pre where p: "p = pre @ PIPE # s" by blast
    have "length p - length s - 1 = length pre" using p by simp
    with p show ?thesis by (simp add: whole_suffix_def nth_append)
  qed (simp add: whole_suffix_def)
qed

lemma whole_suffix_refl [simp]: "whole_suffix p p"
  by (simp add: whole_suffix_def)

lemma whole_suffix_length: "whole_suffix s p \<Longrightarrow> length s \<le> length p"
  by (auto simp: whole_suffix_iff)

lemma whole_suffix_trans:
  "whole_suffix s t \<Longrightarrow> whole_suffix t p \<Longrightarrow> whole_suffix s p"
  unfolding whole_suffix_iff by (metis append.assoc append_Cons)

lemma nth_notin_drop:
  "distinct xs \<Longrightarrow> k < length xs \<Longrightarrow> xs ! k \<notin> set (drop (Suc k) xs)"
  by (auto simp: in_set_conv_nth nth_eq_iff_index_eq)

lemma nth_in_drop:
  "k < j \<Longrightarrow> j < length xs \<Longrightarrow> xs ! j \<in> set (drop (Suc k) xs)"
  by (auto simp: in_set_conv_nth intro!: exI [of _ "j - Suc k"])

lemma py_remove_Some_iff: "py_remove x xs \<noteq> None \<longleftrightarrow> x \<in> set xs"
  by (induction xs) auto

lemma py_remove_mset:
  "py_remove x xs = Some ys \<Longrightarrow> mset xs = add_mset x (mset ys)"
  by (induction xs arbitrary: ys) (auto split: if_splits)

lemma py_dict_set_mem:
  "(a, b) \<in> set (py_dict_set d k v) \<Longrightarrow> (a = k \<and> b = v) \<or> (a \<noteq> k \<and> (a, b) \<in> set d)"
  by (force simp: py_dict_set_def split: if_splits)

lemma map_of_map_replace:
  "map_of (map (\<lambda>(k', v'). if k' = k then (k', v) else (k', v')) d) a =
   (if a = k \<and> k \<in> fst ` set d then Some v else map_of d a)"
proof (induction d)
  case Nil
  then show ?case by simp
next
  case (Cons p d)
  then show ?case by (cases p) (fastforce simp: image_iff)
qed

lemma py_dict_set_map_of: "map_of (py_dict_set d k v) = (map_of d)(k \<mapsto> v)"
proof
  fix a
  show "map_of (py_dict_set d k v) a = ((map_of d)(k \<mapsto> v)) a"
  proof (cases "k \<in> fst ` set d")
    case True
    then show ?thesis by (simp add: py_dict_set_def map_of_map_replace)
  next
    case False
    then have "map_of d k = None" by (simp add: map_of_eq_None_iff)
    then show ?thesis using False by (simp add: py_dict_set_def map_add_def split: option.splits)
  qed
qed
end
