(* ===== verification/ShortNames.thy ===== *)
theory ShortNames
  imports Prelude
begin

text \<open>
  \<open>short_name\<close> of \<open>api/influence_names.py\<close> (lines 57--66): the part of a
  path after the last \<open>|\<close> that lies strictly before the reserved tail of
  \<open>min_len\<close> characters. With \<open>min_len = 0\<close> it is the last segment; with the
  length of the current display name it adds one leading segment. The lemmas show
  that the result is always a whole-segment suffix of the path, that an extension adds
  exactly one segment while the name is shorter than the path, and that extending a
  name that already is the whole path wraps round to the last segment.
\<close>

definition short_name :: "string \<Rightarrow> int \<Rightarrow> string" where
  "short_name name min_len =
     (let idx = py_rfind PIPE name (int (length name) - min_len - 1)
      in if idx < 0 then name else drop (nat (idx + 1)) name)"

lemma short_name_whole_suffix [simp]: "whole_suffix (short_name p m) p"
proof (cases "PIPE \<in> set (take (py_slice_end (length p) (int (length p) - m - 1)) p)")
  case True
  let ?k = "py_slice_end (length p) (int (length p) - m - 1)"
  let ?i = "nat (rfind_char PIPE (take ?k p))"
  have nn: "0 \<le> rfind_char PIPE (take ?k p)" using True by simp
  have lt: "?i < length p" using rfind_char_take_bound [OF nn] by simp
  have "p ! ?i = PIPE" by (rule take_rfind_prefix [OF nn])
  then have "p = take ?i p @ PIPE # drop (?i + 1) p"
    using lt by (metis Suc_eq_plus1 id_take_nth_drop)
  then have "whole_suffix (drop (?i + 1) p) p"
    unfolding whole_suffix_iff by blast
  with nn show ?thesis
    by (simp add: short_name_def py_rfind_def nat_add_distrib)
next
  case False
  then show ?thesis by (simp add: short_name_def py_rfind_def)
qed

text \<open>Extending a proper whole-segment suffix \<open>s\<close> of \<open>p = pre | s\<close>:
  the slice end is exactly the length of \<open>pre\<close>.\<close>

lemma short_name_extend_eq:
  assumes p: "p = pre @ PIPE # s"
  shows "short_name p (int (length s)) =
    (if PIPE \<in> set pre then drop (nat (rfind_char PIPE pre) + 1) pre @ PIPE # s else p)"
proof -
  have k: "py_slice_end (length p) (int (length p) - int (length s) - 1) = length pre"
    using p by (simp add: py_slice_end_def)
  have t: "take (length pre) p = pre" using p by simp
  have sn: "short_name p (int (length s)) =
      (if rfind_char PIPE pre < 0 then p else drop (nat (rfind_char PIPE pre + 1)) p)"
    unfolding short_name_def py_rfind_def Let_def k t ..
  show ?thesis
  proof (cases "PIPE \<in> set pre")
    case True
    then have nn: "0 \<le> rfind_char PIPE pre" by simp
    moreover have "nat (rfind_char PIPE pre) < length pre"
      using rfind_char_bounds [of PIPE pre] nn by linarith
    then have "drop (nat (rfind_char PIPE pre + 1)) p = drop (nat (rfind_char PIPE pre) + 1) pre @ PIPE # s"
      using nn p by (simp add: nat_add_distrib)
    ultimately show ?thesis using True sn by simp
  next
    case False
    then show ?thesis using sn by simp
  qed
qed

text \<open>C7. Extending a display name \<open>s\<close> that is a proper whole-segment suffix
  of its path \<open>pre | s\<close> adds exactly one segment, one without a delimiter, in front of
  \<open>s\<close>: \<open>IndexedName.extend_short_name\<close> grows a name by one segment.\<close>

theorem short_name_extend_one_segment:
  assumes "p = pre @ PIPE # s"
  shows "\<exists>seg. PIPE \<notin> set seg \<and> short_name p (int (length s)) = seg @ PIPE # s"
proof (cases "PIPE \<in> set pre")
  case True
  then have "0 \<le> rfind_char PIPE pre" by simp
  then have "PIPE \<notin> set (drop (nat (rfind_char PIPE pre) + 1) pre)"
    using rfind_char_found by blast
  with True assms show ?thesis by (simp add: short_name_extend_eq)
next
  case False
  with assms show ?thesis by (simp add: short_name_extend_eq)
qed

text \<open>C8. Extending a name that already is the whole path does not keep it: the
  slice end \<open>len(name) - min_len - 1\<close> is \<open>-1\<close>, which Python reads as
  \<open>len(name) - 1\<close>, so the result is the last segment again. The spec says a
  display name only grows.\<close>

theorem short_name_full_wraps: "short_name p (int (length p)) = short_name p 0"
  by (simp add: short_name_def py_rfind_def py_slice_end_def)

text \<open>\<open>short_name(path)\<close> with the default \<open>min_len = 0\<close> has no delimiter
  except possibly as its last character: it is the last segment of the path (a
  trailing delimiter is kept, since the search stops before the last character).\<close>

theorem short_name_last_segment:
  "PIPE \<notin> set (butlast (short_name p 0))"
proof (cases "PIPE \<in> set (take (py_slice_end (length p) (int (length p) - 1)) p)")
  case True
  let ?k = "py_slice_end (length p) (int (length p) - 1)"
  let ?t = "take ?k p"
  have k: "?k = length p - 1" by (cases p) (simp_all add: py_slice_end_def)
  have nn: "0 \<le> rfind_char PIPE ?t" using True by simp
  then have none: "PIPE \<notin> set (drop (nat (rfind_char PIPE ?t) + 1) ?t)"
    using rfind_char_found by blast
  have "butlast (drop (nat (rfind_char PIPE ?t) + 1) p) = drop (nat (rfind_char PIPE ?t) + 1) ?t"
    by (simp add: k butlast_conv_take drop_take)
  with none nn show ?thesis by (simp add: short_name_def py_rfind_def nat_add_distrib)
next
  case False
  have "butlast p = take (py_slice_end (length p) (int (length p) - 1)) p"
    by (cases p) (simp_all add: py_slice_end_def butlast_conv_take)
  with False show ?thesis by (simp add: short_name_def py_rfind_def)
qed

theorem short_name_extend_one_segment_witness:
  "''|a|b'' = ''|a'' @ PIPE # ''b''
   \<and> (\<exists>seg. PIPE \<notin> set seg \<and> short_name ''|a|b'' (int (length ''b'')) = seg @ PIPE # ''b'')"
  using short_name_extend_one_segment [of "''|a|b''" "''|a''" "''b''"] by simp

end
