(* ===== verification/UniqueNames.thy ===== *)
theory UniqueNames
  imports ShortNames
begin

text \<open>
  \<open>IndexedName\<close>, \<open>extend_unique_names\<close> and \<open>unique_names\<close> of
  \<open>api/influence_names.py\<close> (lines 69--117).

  The Python code keeps one \<open>IndexedName\<close> object per input path in
  \<open>indexed_names\<close> and a second list \<open>sorted_by_reveresed_name\<close> holding the
  same objects in another order; extensions made through the sorted list are read back
  through the first. The model makes this sharing explicit: the objects are a store
  \<open>st :: indexed_name list\<close> indexed by input position, and the sorted list is a
  list of store indices (\<open>items\<close>). The \<open>while needs_more_iterations\<close> loop
  has no termination argument in the code, so it is a \<open>partial_function (option)\<close>:
  \<open>None\<close> is a call that never returns.
\<close>

record indexed_name =
  path :: string
  name :: string

definition IndexedName :: "string \<Rightarrow> indexed_name" where
  "IndexedName p = \<lparr>path = p, name = short_name p 0\<rparr>"

definition extend_short_name :: "indexed_name \<Rightarrow> indexed_name" where
  "extend_short_name x = x\<lparr>name := short_name (path x) (int (length (name x)))\<rparr>"

text \<open>One pass of the inner \<open>for item in items[from_item + 1:]\<close> loop over the
  store indices \<open>js\<close>; \<open>c\<close> is the index of \<open>curr\<close>, \<open>cn\<close> the
  \<open>curr_name\<close> read before the pass, \<open>needs_more\<close> is \<open>needs_more_iterations\<close>.\<close>

fun scan_pass ::
  "indexed_name list \<Rightarrow> nat \<Rightarrow> string \<Rightarrow> nat list \<Rightarrow> bool \<Rightarrow> indexed_name list \<times> bool" where
  "scan_pass st c cn [] needs_more = (st, needs_more)"
| "scan_pass st c cn (j # js) needs_more =
     (if name (st ! j) = cn
      then (let st1 = (if \<not> needs_more then st[c := extend_short_name (st ! c)] else st)
            in scan_pass (st1[j := extend_short_name (st1 ! j)]) c cn js True)
      else scan_pass st c cn js needs_more)"

text \<open>\<open>while needs_more_iterations\<close>: the flag starts \<open>True\<close>, so the body runs
  at least once; each run clears the flag, reads \<open>curr_name\<close> and scans.\<close>

partial_function (option) extend_loop ::
  "indexed_name list \<Rightarrow> nat \<Rightarrow> nat list \<Rightarrow> indexed_name list option" where
  "extend_loop st c rest =
     (case scan_pass st c (name (st ! c)) rest False of
        (st', needs_more) \<Rightarrow> if needs_more then extend_loop st' c rest else Some st')"

declare extend_loop.simps [code]

definition extend_unique_names ::
  "indexed_name list \<Rightarrow> nat list \<Rightarrow> nat \<Rightarrow> indexed_name list option" where
  "extend_unique_names st items from_item =
     (if int from_item \<ge> int (length items) - 1 then Some st
      else extend_loop st (items ! from_item) (drop (from_item + 1) items))"

text \<open>\<open>for i, _ in enumerate(sorted_by_reveresed_name)\<close>.\<close>

fun extend_all :: "indexed_name list \<Rightarrow> nat list \<Rightarrow> nat list \<Rightarrow> indexed_name list option" where
  "extend_all st items [] = Some st"
| "extend_all st items (i # is) =
     (case extend_unique_names st items i of
        None \<Rightarrow> None
      | Some st' \<Rightarrow> extend_all st' items is)"

text \<open>\<open>sorted(indexed_names, key=lambda x: x.path[::-1])\<close>: Python's sort is
  stable, as \<open>sort_key\<close> is; strings compare lexicographically by code point.\<close>

definition sorted_by_reversed_name :: "indexed_name list \<Rightarrow> nat list" where
  "sorted_by_reversed_name st = sort_key (\<lambda>i. rev (path (st ! i))) [0..<length st]"

definition unique_names :: "string list \<Rightarrow> string list option" where
  "unique_names name_list =
     (let indexed_names = map IndexedName name_list;
          items = sorted_by_reversed_name indexed_names
      in map_option (map name) (extend_all indexed_names items [0..<length items]))"

text \<open>The invariant of the store: every display name is a whole-segment suffix of
  its own path.\<close>

definition names_well_formed :: "indexed_name list \<Rightarrow> bool" where
  "names_well_formed st \<longleftrightarrow> (\<forall>x\<in>set st. whole_suffix (name x) (path x))"

subsection \<open>One pass of the inner loop\<close>

lemma extend_short_name_path [simp]: "path (extend_short_name x) = path x"
  by (simp add: extend_short_name_def)

lemma extend_short_name_whole [simp]: "whole_suffix (name (extend_short_name x)) (path x)"
  by (simp add: extend_short_name_def)

lemma scan_pass_flag_stays: "snd (scan_pass st c cn js True)"
  by (induction st c cn js True rule: scan_pass.induct) (auto simp: Let_def)

lemma scan_pass_no_hit:
  "\<forall>j\<in>set js. name (st ! j) \<noteq> cn \<Longrightarrow> scan_pass st c cn js m = (st, m)"
  by (induction js) auto

lemma scan_pass_quiet:
  assumes "\<not> snd (scan_pass st c cn js False)"
  shows "fst (scan_pass st c cn js False) = st \<and> (\<forall>j\<in>set js. name (st ! j) \<noteq> cn)"
proof (cases "\<forall>j\<in>set js. name (st ! j) \<noteq> cn")
  case True
  then show ?thesis by (simp add: scan_pass_no_hit)
next
  case False
  then obtain u j v where js: "js = u @ j # v" and hit: "name (st ! j) = cn"
    and none: "\<forall>i\<in>set u. name (st ! i) \<noteq> cn"
    using split_list_first_prop [of js "\<lambda>j. name (st ! j) = cn"] by blast
  have "scan_pass st c cn js False = scan_pass st c cn (j # v) False"
    using none unfolding js by (induction u) auto
  then have "snd (scan_pass st c cn js False)"
    using hit scan_pass_flag_stays by (simp add: Let_def)
  with assms show ?thesis by simp
qed

lemma scan_pass_length [simp]: "length (fst (scan_pass st c cn js m)) = length st"
  by (induction st c cn js m rule: scan_pass.induct) (simp_all add: Let_def)

lemma scan_pass_paths [simp]: "map path (fst (scan_pass st c cn js m)) = map path st"
proof (induction st c cn js m rule: scan_pass.induct)
  case (2 st c cn j js m)
  have upd: "\<And>s k. map path (s[k := extend_short_name (s ! k)]) = map path s"
    by (metis extend_short_name_path list_update_id map_update)
  show ?case using 2 by (simp add: Let_def upd)
qed simp
text \<open>What one pass does to each object, for distinct later indices.\<close>

lemma scan_pass_nth:
  assumes "distinct js" "c \<notin> set js" "i < length st"
  shows "fst (scan_pass st c cn js m) ! i =
      (if i \<in> set js \<and> name (st ! i) = cn then extend_short_name (st ! i)
       else if i = c \<and> \<not> m \<and> (\<exists>j\<in>set js. name (st ! j) = cn)
       then extend_short_name (st ! c) else st ! i)
    \<and> snd (scan_pass st c cn js m) = (m \<or> (\<exists>j\<in>set js. name (st ! j) = cn))"
  using assms
proof (induction js arbitrary: st m)
  case Nil
  then show ?case by simp
next
  case (Cons j js)
  show ?case
  proof (cases "name (st ! j) = cn")
    case False
    with Cons show ?thesis by auto
  next
    case True
    let ?st1 = "if \<not> m then st[c := extend_short_name (st ! c)] else st"
    let ?st2 = "?st1[j := extend_short_name (?st1 ! j)]"
    have jc: "j \<noteq> c" using Cons.prems by auto
    have s1j: "?st1 ! j = st ! j" using jc by simp
    have same: "?st2 ! k = st ! k" if k: "k \<in> set js" for k
    proof -
      have "k \<noteq> j" "k \<noteq> c" using k Cons.prems by auto
      then show ?thesis by simp
    qed
    have eq: "scan_pass st c cn (j # js) m = scan_pass ?st2 c cn js True"
      using True by (simp add: Let_def)
    have IH: "fst (scan_pass ?st2 c cn js True) ! i =
        (if i \<in> set js \<and> name (?st2 ! i) = cn then extend_short_name (?st2 ! i) else ?st2 ! i)
      \<and> snd (scan_pass ?st2 c cn js True)"
      using Cons.IH [of ?st2 True] Cons.prems by simp
    show ?thesis
      using IH True Cons.prems jc same s1j
      by (cases "i = j"; cases "i = c"; cases m) (auto simp: eq nth_list_update)
  qed
qed
lemma names_well_formed_extend:
  "names_well_formed st \<Longrightarrow> names_well_formed (st[k := extend_short_name (st ! k)])"
  unfolding names_well_formed_def
  by (auto dest: set_update_subset_insert [THEN subsetD])

lemma scan_pass_well_formed:
  "names_well_formed st \<Longrightarrow> names_well_formed (fst (scan_pass st c cn js m))"
  by (induction st c cn js m rule: scan_pass.induct) (simp_all add: Let_def names_well_formed_extend)

lemma extend_loop_inv_aux:
  assumes ret: "extend_loop st c' rest' = Some r"
    and step: "\<And>s. Q s \<Longrightarrow> Q (fst (scan_pass s c (name (s ! c)) rest False))"
  shows "c' = c \<longrightarrow> rest' = rest \<longrightarrow> Q st \<longrightarrow>
    Q r \<and> (\<forall>j\<in>set rest. name (r ! j) \<noteq> name (r ! c))"
proof (rule extend_loop.raw_induct [where P = "\<lambda>s c' rest' r'. c' = c \<longrightarrow> rest' = rest \<longrightarrow> Q s \<longrightarrow>
    Q r' \<and> (\<forall>j\<in>set rest. name (r' ! j) \<noteq> name (r' ! c))", OF _ ret])
  fix f s c1 rest1 r1
  assume IH: "\<And>x y z w. f x y z = Some w \<Longrightarrow> y = c \<longrightarrow> z = rest \<longrightarrow> Q x \<longrightarrow>
      Q w \<and> (\<forall>j\<in>set rest. name (w ! j) \<noteq> name (w ! c))"
    and eq: "(case scan_pass s c1 (name (s ! c1)) rest1 False of
      (st', needs_more) \<Rightarrow> if needs_more then f st' c1 rest1 else Some st') = Some r1"
  show "c1 = c \<longrightarrow> rest1 = rest \<longrightarrow> Q s \<longrightarrow>
      Q r1 \<and> (\<forall>j\<in>set rest. name (r1 ! j) \<noteq> name (r1 ! c))"
  proof (intro impI)
    assume c1: "c1 = c" and r1: "rest1 = rest" and qs: "Q s"
    obtain s' nm where sp: "scan_pass s c (name (s ! c)) rest False = (s', nm)"
      by fastforce
    have qs': "Q s'" using step [OF qs] sp by simp
    show "Q r1 \<and> (\<forall>j\<in>set rest. name (r1 ! j) \<noteq> name (r1 ! c))"
    proof (cases nm)
      case True
      then have "f s' c rest = Some r1" using eq sp c1 r1 by simp
      then show ?thesis using IH qs' by blast
    next
      case False
      then have "r1 = s'" using eq sp c1 r1 by simp
      moreover have "s' = s \<and> (\<forall>j\<in>set rest. name (s ! j) \<noteq> name (s ! c))"
        using scan_pass_quiet [of s c "name (s ! c)" rest] sp False by simp
      ultimately show ?thesis using qs by simp
    qed
  qed
qed

text \<open>The loop rule: an invariant of one pass holds when the loop returns, and
  then no later object shares the name of \<open>curr\<close>.\<close>

lemma extend_loop_inv:
  assumes "extend_loop st c rest = Some r"
    and "\<And>s. Q s \<Longrightarrow> Q (fst (scan_pass s c (name (s ! c)) rest False))"
    and "Q st"
  shows "Q r \<and> (\<forall>j\<in>set rest. name (r ! j) \<noteq> name (r ! c))"
  using extend_loop_inv_aux [where Q = Q and c = c and rest = rest, OF assms(1,2)] assms(3)
  by blast

lemma extend_unique_names_inv:
  assumes "extend_unique_names st items k = Some r"
    and "\<And>s c rest. Q s \<Longrightarrow> Q (fst (scan_pass s c (name (s ! c)) rest False))"
    and "Q st"
  shows "Q r"
proof (cases "int k \<ge> int (length items) - 1")
  case True
  then show ?thesis using assms(1,3) by (simp add: extend_unique_names_def)
next
  case False
  then have "extend_loop st (items ! k) (drop (k + 1) items) = Some r"
    using assms(1) by (simp add: extend_unique_names_def)
  from extend_loop_inv [OF this assms(2) assms(3)] show ?thesis ..
qed

lemma extend_all_inv:
  assumes "extend_all st items ks = Some r"
    and "\<And>s c rest. Q s \<Longrightarrow> Q (fst (scan_pass s c (name (s ! c)) rest False))"
    and "Q st"
  shows "Q r"
  using assms
proof (induction ks arbitrary: st)
  case (Cons k ks)
  then obtain s' where "extend_unique_names st items k = Some s'"
    and "extend_all s' items ks = Some r" by (auto split: option.splits)
  with Cons show ?case using extend_unique_names_inv by blast
qed simp
lemma IndexedName_path [simp]: "path (IndexedName p) = p"
  and IndexedName_name [simp]: "name (IndexedName p) = short_name p 0"
  by (simp_all add: IndexedName_def)

lemma name_extend_short_name:
  "name (extend_short_name x) = short_name (path x) (int (length (name x)))"
  by (simp add: extend_short_name_def)

lemma sorted_by_reversed_name_perm:
  "distinct (sorted_by_reversed_name st) \<and> set (sorted_by_reversed_name st) = {..<length st}
   \<and> length (sorted_by_reversed_name st) = length st"
  by (auto simp: sorted_by_reversed_name_def)

lemma unique_names_Some:
  "unique_names ps = Some ns \<Longrightarrow>
   \<exists>r. extend_all (map IndexedName ps) (sorted_by_reversed_name (map IndexedName ps))
          [0..<length ps] = Some r \<and> ns = map name r"
  using sorted_by_reversed_name_perm [of "map IndexedName ps"]
  by (auto simp: unique_names_def Let_def)

lemma unique_names_length:
  assumes "unique_names ps = Some ns"
  shows "length ns = length ps"
proof -
  obtain r where ext: "extend_all (map IndexedName ps) (sorted_by_reversed_name (map IndexedName ps))
      [0..<length ps] = Some r" and ns: "ns = map name r"
    using unique_names_Some [OF assms] by blast
  have "length r = length (map IndexedName ps)"
    by (rule extend_all_inv [where Q = "\<lambda>s. length s = length (map IndexedName ps)", OF ext]) simp_all
  then show ?thesis using ns by simp
qed

text \<open>C2. Whenever \<open>unique_names\<close> returns, it returns one name per input, in
  input order, and each name is a whole-segment suffix of its own path: the sort by
  reversed path only changes the order of processing, never the order of the output.\<close>

theorem unique_names_shape:
  assumes "unique_names ps = Some ns"
  shows "length ns = length ps \<and> (\<forall>i<length ps. whole_suffix (ns ! i) (ps ! i))"
proof -
  obtain r where ext: "extend_all (map IndexedName ps) (sorted_by_reversed_name (map IndexedName ps))
      [0..<length ps] = Some r" and ns: "ns = map name r"
    using unique_names_Some [OF assms] by blast
  let ?Q = "\<lambda>s. map path s = ps \<and> names_well_formed s"
  have q0: "?Q (map IndexedName ps)"
    by (simp add: names_well_formed_def comp_def)
  have "?Q r"
    by (rule extend_all_inv [where Q = ?Q, OF ext _ q0]) (simp add: scan_pass_well_formed)
  then have len: "length r = length ps" and p: "\<And>i. i < length r \<Longrightarrow> path (r ! i) = ps ! i"
    and wf: "\<And>i. i < length r \<Longrightarrow> whole_suffix (name (r ! i)) (path (r ! i))"
    by (auto simp: names_well_formed_def)
  show ?thesis using len p wf ns by simp
qed

text \<open>A single path comes back as its last segment.\<close>

theorem unique_names_single: "unique_names [p] = Some [short_name p 0]"
  by (simp add: unique_names_def sorted_by_reversed_name_def extend_unique_names_def)

lemma extend_loop_quiet:
  "\<forall>j\<in>set rest. name (st ! j) \<noteq> name (st ! c) \<Longrightarrow> extend_loop st c rest = Some st"
  by (simp add: extend_loop.simps scan_pass_no_hit)

lemma extend_all_quiet:
  assumes "distinct (map name st)" "distinct items" "set items \<subseteq> {..<length st}"
  shows "extend_all st items ks = Some st"
proof (induction ks)
  case (Cons k ks)
  have "extend_unique_names st items k = Some st"
  proof (cases "int k \<ge> int (length items) - 1")
    case False
    then have k: "k < length items" by simp
    let ?c = "items ! k" and ?rest = "drop (k + 1) items"
    have "?c \<notin> set ?rest" using assms(2) k by (simp add: nth_notin_drop)
    moreover have "?c < length st" using assms(3) k nth_mem by blast
    moreover have "set ?rest \<subseteq> {..<length st}" using assms(3) by (meson in_set_dropD subset_iff)
    ultimately have "\<forall>j\<in>set ?rest. name (st ! j) \<noteq> name (st ! ?c)"
      using assms(1) by (auto simp: distinct_conv_nth)
    with False show ?thesis by (simp add: extend_unique_names_def extend_loop_quiet)
  qed (simp add: extend_unique_names_def)
  with Cons show ?case by simp
qed simp

text \<open>C5. If the last segments of the paths are already pairwise distinct, the call
  returns (every inner loop stops after one pass) and the names are those last segments.\<close>

theorem unique_names_distinct_last:
  assumes "distinct (map (\<lambda>p. short_name p 0) ps)"
  shows "unique_names ps = Some (map (\<lambda>p. short_name p 0) ps)"
proof -
  let ?st = "map IndexedName ps"
  have "distinct (map name ?st)" using assms by (simp add: comp_def)
  then have "extend_all ?st (sorted_by_reversed_name ?st) [0..<length ps] = Some ?st"
    using sorted_by_reversed_name_perm [of ?st] by (intro extend_all_quiet) auto
  then show ?thesis
    using sorted_by_reversed_name_perm [of ?st] by (simp add: unique_names_def comp_def)
qed

subsection \<open>Identical paths: the loop never ends\<close>

lemma scan_pass_path_nth:
  assumes "i < length st"
  shows "path (fst (scan_pass st c cn js m) ! i) = path (st ! i)"
proof -
  have l: "i < length (fst (scan_pass st c cn js m))" using assms by simp
  have "path (fst (scan_pass st c cn js m) ! i) = map path (fst (scan_pass st c cn js m)) ! i"
    using l by (simp only: nth_map)
  also have "\<dots> = map path st ! i" by (simp only: scan_pass_paths)
  also have "\<dots> = path (st ! i)" using assms by (simp only: nth_map)
  finally show ?thesis .
qed

text \<open>Two objects with the same path and the same name, both compared in a pass
  (one of them possibly \<open>curr\<close>), still share their name after the pass.\<close>

lemma pass_keeps_pair:
  assumes "distinct rest" "c \<notin> set rest" "b \<in> set rest" "a = c \<or> a \<in> set rest"
    and "a < length s" "b < length s"
    and "path (s ! a) = path (s ! b)" "name (s ! a) = name (s ! b)"
  shows "name (fst (scan_pass s c (name (s ! c)) rest False) ! a) =
         name (fst (scan_pass s c (name (s ! c)) rest False) ! b)"
proof -
  let ?cn = "name (s ! c)"
  let ?t = "fst (scan_pass s c ?cn rest False)"
  have ta: "?t ! a = (if a \<in> set rest \<and> name (s ! a) = ?cn then extend_short_name (s ! a)
      else if a = c \<and> (\<exists>j\<in>set rest. name (s ! j) = ?cn) then extend_short_name (s ! c)
      else s ! a)"
    using conjunct1 [OF scan_pass_nth [OF assms(1,2,5), of ?cn False]]
    by (simp only: not_False_eq_True simp_thms)
  have tb: "?t ! b = (if name (s ! b) = ?cn then extend_short_name (s ! b) else s ! b)"
    using scan_pass_nth [OF assms(1,2,6), of ?cn False] assms(2,3) by auto
  have ext_eq: "name (extend_short_name (s ! a)) = name (extend_short_name (s ! b))"
    using assms(7,8) by (simp add: name_extend_short_name)
  show ?thesis
  proof (cases "a = c")
    case True
    then have "a \<notin> set rest" using assms(2) by simp
    moreover have "\<exists>j\<in>set rest. name (s ! j) = ?cn" using assms(3,8) True by auto
    ultimately show ?thesis using ta tb True ext_eq assms(8) by simp
  next
    case False
    then have "a \<in> set rest" using assms(4) by simp
    then show ?thesis using ta tb False ext_eq assms(8) by simp
  qed
qed
lemma loop_diverges_on_pair:
  assumes "distinct rest" "a \<notin> set rest" "b \<in> set rest" "set rest \<subseteq> {..<length s}"
    and "a < length s" "path (s ! a) = path (s ! b)" "name (s ! a) = name (s ! b)"
  shows "extend_loop s a rest = None"
proof (rule ccontr)
  assume "extend_loop s a rest \<noteq> None"
  then obtain r where r: "extend_loop s a rest = Some r" by blast
  have b: "b < length s" using assms(3,4) by blast
  let ?Q = "\<lambda>t. length t = length s \<and> path (t ! a) = path (t ! b) \<and> name (t ! a) = name (t ! b)"
  have step: "?Q (fst (scan_pass t a (name (t ! a)) rest False))" if q: "?Q t" for t
  proof -
    have la: "a < length t" and lb: "b < length t" using q assms(5) b by simp_all
    have "name (fst (scan_pass t a (name (t ! a)) rest False) ! a) =
          name (fst (scan_pass t a (name (t ! a)) rest False) ! b)"
      using pass_keeps_pair [OF assms(1,2,3) _ la lb] q by simp
    then show ?thesis using q la lb by (simp add: scan_pass_path_nth)
  qed
  have q0: "?Q s" using assms(6,7) by simp
  have "?Q r \<and> (\<forall>j\<in>set rest. name (r ! j) \<noteq> name (r ! a))"
    by (rule extend_loop_inv [where Q = ?Q, OF r step q0])
  with assms(3) show False by auto
qed
lemma extend_all_diverges:
  assumes items: "distinct items"
    and pos: "pa < pb" "pb < length items"
  shows "set items \<subseteq> {..<length s} \<Longrightarrow> \<forall>x\<in>set xs. x < pa \<Longrightarrow>
    path (s ! (items ! pa)) = path (s ! (items ! pb)) \<Longrightarrow>
    name (s ! (items ! pa)) = name (s ! (items ! pb)) \<Longrightarrow>
    extend_all s items (xs @ pa # ys) = None"
proof (induction xs arbitrary: s)
  case Nil
  let ?a = "items ! pa" and ?b = "items ! pb" and ?rest = "drop (Suc pa) items"
  have pa: "pa < length items" using pos by simp
  have "extend_loop s ?a ?rest = None"
  proof (rule loop_diverges_on_pair)
    show "distinct ?rest" using items by simp
    show "?a \<notin> set ?rest" using items pa by (rule nth_notin_drop)
    show "?b \<in> set ?rest" using pos by (rule nth_in_drop)
    show "set ?rest \<subseteq> {..<length s}" using Nil.prems(1) by (meson in_set_dropD subset_iff)
    have "?a \<in> set items" using pa by (rule nth_mem)
    then show "?a < length s" using Nil.prems(1) by blast
  qed (use Nil.prems in simp_all)
  with pos show ?case by (simp add: extend_unique_names_def)
next
  case (Cons x xs)
  let ?a = "items ! pa" and ?b = "items ! pb"
  let ?c = "items ! x" and ?rest = "drop (Suc x) items"
  have x: "x < pa" using Cons.prems(2) by simp
  have "?a \<in> set items" "?b \<in> set items" using pos by simp_all
  then have la: "?a < length s" and lb: "?b < length s" using Cons.prems(1) by blast+
  have d: "distinct ?rest" using items by simp
  have c: "?c \<notin> set ?rest" using items x pos by (simp add: nth_notin_drop)
  have ab: "?a \<in> set ?rest" "?b \<in> set ?rest" using x pos by (simp_all add: nth_in_drop)
  have eu: "extend_unique_names s items x = extend_loop s ?c ?rest"
    using x pos by (simp add: extend_unique_names_def)
  show ?case
  proof (cases "extend_loop s ?c ?rest")
    case None
    with eu show ?thesis by simp
  next
    case (Some s')
    let ?Q = "\<lambda>t. length t = length s \<and> path (t ! ?a) = path (t ! ?b) \<and> name (t ! ?a) = name (t ! ?b)"
    have step: "?Q (fst (scan_pass t ?c (name (t ! ?c)) ?rest False))" if q: "?Q t" for t
    proof -
      have la': "?a < length t" and lb': "?b < length t" using q la lb by simp_all
      have "name (fst (scan_pass t ?c (name (t ! ?c)) ?rest False) ! ?a) =
            name (fst (scan_pass t ?c (name (t ! ?c)) ?rest False) ! ?b)"
        using pass_keeps_pair [OF d c ab(2) _ la' lb'] ab(1) q by simp
      then show ?thesis using q la' lb' by (simp add: scan_pass_path_nth)
    qed
    have q0: "?Q s" using Cons.prems(3,4) by simp
    have "?Q s'" using extend_loop_inv [where Q = ?Q, OF Some step q0] by blast
    then have "extend_all s' items (xs @ pa # ys) = None"
      using Cons.IH [of s'] Cons.prems(1,2) by simp
    with eu Some show ?thesis by simp
  qed
qed
lemma unique_names_dup_None:
  assumes "i < length ps" "j < length ps" "i \<noteq> j" "ps ! i = ps ! j"
  shows "unique_names ps = None"
proof -
  let ?st = "map IndexedName ps"
  let ?items = "sorted_by_reversed_name ?st"
  have perm: "distinct ?items" "set ?items = {..<length ps}" "length ?items = length ps"
    using sorted_by_reversed_name_perm [of ?st] by simp_all
  obtain pi where pi: "pi < length ps" "?items ! pi = i"
    using assms(1) perm(2,3) in_set_conv_nth [of i ?items] by auto
  obtain pj where pj: "pj < length ps" "?items ! pj = j"
    using assms(2) perm(2,3) in_set_conv_nth [of j ?items] by auto
  have "pi \<noteq> pj" using pi pj assms(3) by auto
  define pa where "pa = min pi pj"
  define pb where "pb = max pi pj"
  have pos: "pa < pb" "pb < length ?items"
    using \<open>pi \<noteq> pj\<close> pi pj perm(3) by (auto simp: pa_def pb_def)
  have ab: "?items ! pa < length ps \<and> ?items ! pb < length ps \<and> ps ! (?items ! pa) = ps ! (?items ! pb)"
  proof (cases "pi < pj")
    case True
    then show ?thesis using pi pj assms by (simp add: pa_def pb_def)
  next
    case False
    then show ?thesis using pi pj assms by (simp add: pa_def pb_def)
  qed
  then have same: "path (?st ! (?items ! pa)) = path (?st ! (?items ! pb))"
      "name (?st ! (?items ! pa)) = name (?st ! (?items ! pb))" by simp_all
  have "[0..<length ?items] = [0..<pa] @ [pa..<length ?items]"
    using upt_add_eq_append [of 0 pa "length ?items - pa"] pos by simp
  also have "[pa..<length ?items] = pa # [Suc pa..<length ?items]"
    using pos by (simp add: upt_conv_Cons)
  finally have split: "[0..<length ?items] = [0..<pa] @ pa # [Suc pa..<length ?items]" .
  have "extend_all ?st ?items ([0..<pa] @ pa # [Suc pa..<length ?items]) = None"
    by (rule extend_all_diverges [OF perm(1) pos _ _ same]) (simp_all add: perm)
  then show ?thesis by (simp only: unique_names_def Let_def split option.map_disc_iff)
qed


lemma unique_names_not_distinct:
  assumes "\<not> distinct ps"
  shows "unique_names ps = None"
proof -
  from assms obtain i j where "i < length ps" "j < length ps" "i \<noteq> j" "ps ! i = ps ! j"
    by (auto simp: distinct_conv_nth)
  then show ?thesis by (rule unique_names_dup_None)
qed

text \<open>C3. If two inputs are the same path, \<open>unique_names\<close> never returns: when the
  outer loop reaches the first of the two, its inner \<open>while\<close> loop extends both
  names in lockstep forever, since an extension of a full-path name wraps round to the
  last segment. The spec instead says such names are left equal.\<close>

theorem unique_names_duplicate_diverges:
  assumes "i < length ps" "j < length ps" "i \<noteq> j" "ps ! i = ps ! j"
  shows "unique_names ps = None"
proof -
  have "\<not> distinct ps" using assms by (auto simp: distinct_conv_nth)
  then show ?thesis by (rule unique_names_not_distinct)
qed

subsection \<open>The inner loop's postcondition\<close>

text \<open>C6. When the pass for position \<open>k\<close> of the sorted list returns, no later
  entry shares the name of the entry at \<open>k\<close>.\<close>

theorem extend_unique_names_post:
  assumes "extend_unique_names st items k = Some r" "k + 1 < length items"
  shows "\<forall>j\<in>set (drop (k + 1) items). name (r ! j) \<noteq> name (r ! (items ! k))"
proof -
  from assms have "extend_loop st (items ! k) (drop (k + 1) items) = Some r"
    by (simp add: extend_unique_names_def)
  from extend_loop_inv [where Q = "\<lambda>_. True", OF this] show ?thesis by simp
qed

subsection \<open>Witnesses\<close>

theorem unique_names_shape_witness:
  "unique_names [''|a|b'', ''|c|b''] = Some [''a|b'', ''c|b'']
   \<and> length [''a|b'', ''c|b''] = length [''|a|b'', ''|c|b'']
   \<and> whole_suffix ([''a|b'', ''c|b''] ! 0) ([''|a|b'', ''|c|b''] ! 0)
   \<and> whole_suffix ([''a|b'', ''c|b''] ! 1) ([''|a|b'', ''|c|b''] ! 1)"
proof -
  have h: "unique_names [''|a|b'', ''|c|b''] = Some [''a|b'', ''c|b'']" by code_simp
  have "length [''a|b'', ''c|b''] = length [''|a|b'', ''|c|b'']
    \<and> (\<forall>i<length [''|a|b'', ''|c|b'']. whole_suffix ([''a|b'', ''c|b''] ! i) ([''|a|b'', ''|c|b''] ! i))"
    by (rule unique_names_shape [OF h])
  then have len: "length [''a|b'', ''c|b''] = length [''|a|b'', ''|c|b'']"
    and all: "\<And>i. i < length [''|a|b'', ''|c|b''] \<Longrightarrow>
      whole_suffix ([''a|b'', ''c|b''] ! i) ([''|a|b'', ''|c|b''] ! i)"
    by blast+
  have w0: "whole_suffix ([''a|b'', ''c|b''] ! 0) ([''|a|b'', ''|c|b''] ! 0)"
    by (rule all) simp
  have w1: "whole_suffix ([''a|b'', ''c|b''] ! 1) ([''|a|b'', ''|c|b''] ! 1)"
    by (rule all) simp
  from h len w0 w1 show ?thesis by blast
qed

theorem unique_names_duplicate_diverges_witness:
  "unique_names [''|root|hand'', ''|root|hand''] = None"
  using unique_names_duplicate_diverges [of 0 "[''|root|hand'', ''|root|hand'']" 1] by simp

theorem unique_names_distinct_last_witness:
  "distinct (map (\<lambda>p. short_name p 0) [''|root|arm'', ''|root|leg''])
   \<and> unique_names [''|root|arm'', ''|root|leg''] = Some [''arm'', ''leg'']"
proof -
  have h: "distinct (map (\<lambda>p. short_name p 0) [''|root|arm'', ''|root|leg''])"
    by code_simp
  have "map (\<lambda>p. short_name p 0) [''|root|arm'', ''|root|leg''] = [''arm'', ''leg'']"
    by code_simp
  then show ?thesis using unique_names_distinct_last [OF h] h by simp
qed

theorem extend_unique_names_post_witness:
  "extend_unique_names (map IndexedName [''|a|b'', ''b|b'']) [0, 1] 0
     = Some [\<lparr>path = ''|a|b'', name = ''a|b''\<rparr>, \<lparr>path = ''b|b'', name = ''b|b''\<rparr>]
   \<and> (0::nat) + 1 < length [0::nat, 1]
   \<and> name ([\<lparr>path = ''|a|b'', name = ''a|b''\<rparr>, \<lparr>path = ''b|b'', name = ''b|b''\<rparr>] ! 1)
       \<noteq> name ([\<lparr>path = ''|a|b'', name = ''a|b''\<rparr>, \<lparr>path = ''b|b'', name = ''b|b''\<rparr>] ! 0)"
proof -
  have h: "extend_unique_names (map IndexedName [''|a|b'', ''b|b'']) [0, 1] 0
     = Some [\<lparr>path = ''|a|b'', name = ''a|b''\<rparr>, \<lparr>path = ''b|b'', name = ''b|b''\<rparr>]"
    by code_simp
  have "(0::nat) + 1 < length [0::nat, 1]" by simp
  from extend_unique_names_post [OF h this] h show ?thesis by simp
qed

end
