(* ===== verification/GlobMatch.thy ===== *)
theory GlobMatch
  imports Prelude
begin

text \<open>
  The regular-expression fragment that \<open>InfluenceNameFilter.set_filter_string\<close>
  (\<open>api/influence_names.py\<close>, lines 30--33) compiles: after sanitising, a pattern
  source consists of word characters \<open>[A-Za-z0-9_]\<close> and the two-character
  sequence \<open>.*\<close> that replaced each \<open>*\<close>. \<open>parse_re\<close> reads such a
  source the way \<open>re.compile\<close> does and answers \<open>None\<close> for any other source
  (one this model does not cover). The compiled pattern is used with
  \<open>re.IGNORECASE\<close> and \<open>Pattern.search\<close>: a literal matches a character with
  the same lower case, \<open>.\<close> matches every character but a newline, and the match
  may start anywhere.

  \<open>match_prefix\<close> and \<open>regex_search\<close> are the executable matcher;
  \<open>whole_match\<close> is the reference language of a pattern, and
  \<open>regex_search_correct\<close> shows that the matcher finds exactly the strings
  with a substring in that language.
\<close>

datatype re_item = Lit char | AnyRun

definition is_word_char :: "char \<Rightarrow> bool" where
  "is_word_char c \<longleftrightarrow>
     (let n = (of_char c :: nat)
      in (48 \<le> n \<and> n \<le> 57) \<or> (65 \<le> n \<and> n \<le> 90) \<or> (97 \<le> n \<and> n \<le> 122) \<or> n = 95)"

fun parse_re :: "string \<Rightarrow> re_item list option" where
  "parse_re [] = Some []"
| "parse_re (c # cs) =
     (if c = CHR ''.'' then
        (case cs of
           CHR ''*'' # rest \<Rightarrow> map_option (Cons AnyRun) (parse_re rest)
         | _ \<Rightarrow> None)
      else if is_word_char c then map_option (Cons (Lit c)) (parse_re cs)
      else None)"

text \<open>Some prefix of the string matches the whole pattern (\<open>Pattern.match\<close> at
  one position).\<close>

fun match_prefix :: "re_item list \<Rightarrow> string \<Rightarrow> bool" where
  "match_prefix [] s = True"
| "match_prefix (Lit c # ps) [] = False"
| "match_prefix (Lit c # ps) (x # xs) = (py_lower c = py_lower x \<and> match_prefix ps xs)"
| "match_prefix (AnyRun # ps) s =
     (match_prefix ps s \<or>
      (case s of [] \<Rightarrow> False | x # xs \<Rightarrow> x \<noteq> NL \<and> match_prefix (AnyRun # ps) xs))"

text \<open>\<open>pattern.search(value) is not None\<close>: a match at some start position.\<close>

fun regex_search :: "re_item list \<Rightarrow> string \<Rightarrow> bool" where
  "regex_search p [] = match_prefix p []"
| "regex_search p (x # xs) = (match_prefix p (x # xs) \<or> regex_search p xs)"

text \<open>The language of a pattern: the strings it matches as a whole.\<close>

inductive whole_match :: "re_item list \<Rightarrow> string \<Rightarrow> bool" where
  wm_nil: "whole_match [] []"
| wm_lit: "py_lower c = py_lower x \<Longrightarrow> whole_match ps w \<Longrightarrow> whole_match (Lit c # ps) (x # w)"
| wm_any: "NL \<notin> set u \<Longrightarrow> whole_match ps w \<Longrightarrow> whole_match (AnyRun # ps) (u @ w)"

inductive_cases whole_match_NilE: "whole_match [] w"
inductive_cases whole_match_LitE: "whole_match (Lit c # ps) w"
inductive_cases whole_match_AnyE: "whole_match (AnyRun # ps) w"

lemma whole_match_Nil_iff [simp]: "whole_match [] w \<longleftrightarrow> w = []"
  by (auto elim: whole_match_NilE intro: wm_nil)

lemma whole_match_any_Cons:
  "x \<noteq> NL \<Longrightarrow> whole_match (AnyRun # ps) v \<Longrightarrow> whole_match (AnyRun # ps) (x # v)"
proof (erule whole_match_AnyE)
  fix u w
  assume "x \<noteq> NL" "v = u @ w" "NL \<notin> set u" "whole_match ps w"
  then show "whole_match (AnyRun # ps) (x # v)"
    using wm_any [of "x # u" ps w] by simp
qed

lemma match_prefix_any_run:
  "NL \<notin> set u \<Longrightarrow> match_prefix ps s \<Longrightarrow> match_prefix (AnyRun # ps) (u @ s)"
  by (induction u) auto

lemma match_prefix_complete:
  "whole_match p v \<Longrightarrow> match_prefix p (v @ t)"
proof (induction rule: whole_match.induct)
  case (wm_any u ps w)
  from wm_any.hyps(1) wm_any.IH have "match_prefix (AnyRun # ps) (u @ (w @ t))"
    by (rule match_prefix_any_run)
  then show ?case by simp
qed simp_all

lemma match_prefix_sound:
  "match_prefix p s \<Longrightarrow> \<exists>v w. s = v @ w \<and> whole_match p v"
proof (induction p s rule: match_prefix.induct)
  case (1 s)
  then show ?case by (auto intro: wm_nil)
next
  case (3 c ps x xs)
  then obtain v w where xs: "xs = v @ w" and m: "whole_match ps v" by auto
  from "3.prems" have "py_lower c = py_lower x" by simp
  then have "whole_match (Lit c # ps) (x # v)" using m by (rule wm_lit)
  moreover have "x # xs = (x # v) @ w" using xs by simp
  ultimately show ?case by blast
next
  case (4 ps s)
  show ?case
  proof (cases "match_prefix ps s")
    case True
    with "4.IH"(1) obtain v w where "s = v @ w" "whole_match ps v" by blast
    then show ?thesis using wm_any [of "[]" ps v] by auto
  next
    case False
    with "4.prems" obtain x xs where s: "s = x # xs" "x \<noteq> NL"
      and m: "match_prefix (AnyRun # ps) xs" by (auto split: list.splits)
    with "4.IH"(2) obtain v w where xs: "xs = v @ w" and wm: "whole_match (AnyRun # ps) v"
      by blast
    from s(2) wm have "whole_match (AnyRun # ps) (x # v)" by (rule whole_match_any_Cons)
    moreover have "s = (x # v) @ w" using s(1) xs by simp
    ultimately show ?thesis by blast
  qed
qed simp

lemma match_prefix_iff: "match_prefix p s \<longleftrightarrow> (\<exists>v w. s = v @ w \<and> whole_match p v)"
  using match_prefix_sound match_prefix_complete by blast

lemma regex_search_iff_suffix:
  "regex_search p s \<longleftrightarrow> (\<exists>u t. s = u @ t \<and> match_prefix p t)"
proof (induction s)
  case Nil
  then show ?case by simp
next
  case (Cons x xs)
  show ?case
  proof
    assume "regex_search p (x # xs)"
    then consider "match_prefix p (x # xs)" | "regex_search p xs" by auto
    then show "\<exists>u t. x # xs = u @ t \<and> match_prefix p t"
    proof cases
      case 1
      have "x # xs = [] @ (x # xs)" by simp
      with 1 show ?thesis by blast
    next
      case 2
      with Cons.IH obtain u t where "xs = u @ t" "match_prefix p t" by blast
      then have "x # xs = (x # u) @ t \<and> match_prefix p t" by simp
      then show ?thesis by blast
    qed
  next
    assume "\<exists>u t. x # xs = u @ t \<and> match_prefix p t"
    then obtain u t where "x # xs = u @ t" "match_prefix p t" by blast
    then show "regex_search p (x # xs)"
      using Cons.IH by (cases u) auto
  qed
qed

text \<open>The executable search is the specification of an unanchored match: it
  succeeds exactly when some substring of the value is in the pattern's language.\<close>

theorem regex_search_correct:
  "regex_search p s \<longleftrightarrow> (\<exists>u v w. s = u @ v @ w \<and> whole_match p v)"
  unfolding regex_search_iff_suffix match_prefix_iff by blast

end
