(* ===== verification/NameFilter.thy ===== *)
theory NameFilter
  imports GlobMatch
begin

text \<open>
  \<open>InfluenceNameFilter\<close> of \<open>api/influence_names.py\<close> (lines 7--54): the
  object behind the search box of the influences list. Its state is the record
  \<open>name_filter\<close>: the compiled \<open>matchers\<close>, the last
  \<open>currentFilterString\<close> and, for the \<open>changed\<close> signal, the number of
  notifications emitted so far. \<open>set_filter_string\<close> is the whole method,
  early return included; its result pairs the raised exception (\<open>Inl\<close>) or normal
  return (\<open>Inr\<close>) with the state after the call, since the method assigns
  \<open>currentFilterString\<close> before it compiles. \<open>is_match\<close> is the predicate.
  \<open>filter_reachable\<close> is the set of states a session can reach from the
  constructor by calls of \<open>set_filter_string\<close>.
\<close>

definition allowed_chars :: string where
  "allowed_chars = ''abcdefghijklmnopqrstuvwxyz0123456789_*''"

text \<open>\<open>"".join([char for char in expression if char.lower() in allowed])\<close>\<close>

definition sanitize :: "string \<Rightarrow> string" where
  "sanitize expression = filter (\<lambda>c. py_lower c \<in> set allowed_chars) expression"

text \<open>\<open>expression.replace("*", ".*")\<close>\<close>

definition star_to_regex :: "string \<Rightarrow> string" where
  "star_to_regex expression =
     concat (map (\<lambda>c. if c = CHR ''*'' then ''.*'' else [c]) expression)"

text \<open>\<open>create_pattern\<close>: \<open>re.compile(expression, re.I)\<close> of the sanitised token;
  \<open>None\<close> is a source outside the modelled fragment.\<close>

definition create_pattern :: "string \<Rightarrow> re_item list option" where
  "create_pattern expression = parse_re (star_to_regex (sanitize expression))"

text \<open>\<open>[i.strip() for i in filter_string.split() if i.strip() != '']\<close>\<close>

definition filter_tokens :: "string \<Rightarrow> string list" where
  "filter_tokens filter_string =
     map py_strip (filter (\<lambda>i. py_strip i \<noteq> []) (py_split filter_string))"

text \<open>The list comprehension compiles the tokens in order; the first failure
  raises out of it.\<close>

fun compile_all :: "string list \<Rightarrow> re_item list list option" where
  "compile_all [] = Some []"
| "compile_all (t # ts) =
     (case create_pattern t of
        None \<Rightarrow> None
      | Some p \<Rightarrow> map_option (Cons p) (compile_all ts))"

record name_filter =
  matchers :: "re_item list list"
  currentFilterString :: string
  changed_emitted :: nat

definition InfluenceNameFilter :: name_filter where
  "InfluenceNameFilter = \<lparr>matchers = [], currentFilterString = [], changed_emitted = 0\<rparr>"

datatype filter_error = ReError

definition set_filter_string ::
  "name_filter \<Rightarrow> string \<Rightarrow> (filter_error + unit) \<times> name_filter" where
  "set_filter_string f filter_string =
     (if currentFilterString f = filter_string then (Inr (), f)
      else
        (let f1 = f\<lparr>currentFilterString := filter_string\<rparr>
         in case compile_all (filter_tokens filter_string) of
              None \<Rightarrow> (Inl ReError, f1)
            | Some ms \<Rightarrow> (Inr (), f1\<lparr>matchers := ms, changed_emitted := Suc (changed_emitted f1)\<rparr>)))"

text \<open>\<open>InfluenceNameFilter.short_name\<close>: the text after the last \<open>|\<close>;
  \<open>rindex\<close> raises when there is none and the handler returns the name.\<close>

definition filter_short_name :: "string \<Rightarrow> string" where
  "filter_short_name name =
     (let idx = rfind_char PIPE name in if idx < 0 then name else drop (nat (idx + 1)) name)"

definition is_match :: "name_filter \<Rightarrow> string \<Rightarrow> bool" where
  "is_match f value =
     (if matchers f = [] then True
      else (let v = filter_short_name (py_lower_str value)
            in list_ex (\<lambda>pattern. regex_search pattern v) (matchers f)))"

inductive filter_reachable :: "name_filter \<Rightarrow> bool" where
  fr_init: "filter_reachable InfluenceNameFilter"
| fr_set: "filter_reachable f \<Longrightarrow> filter_reachable (snd (set_filter_string f s))"

text \<open>The pattern a sanitised token stands for: \<open>*\<close> is a run, the rest literals.\<close>

definition re_item_of :: "char \<Rightarrow> re_item" where
  "re_item_of c = (if c = CHR ''*'' then AnyRun else Lit c)"

text \<open>The invariant: the matchers are the sanitised whitespace-separated tokens of
  the current filter string.\<close>

definition filter_inv :: "name_filter \<Rightarrow> bool" where
  "filter_inv f \<longleftrightarrow>
     matchers f = map (\<lambda>t. map re_item_of (sanitize t)) (py_split (currentFilterString f))"

subsection \<open>Sanitising makes every token compile\<close>

lemma allowed_chars_ascii: "d \<in> set allowed_chars \<Longrightarrow> (of_char d :: nat) < 128"
  by (auto simp: allowed_chars_def)

lemma allowed_chars_kind: "d \<in> set allowed_chars \<Longrightarrow> d = CHR ''*'' \<or> is_word_char d"
  by (auto simp: allowed_chars_def is_word_char_def)

lemma sanitized_char_kind:
  assumes "py_lower c \<in> set allowed_chars"
  shows "c = CHR ''*'' \<or> is_word_char c"
proof -
  let ?n = "of_char c :: nat"
  have n: "?n < 256" by (rule nat_of_char_less_256)
  consider (upper) "65 \<le> ?n \<and> ?n \<le> 90" | (latin) "192 \<le> ?n \<and> ?n \<le> 222 \<and> ?n \<noteq> 215"
    | (same) "\<not> (65 \<le> ?n \<and> ?n \<le> 90) \<and> \<not> (192 \<le> ?n \<and> ?n \<le> 222 \<and> ?n \<noteq> 215)"
    by blast
  then show ?thesis
  proof cases
    case upper
    then show ?thesis by (simp add: is_word_char_def)
  next
    case latin
    then have "of_char (py_lower c) = ?n + 32" using n by (simp add: py_lower_def Let_def)
    with latin allowed_chars_ascii [OF assms] show ?thesis by simp
  next
    case same
    then have "py_lower c = c" by (auto simp: py_lower_def Let_def)
    with assms show ?thesis using allowed_chars_kind by simp
  qed
qed

lemma word_char_not_dot: "is_word_char c \<Longrightarrow> c \<noteq> CHR ''.''"
  by (auto simp: is_word_char_def)

lemma parse_re_star_to_regex:
  "\<forall>c\<in>set x. c = CHR ''*'' \<or> is_word_char c \<Longrightarrow>
   parse_re (star_to_regex x) = Some (map re_item_of x)"
  by (induction x) (auto simp: star_to_regex_def re_item_of_def word_char_not_dot)

lemma create_pattern_eq: "create_pattern e = Some (map re_item_of (sanitize e))"
  unfolding create_pattern_def
  by (rule parse_re_star_to_regex) (auto simp: sanitize_def dest: sanitized_char_kind)

lemma compile_all_eq: "compile_all ts = Some (map (\<lambda>t. map re_item_of (sanitize t)) ts)"
  by (induction ts) (simp_all add: create_pattern_eq)

lemma set_filter_string_eq:
  "set_filter_string f fs =
     (if currentFilterString f = fs then (Inr (), f)
      else (Inr (), f\<lparr>currentFilterString := fs,
                      matchers := map (\<lambda>t. map re_item_of (sanitize t)) (filter_tokens fs),
                      changed_emitted := Suc (changed_emitted f)\<rparr>))"
  by (simp add: set_filter_string_def compile_all_eq)

subsection \<open>Tokens of \<open>str.split()\<close>\<close>
lemma split_acc_tokens:
  "\<forall>c\<in>set cur. \<not> py_isspace c \<Longrightarrow>
   \<forall>t\<in>set (split_acc cur s). t \<noteq> [] \<and> (\<forall>c\<in>set t. \<not> py_isspace c)"
proof (induction cur s rule: split_acc.induct)
  case (1 cur)
  then show ?case by simp
next
  case (2 cur c cs)
  consider (sp_nil) "py_isspace c" "cur = []" | (sp) "py_isspace c" "cur \<noteq> []"
    | (other) "\<not> py_isspace c" by blast
  then show ?case
  proof cases
    case sp_nil
    then have "\<forall>t\<in>set (split_acc [] cs). t \<noteq> [] \<and> (\<forall>c\<in>set t. \<not> py_isspace c)"
      using "2.IH"(1) by simp
    with sp_nil show ?thesis by simp
  next
    case sp
    then have "\<forall>t\<in>set (split_acc [] cs). t \<noteq> [] \<and> (\<forall>c\<in>set t. \<not> py_isspace c)"
      using "2.IH"(2) by simp
    with sp "2.prems" show ?thesis by simp
  next
    case other
    then have "\<forall>t\<in>set (split_acc (c # cur) cs). t \<noteq> [] \<and> (\<forall>c\<in>set t. \<not> py_isspace c)"
      using "2.IH"(3) "2.prems" by simp
    with other show ?thesis by simp
  qed
qed
lemma py_strip_id: "\<forall>c\<in>set t. \<not> py_isspace c \<Longrightarrow> py_strip t = t"
proof -
  assume none: "\<forall>c\<in>set t. \<not> py_isspace c"
  have d1: "dropWhile py_isspace t = t"
    using none by (cases t) simp_all
  have "\<forall>c\<in>set (rev t). \<not> py_isspace c" using none by simp
  then have d2: "dropWhile py_isspace (rev t) = rev t"
    by (cases "rev t") simp_all
  show ?thesis by (simp add: py_strip_def d1 d2)
qed

lemma filter_tokens_eq [simp]: "filter_tokens fs = py_split fs"
proof -
  have tok: "\<forall>t\<in>set (py_split fs). t \<noteq> [] \<and> (\<forall>c\<in>set t. \<not> py_isspace c)"
    using split_acc_tokens [of "[]" fs] by (simp add: py_split_def)
  then have "filter (\<lambda>i. py_strip i \<noteq> []) (py_split fs) = py_split fs"
    by (simp add: py_strip_id)
  moreover have "map py_strip (py_split fs) = py_split fs"
    using tok by (simp add: py_strip_id map_idI)
  ultimately show ?thesis by (simp add: filter_tokens_def)
qed

lemma split_acc_Nil_iff:
  "split_acc cur s = [] \<longleftrightarrow> cur = [] \<and> (\<forall>c\<in>set s. py_isspace c)"
proof (induction cur s rule: split_acc.induct)
  case (2 cur c cs)
  then show ?case by (cases "py_isspace c") simp_all
qed simp

lemma py_split_Nil_iff: "py_split s = [] \<longleftrightarrow> (\<forall>c\<in>set s. py_isspace c)"
  by (simp add: py_split_def split_acc_Nil_iff)
subsection \<open>The reachable states\<close>

lemma set_filter_string_current [simp]:
  "currentFilterString (snd (set_filter_string f fs)) = fs"
  by (simp add: set_filter_string_eq)

lemma set_filter_string_inv: "filter_inv f \<Longrightarrow> filter_inv (snd (set_filter_string f fs))"
  by (auto simp: set_filter_string_eq filter_inv_def)

lemma filter_reachable_inv: "filter_reachable f \<Longrightarrow> filter_inv f"
proof (induction rule: filter_reachable.induct)
  case fr_init
  show ?case by (simp add: filter_inv_def InfluenceNameFilter_def py_split_def)
next
  case (fr_set f s)
  from fr_set.IH show ?case by (rule set_filter_string_inv)
qed

lemma is_match_tokens:
  assumes "filter_inv f"
  shows "is_match f v \<longleftrightarrow> py_split (currentFilterString f) = [] \<or>
    (\<exists>t\<in>set (py_split (currentFilterString f)).
       regex_search (map re_item_of (sanitize t)) (filter_short_name (py_lower_str v)))"
  using assms by (auto simp: is_match_def filter_inv_def list_ex_iff)

subsection \<open>Properties of the filter object\<close>

text \<open>Setting the same filter string twice changes nothing the second time:
  the second call is a no-op and, over both calls, the \<open>changed\<close> signal is emitted
  once if the string was new and never otherwise.\<close>

theorem set_filter_string_repeat:
  "snd (set_filter_string (snd (set_filter_string f t)) t) = snd (set_filter_string f t)
   \<and> changed_emitted (snd (set_filter_string (snd (set_filter_string f t)) t))
       = changed_emitted f + (if currentFilterString f = t then 0 else 1)"
  by (simp add: set_filter_string_eq)

text \<open>C12. In every state a session can reach, the matchers are exactly what the
  code's own compilation of the current filter string yields.\<close>

theorem filter_reachable_consistent:
  "filter_reachable f \<Longrightarrow> compile_all (filter_tokens (currentFilterString f)) = Some (matchers f)"
  using filter_reachable_inv [of f] by (simp add: filter_inv_def compile_all_eq)

text \<open>After the filter string is set to the empty string, every value matches.\<close>

theorem empty_filter_matches_all:
  assumes "filter_reachable f"
  shows "is_match (snd (set_filter_string f [])) x"
proof -
  have "filter_reachable (snd (set_filter_string f []))" using assms by (rule fr_set)
  then have "filter_inv (snd (set_filter_string f []))" by (rule filter_reachable_inv)
  then have "matchers (snd (set_filter_string f [])) = []"
    by (simp add: filter_inv_def py_split_def)
  then show ?thesis by (simp add: is_match_def)
qed

text \<open>The docstring's example: the filter \<open>"leg arm spines"\<close> matches
  \<open>"leg"\<close>, \<open>"left_leg"\<close> and \<open>"R_arm"\<close>, but not \<open>"spine"\<close>.\<close>

theorem filter_leg_arm_spines:
  "let f = snd (set_filter_string InfluenceNameFilter ''leg arm spines'')
   in is_match f ''leg'' \<and> is_match f ''left_leg'' \<and> is_match f ''R_arm'' \<and> \<not> is_match f ''spine''"
  by code_simp

text \<open>The wildcard: \<open>"sp*ne"\<close> matches \<open>"spXXne"\<close>, \<open>"spne"\<close> and
  \<open>"spine"\<close>, not \<open>"spn"\<close>; the match is case-insensitive and uses only the last
  path segment.\<close>

theorem filter_wildcard_example:
  "let f = snd (set_filter_string InfluenceNameFilter ''sp*ne'')
   in is_match f ''spXXne'' \<and> is_match f ''spne'' \<and> is_match f ''|root|SPINE''
      \<and> \<not> is_match f ''spn'' \<and> \<not> is_match f ''|spine|arm''"
  by code_simp

text \<open>C16. \<open>set_filter_string\<close> never raises: after sanitising, every token is a
  pattern \<open>re.compile\<close> accepts.\<close>

theorem set_filter_string_never_raises: "fst (set_filter_string f fs) = Inr ()"
  by (simp add: set_filter_string_eq)

text \<open>C18. What \<open>is_match\<close> decides, in a reachable state: everything matches when
  the filter string has no token; otherwise a value matches when some substring of
  its lower-cased last segment is in the language of some sanitised token.\<close>

theorem is_match_spec:
  assumes "filter_reachable f"
  shows "is_match f v \<longleftrightarrow> py_split (currentFilterString f) = [] \<or>
    (\<exists>t\<in>set (py_split (currentFilterString f)). \<exists>u w x.
       filter_short_name (py_lower_str v) = u @ w @ x \<and> whole_match (map re_item_of (sanitize t)) w)"
proof -
  have rs: "\<And>p s. regex_search p s \<longleftrightarrow> (\<exists>u w x. s = u @ w @ x \<and> whole_match p w)"
    unfolding regex_search_iff_suffix match_prefix_iff by blast
  show ?thesis
    using is_match_tokens [OF filter_reachable_inv [OF assms]] by (simp only: rs)
qed

text \<open>The wildcard \<open>*\<close> becomes \<open>.*\<close>, and \<open>.\<close> does not match a
  newline: \<open>"a*b"\<close> matches \<open>"a-b"\<close> but not \<open>"a\nb"\<close>, where the spec
  says \<open>*\<close> stands for any run of characters.\<close>

theorem wildcard_stops_at_newline:
  "let f = snd (set_filter_string InfluenceNameFilter ''a*b'')
   in \<not> is_match f (''a'' @ [CHR 0x0A] @ ''b'') \<and> is_match f ''a-b''"
  by code_simp

text \<open>The two visible states: a reachable filter is unfiltered (no matchers)
  exactly when its filter string consists of whitespace only.\<close>

theorem unfiltered_iff_blank:
  assumes "filter_reachable f"
  shows "matchers f = [] \<longleftrightarrow> (\<forall>c\<in>set (currentFilterString f). py_isspace c)"
  using filter_reachable_inv [OF assms] by (simp add: filter_inv_def py_split_Nil_iff)

subsection \<open>Witnesses\<close>

theorem filter_reachable_consistent_witness:
  "filter_reachable (snd (set_filter_string InfluenceNameFilter ''leg arm''))
   \<and> compile_all (filter_tokens (currentFilterString (snd (set_filter_string InfluenceNameFilter ''leg arm''))))
     = Some (matchers (snd (set_filter_string InfluenceNameFilter ''leg arm'')))"
proof -
  have r: "filter_reachable (snd (set_filter_string InfluenceNameFilter ''leg arm''))"
    by (rule fr_set [OF fr_init])
  show ?thesis using filter_reachable_consistent [OF r] r by blast
qed

theorem empty_filter_matches_all_witness:
  "filter_reachable (snd (set_filter_string InfluenceNameFilter ''leg''))
   \<and> is_match (snd (set_filter_string (snd (set_filter_string InfluenceNameFilter ''leg'')) [])) ''spine''"
proof -
  have r: "filter_reachable (snd (set_filter_string InfluenceNameFilter ''leg''))"
    by (rule fr_set [OF fr_init])
  show ?thesis using empty_filter_matches_all [OF r] r by blast
qed

theorem is_match_spec_witness:
  "filter_reachable (snd (set_filter_string InfluenceNameFilter ''arm''))
   \<and> is_match (snd (set_filter_string InfluenceNameFilter ''arm'')) ''|root|R_arm''
   \<and> (\<exists>u w x. filter_short_name (py_lower_str ''|root|R_arm'') = u @ w @ x
          \<and> whole_match (map re_item_of (sanitize ''arm'')) w)"
proof -
  have r: "filter_reachable (snd (set_filter_string InfluenceNameFilter ''arm''))"
    by (rule fr_set [OF fr_init])
  have m: "is_match (snd (set_filter_string InfluenceNameFilter ''arm'')) ''|root|R_arm''"
    by code_simp
  have toks: "py_split (currentFilterString (snd (set_filter_string InfluenceNameFilter ''arm''))) = [''arm'']"
    by code_simp
  from is_match_spec [OF r, of "''|root|R_arm''"] m toks
  have "\<exists>u w x. filter_short_name (py_lower_str ''|root|R_arm'') = u @ w @ x
          \<and> whole_match (map re_item_of (sanitize ''arm'')) w" by simp
  with r m show ?thesis by blast
qed

theorem unfiltered_iff_blank_witness:
  "filter_reachable (snd (set_filter_string InfluenceNameFilter (CHR '' '' # [CHR 0x09])))
   \<and> matchers (snd (set_filter_string InfluenceNameFilter (CHR '' '' # [CHR 0x09]))) = []"
proof -
  have r: "filter_reachable (snd (set_filter_string InfluenceNameFilter (CHR '' '' # [CHR 0x09])))"
    by (rule fr_set [OF fr_init])
  have "py_isspace CHR '' '' \<and> py_isspace (CHR 0x09)" by (simp add: py_isspace_def)
  then show ?thesis using unfiltered_iff_blank [OF r] r by simp
qed
end
