(* ===== verification/InfluencesView.thy ===== *)
theory InfluencesView
  imports UniqueNames NameFilter
begin

text \<open>
  The influences list of \<open>ui/influencesview.py\<close>. The objects it reads come from
  modules outside \<open>src/\<close> and are records of exactly the fields the view uses:
  \<open>layer\<close> for \<open>api.layers.Layer\<close>, \<open>influence_info\<close> for
  \<open>InfluenceInfo\<close> (with the value of \<open>path_name()\<close> as a field) and
  \<open>ui_config\<close> for the two options of \<open>ui.options.config\<close>. An item id is
  \<open>"mask"\<close>, \<open>"dq"\<close> or an influence's logical index (\<open>tree_id\<close>).

  \<open>wanted_tree_items\<close> is the generator of lines 273--316; its result lists the
  rows it yields, and is \<open>Stalls\<close> when the call of \<open>unique_names\<close> never
  returns, after the header rows. \<open>add_or_remove\<close> and \<open>lock_unlock_handler\<close>
  are the button handlers of lines 100--115; \<open>trigger_used_action\<close> and
  \<open>trigger_sort_action\<close> the actions of lines 17--59 with the signal handlers they
  registered. The tree widget is the record \<open>view_state\<close> (rows, current row,
  the dict \<open>tree_items\<close> as an insertion-ordered association list);
  \<open>build_items\<close>, \<open>refresh_items\<close>, \<open>current_layer_changed\<close>,
  \<open>current_influence_changed\<close>, \<open>sync_paint_targets_to_selection\<close> and
  \<open>current_item_changed\<close> are the handlers of \<open>build_view\<close>, each a function
  from the widget state (and the session's layer) to the new state or the new layer.

  The lemmas show the generator's contract (C22--C25), the lock buttons' effect, round
  trip and error (C26--C28), the check marks (C29--C30) and the tree widget handlers
  (C31--C34).
\<close>

datatype tree_id = MaskId | DqId | InflId nat

datatype icon = IconMask | IconDq | IconJoint | IconJointDisabled | IconTransform | IconTransformDisabled

datatype lock_button = LockedButton | UnlockedButton

datatype sort_mode = InfluencesSortUnsorted | InfluencesSortDescending

record influence_info =
  logicalIndex :: nat
  infl_path :: "string option"
  path_name :: string

record layer =
  num_children :: nat
  paint_targets :: "tree_id list"
  locked_influences :: "tree_id list option"
  used_influences :: "nat list option"

record ui_config =
  influences_show_used_influences_only :: bool
  influences_sort :: sort_mode

record tree_row =
  item_id :: tree_id
  display_name :: string
  row_icon :: icon
  row_buttons :: "lock_button list"

text \<open>What a generator yields before it returns, or before it stops making progress.\<close>

datatype 'a gen_result = Finished "'a list" | Stalls "'a list"

definition get_icon :: "bool \<Rightarrow> bool \<Rightarrow> icon" where
  "get_icon used is_joint =
     (if used then (if is_joint then IconJoint else IconTransform)
      else (if is_joint then IconJointDisabled else IconTransformDisabled))"

definition mask_row :: tree_row where
  "mask_row = \<lparr>item_id = MaskId, display_name = ''[Mask]'', row_icon = IconMask, row_buttons = []\<rparr>"

definition dq_row :: tree_row where
  "dq_row = \<lparr>item_id = DqId, display_name = ''[DQ Weights]'', row_icon = IconDq, row_buttons = []\<rparr>"

text \<open>\<open>x or []\<close> for an optional list.\<close>

definition or_empty :: "'a list option \<Rightarrow> 'a list" where
  "or_empty x = (case x of None \<Rightarrow> [] | Some xs \<Rightarrow> xs)"

definition influence_row :: "nat set \<Rightarrow> tree_id set \<Rightarrow> influence_info \<times> string \<Rightarrow> tree_row" where
  "influence_row used locked iu =
     (let i = fst iu
      in \<lparr>item_id = InflId (logicalIndex i), display_name = snd iu,
          row_icon = get_icon (logicalIndex i \<in> used) (infl_path i \<noteq> None),
          row_buttons = [if InflId (logicalIndex i) \<in> locked then LockedButton else UnlockedButton]\<rparr>)"

text \<open>Lines 290--300: the items that get a row, before the name filter.\<close>

definition shown_items :: "layer \<Rightarrow> ui_config \<Rightarrow> bool \<Rightarrow> influence_info list \<Rightarrow> influence_info list" where
  "shown_items l config is_group_layer items =
     (let used = set (or_empty (used_influences l));
          items1 = (if influences_show_used_influences_only config
                    then filter (\<lambda>i. logicalIndex i \<in> used) items else items)
      in if is_group_layer then [] else items1)"

text \<open>Lines 302--304: the rows yielded before \<open>unique_names\<close> is called.\<close>

definition header_rows :: "bool \<Rightarrow> bool \<Rightarrow> tree_row list" where
  "header_rows is_group_layer include_dq_item =
     mask_row # (if \<not> is_group_layer \<and> include_dq_item then [dq_row] else [])"

definition wanted_tree_items ::
  "layer option \<Rightarrow> ui_config \<Rightarrow> bool \<Rightarrow> bool \<Rightarrow> name_filter \<Rightarrow> influence_info list \<Rightarrow> tree_row gen_result" where
  "wanted_tree_items layer_opt config is_group_layer include_dq_item filter_obj items =
     (case layer_opt of
        None \<Rightarrow> Finished []
      | Some l \<Rightarrow>
          (let used = set (or_empty (used_influences l));
               locked = set (or_empty (locked_influences l));
               items2 = shown_items l config is_group_layer items;
               header = header_rows is_group_layer include_dq_item
           in case unique_names (map path_name items2) of
                None \<Rightarrow> Stalls header
              | Some names \<Rightarrow>
                  (let named = zip items2 names;
                       ordered = (if influences_sort config = InfluencesSortDescending
                                  then sort_key snd named else named)
                   in Finished (header @ map (influence_row used locked)
                                  (filter (\<lambda>iu. is_match filter_obj (path_name (fst iu))) ordered)))))"

text \<open>\<open>add_or_remove\<close>: \<open>list(input_list)\<close> and the comprehension over it raise
  \<open>TypeError\<close> when the layer's list is \<open>None\<close>.\<close>

datatype view_error = TypeError | ValueError

definition add_or_remove ::
  "tree_id list option \<Rightarrow> tree_id list \<Rightarrow> bool \<Rightarrow> view_error + tree_id list" where
  "add_or_remove input_list items should_add =
     (case input_list of
        None \<Rightarrow> Inl TypeError
      | Some xs \<Rightarrow> Inr (if should_add then xs @ items else filter (\<lambda>i. i \<notin> set items) xs))"

text \<open>The handler of a row's lock button: the targets are the layer's paint targets
  when the row is one of them, else the row alone. On success it emits
  \<open>influencesListUpdated\<close> (the \<open>bool\<close> of the result).\<close>

definition lock_targets :: "tree_id \<Rightarrow> layer \<Rightarrow> tree_id list" where
  "lock_targets item_id' l = (if item_id' \<notin> set (paint_targets l) then [item_id'] else paint_targets l)"

definition lock_unlock_handler ::
  "bool \<Rightarrow> tree_id \<Rightarrow> layer \<Rightarrow> view_error + (layer \<times> bool)" where
  "lock_unlock_handler lock item_id' l =
     (let targets = lock_targets item_id' l
      in case add_or_remove (locked_influences l) targets lock of
           Inl e \<Rightarrow> Inl e
         | Inr xs \<Rightarrow> Inr (l\<lparr>locked_influences := Some xs\<rparr>, True))"

text \<open>The two check-mark actions and the handlers registered on the options'
  \<open>changed\<close> signals. Both \<open>update\<close> functions were registered on
  \<open>influences_show_used_influences_only.changed\<close>; the option
  \<open>influences_sort\<close> has only the view's refresh as a listener. Triggering a
  checkable \<open>QAction\<close> first flips its check mark, then runs the callback.\<close>

record actions_state =
  used_checked :: bool
  sort_checked :: bool

definition update_used :: "ui_config \<Rightarrow> actions_state \<Rightarrow> actions_state" where
  "update_used config a = a\<lparr>used_checked := influences_show_used_influences_only config\<rparr>"

definition update_sorted :: "ui_config \<Rightarrow> actions_state \<Rightarrow> actions_state" where
  "update_sorted config a = a\<lparr>sort_checked := (influences_sort config = InfluencesSortDescending)\<rparr>"

definition on_show_used_changed :: "ui_config \<Rightarrow> actions_state \<Rightarrow> actions_state" where
  "on_show_used_changed config a = update_sorted config (update_used config a)"

definition on_sort_changed :: "ui_config \<Rightarrow> actions_state \<Rightarrow> actions_state" where
  "on_sort_changed config a = a"

definition set_show_used :: "bool \<Rightarrow> ui_config \<times> actions_state \<Rightarrow> ui_config \<times> actions_state" where
  "set_show_used v s =
     (let c = (fst s)\<lparr>influences_show_used_influences_only := v\<rparr> in (c, on_show_used_changed c (snd s)))"

definition set_sort :: "sort_mode \<Rightarrow> ui_config \<times> actions_state \<Rightarrow> ui_config \<times> actions_state" where
  "set_sort v s = (let c = (fst s)\<lparr>influences_sort := v\<rparr> in (c, on_sort_changed c (snd s)))"

definition trigger_used_action :: "ui_config \<times> actions_state \<Rightarrow> ui_config \<times> actions_state" where
  "trigger_used_action s =
     (let a = (snd s)\<lparr>used_checked := \<not> used_checked (snd s)\<rparr>
      in set_show_used (\<not> influences_show_used_influences_only (fst s)) (fst s, a))"

definition trigger_sort_action :: "ui_config \<times> actions_state \<Rightarrow> ui_config \<times> actions_state" where
  "trigger_sort_action s =
     (let a = (snd s)\<lparr>sort_checked := \<not> sort_checked (snd s)\<rparr>;
          new_value = (if influences_sort (fst s) = InfluencesSortDescending
                       then InfluencesSortUnsorted else InfluencesSortDescending)
      in set_sort new_value (fst s, a))"

definition actions_synced :: "ui_config \<times> actions_state \<Rightarrow> bool" where
  "actions_synced s \<longleftrightarrow>
     used_checked (snd s) = influences_show_used_influences_only (fst s)
     \<and> sort_checked (snd s) = (influences_sort (fst s) = InfluencesSortDescending)"

subsection \<open>The tree widget\<close>

text \<open>The \<open>QTreeWidget\<close> as the view sees it: its top-level rows, the row that is
  the current item, and the dict \<open>tree_items\<close> from item id to row.\<close>

record view_row =
  vr_id :: tree_id
  vr_text :: string
  vr_icon :: icon
  vr_buttons :: "lock_button list"
  vr_selected :: bool

record view_state =
  view_rows :: "view_row list"
  view_current :: "nat option"
  tree_items :: "(tree_id \<times> nat) list"

definition mk_view_row :: "tree_id list \<Rightarrow> tree_row \<Rightarrow> view_row" where
  "mk_view_row selected_ids r =
     \<lparr>vr_id = item_id r, vr_text = display_name r, vr_icon = row_icon r,
      vr_buttons = row_buttons r, vr_selected = item_id r \<in> set selected_ids\<rparr>"

text \<open>The loop of \<open>build_items\<close> (lines 136--166): row \<open>k\<close> is reused or
  appended, recorded in \<open>tree_items\<close>, made current when its id is
  \<open>current_id\<close>, and selected when its id is a paint target; the rows past the last
  one are removed at the end. A removed current row leaves no current row in the
  model (Qt then moves the current index to a neighbour).\<close>

fun fill_rows ::
  "view_state \<Rightarrow> tree_id list \<Rightarrow> tree_id option \<Rightarrow> nat \<Rightarrow> tree_row list \<Rightarrow> view_state" where
  "fill_rows st selected_ids current_id k [] =
     st\<lparr>view_rows := take k (view_rows st),
        view_current := (case view_current st of None \<Rightarrow> None | Some c \<Rightarrow> if c < k then Some c else None)\<rparr>"
| "fill_rows st selected_ids current_id k (r # rs) =
     fill_rows
       (st\<lparr>view_rows := (if k < length (view_rows st)
                          then (view_rows st)[k := mk_view_row selected_ids r]
                          else view_rows st @ [mk_view_row selected_ids r]),
           tree_items := py_dict_set (tree_items st) (item_id r) k,
           view_current := (if Some (item_id r) = current_id then Some k else view_current st)\<rparr>)
       selected_ids current_id (Suc k) rs"

text \<open>\<open>build_items(view, items, layer)\<close>: the paint targets of the session's current
  layer are selected and the first of them is made current; \<open>None\<close> is a call that
  never returns because the generator stalls.\<close>

definition build_items ::
  "view_state \<Rightarrow> influence_info list \<Rightarrow> layer option \<Rightarrow> layer option \<Rightarrow> bool \<Rightarrow> ui_config
   \<Rightarrow> name_filter \<Rightarrow> view_state option" where
  "build_items st items layer_opt session_layer include_dq config filter_obj =
     (let is_group_layer = (case layer_opt of None \<Rightarrow> False | Some l \<Rightarrow> num_children l \<noteq> 0);
          selected_ids = (case session_layer of None \<Rightarrow> [] | Some l \<Rightarrow> paint_targets l);
          current_id = (case selected_ids of [] \<Rightarrow> None | x # _ \<Rightarrow> Some x)
      in case wanted_tree_items layer_opt config is_group_layer include_dq filter_obj items of
           Stalls _ \<Rightarrow> None
         | Finished rows \<Rightarrow> Some (fill_rows (st\<lparr>tree_items := []\<rparr>) selected_ids current_id 0 rows))"

text \<open>\<open>refresh_items\<close> (lines 186--196), run on every change of the filter, of the two
  options and of the influence list: \<open>items\<close> is what \<open>list_influences\<close>
  returns for the selected skin cluster, and the layer is the session's current layer
  both as the generator's layer and as the source of the selection.\<close>

definition refresh_items ::
  "view_state \<Rightarrow> influence_info list \<Rightarrow> layer option \<Rightarrow> bool \<Rightarrow> ui_config \<Rightarrow> name_filter \<Rightarrow> view_state option" where
  "refresh_items st items layer_opt include_dq config filter_obj =
     build_items st items layer_opt layer_opt include_dq config filter_obj"

text \<open>\<open>current_influence_changed\<close> (lines 216--230): every row's selection follows
  the paint targets; \<open>first\<close> is cleared after the first row whatever its
  selection, so only a selected first row becomes current.\<close>

fun cic_loop ::
  "view_row list \<Rightarrow> nat option \<Rightarrow> tree_id list \<Rightarrow> bool \<Rightarrow> nat list \<Rightarrow> view_row list \<times> nat option" where
  "cic_loop rows cur targets first [] = (rows, cur)"
| "cic_loop rows cur targets first (k # ks) =
     (let selected = vr_id (rows ! k) \<in> set targets
      in cic_loop (rows[k := (rows ! k)\<lparr>vr_selected := selected\<rparr>])
           (if selected \<and> first then Some k else cur) targets False ks)"

definition current_influence_changed :: "view_state \<Rightarrow> layer option \<Rightarrow> view_state" where
  "current_influence_changed st layer_opt =
     (case layer_opt of
        None \<Rightarrow> st
      | Some l \<Rightarrow>
          (case cic_loop (view_rows st) (view_current st) (paint_targets l) True (map snd (tree_items st)) of
             (rows, cur) \<Rightarrow> st\<lparr>view_rows := rows, view_current := cur\<rparr>))"

text \<open>\<open>current_layer_changed\<close> (lines 207--214): without a layer the list is rebuilt
  empty; otherwise it is refreshed and the selection is set from the paint targets.\<close>

definition current_layer_changed ::
  "view_state \<Rightarrow> influence_info list \<Rightarrow> layer option \<Rightarrow> bool \<Rightarrow> ui_config \<Rightarrow> name_filter \<Rightarrow> view_state option" where
  "current_layer_changed st items layer_opt include_dq config filter_obj =
     (case layer_opt of
        None \<Rightarrow> build_items st [] None None include_dq config filter_obj
      | Some l \<Rightarrow> map_option (\<lambda>st'. current_influence_changed st' (Some l))
                   (refresh_items st items (Some l) include_dq config filter_obj))"

text \<open>\<open>sync_paint_targets_to_selection\<close> (lines 246--260): \<open>selected\<close> lists the
  rows of \<open>view.selectedItems()\<close> in the order Qt returns them. The id of a selected
  current row moves to the front; the new targets are stored in the session's layer.\<close>

definition sync_paint_targets_to_selection ::
  "view_state \<Rightarrow> nat list \<Rightarrow> layer option \<Rightarrow> view_error + layer option" where
  "sync_paint_targets_to_selection st selected layer_opt =
     (let selected_ids = map (\<lambda>k. vr_id (view_rows st ! k)) selected;
          ids = (case view_current st of
                   None \<Rightarrow> Inr selected_ids
                 | Some c \<Rightarrow>
                     (if vr_selected (view_rows st ! c)
                      then (case py_remove (vr_id (view_rows st ! c)) selected_ids of
                              None \<Rightarrow> Inl ValueError
                            | Some rest \<Rightarrow> Inr (vr_id (view_rows st ! c) # rest))
                      else Inr selected_ids))
      in case ids of
           Inl e \<Rightarrow> Inl e
         | Inr new_ids \<Rightarrow> Inr (map_option (\<lambda>l. l\<lparr>paint_targets := new_ids\<rparr>) layer_opt))"

text \<open>\<open>current_item_changed\<close> (lines 232--244): its three early returns, then the
  sync.\<close>

definition current_item_changed ::
  "bool \<Rightarrow> bool \<Rightarrow> view_state \<Rightarrow> nat list \<Rightarrow> layer option \<Rightarrow> view_error + layer option" where
  "current_item_changed has_current has_skin_cluster st selected layer_opt =
     (if \<not> has_current \<or> \<not> has_skin_cluster \<or> layer_opt = None then Inr layer_opt
      else sync_paint_targets_to_selection st selected layer_opt)"


subsection \<open>Lemmas\<close>

lemma map_fst_filter_zip:
  "length xs = length ys \<Longrightarrow> map fst (filter (\<lambda>p. P (fst p)) (zip xs ys)) = filter P xs"
  by (induction xs ys rule: list_induct2) auto

lemma influence_row_fields [simp]:
  "item_id (influence_row u lk iu) = InflId (logicalIndex (fst iu))"
  "display_name (influence_row u lk iu) = snd iu"
  "row_icon (influence_row u lk iu) = get_icon (logicalIndex (fst iu) \<in> u) (infl_path (fst iu) \<noteq> None)"
  by (simp_all add: influence_row_def Let_def)

lemma wanted_tree_items_Finished:
  assumes "wanted_tree_items (Some l) config g dq f items = Finished rows"
  obtains names where "unique_names (map path_name (shown_items l config g items)) = Some names"
    and "rows = header_rows g dq @ map (influence_row (set (or_empty (used_influences l))) (set (or_empty (locked_influences l))))
           (filter (\<lambda>iu. is_match f (path_name (fst iu)))
              (if influences_sort config = InfluencesSortDescending
               then sort_key snd (zip (shown_items l config g items) names)
               else zip (shown_items l config g items) names))"
  using assms by (auto simp: wanted_tree_items_def Let_def split: option.splits)

lemma wanted_tree_items_Stalls:
  "unique_names (map path_name (shown_items l config g items)) = None \<Longrightarrow>
   wanted_tree_items (Some l) config g dq f items = Stalls (header_rows g dq)"
  by (simp add: wanted_tree_items_def Let_def)

lemma wanted_tree_items_rows_mset:
  assumes "wanted_tree_items (Some l) config g dq f items = Finished rows"
  shows "\<exists>rest. rows = header_rows g dq @ rest \<and>
           mset (map item_id rest) =
           mset (map (\<lambda>i. InflId (logicalIndex i)) (filter (\<lambda>i. is_match f (path_name i)) (shown_items l config g items)))"
proof -
  let ?xs = "shown_items l config g items"
  let ?U = "set (or_empty (used_influences l))" and ?L = "set (or_empty (locked_influences l))"
  let ?P = "\<lambda>iu. is_match f (path_name (fst iu))" and ?id = "\<lambda>i. InflId (logicalIndex i)"
  obtain names where un: "unique_names (map path_name ?xs) = Some names"
    and rows: "rows = header_rows g dq @ map (influence_row ?U ?L)
           (filter ?P (if influences_sort config = InfluencesSortDescending
               then sort_key snd (zip ?xs names) else zip ?xs names))"
    using assms by (rule wanted_tree_items_Finished)
  define X where "X = filter ?P (if influences_sort config = InfluencesSortDescending
               then sort_key snd (zip ?xs names) else zip ?xs names)"
  have len: "length ?xs = length names" using unique_names_length [OF un] by simp
  have "mset X = mset (filter ?P (zip ?xs names))"
    unfolding X_def by (simp add: mset_filter)
  then have "mset (map fst X) = mset (filter (\<lambda>i. is_match f (path_name i)) ?xs)"
    using map_fst_filter_zip [OF len, of "\<lambda>i. is_match f (path_name i)"] by (metis mset_map)
  then have m: "mset (map ?id (map fst X)) = mset (map ?id (filter (\<lambda>i. is_match f (path_name i)) ?xs))"
    by (metis mset_map)
  have ids: "map item_id (map (influence_row ?U ?L) X) = map ?id (map fst X)" by simp
  have "rows = header_rows g dq @ map (influence_row ?U ?L) X
        \<and> mset (map item_id (map (influence_row ?U ?L) X)) = mset (map ?id (filter (\<lambda>i. is_match f (path_name i)) ?xs))"
    using rows m unfolding X_def [symmetric] ids by simp
  then show ?thesis by blast
qed

text \<open>C22. The view's contract for one layer: when the generator finishes, its rows are the
  header rows followed by one row for each shown influence whose path passes the name
  filter, and no other (equal as multisets of ids, since the sort option may reorder them).\<close>
theorem wanted_tree_items_shown:
  assumes "wanted_tree_items (Some l) config g dq f items = Finished rows"
  shows "\<exists>rest. rows = header_rows g dq @ rest \<and>
           mset (map item_id rest) =
           mset (map (\<lambda>i. InflId (logicalIndex i)) (filter (\<lambda>i. is_match f (path_name i)) (shown_items l config g items)))"
  using assms by (rule wanted_tree_items_rows_mset)

text \<open>C23. With the sort option on, the influence rows come in ascending order of their unique
  names (\<open>sorted(items, key=lambda i: i.unique_name)\<close>; the option is called
  \<open>InfluencesSortDescending\<close>, the order is ascending).\<close>
theorem wanted_tree_items_sorted:
  assumes "wanted_tree_items (Some l) config g dq f items = Finished rows"
    and "influences_sort config = InfluencesSortDescending"
  shows "sorted (map display_name (drop (length (header_rows g dq)) rows))"
proof -
  obtain names where
    rows: "rows = header_rows g dq @ map (influence_row (set (or_empty (used_influences l))) (set (or_empty (locked_influences l))))
           (filter (\<lambda>iu. is_match f (path_name (fst iu)))
              (if influences_sort config = InfluencesSortDescending
               then sort_key snd (zip (shown_items l config g items) names)
               else zip (shown_items l config g items) names))"
    using assms(1) by (rule wanted_tree_items_Finished)
  have "sorted (map snd (sort_key snd (zip (shown_items l config g items) names)))"
    by (rule sorted_sort_key)
  then have "sorted (map snd (filter (\<lambda>iu. is_match f (path_name (fst iu))) (sort_key snd (zip (shown_items l config g items) names))))"
    by (simp add: sorted_filter)
  then show ?thesis using rows assms(2) by (simp add: comp_def)
qed

text \<open>C24. When two of the shown influences have the same path name, \<open>build_items\<close> never
  returns: the generator has yielded the header rows and the call of \<open>unique_names\<close>
  does not end.\<close>
theorem build_items_stalls_on_duplicate_paths:
  assumes "\<not> distinct (map path_name (shown_items l config (num_children l \<noteq> 0) items))"
  shows "build_items st items (Some l) sl dq config f = None"
  using wanted_tree_items_Stalls [OF unique_names_not_distinct [OF assms]]
  by (simp add: build_items_def)

lemma get_icon_used: "get_icon True j \<in> {IconJoint, IconTransform}"
  by (simp add: get_icon_def)

lemma shown_items_used:
  "influences_show_used_influences_only config \<Longrightarrow> i \<in> set (shown_items l config g items) \<Longrightarrow>
   logicalIndex i \<in> set (or_empty (used_influences l))"
  by (auto simp: shown_items_def Let_def split: if_splits)

text \<open>C25. With "show used influences only" on, every influence row carries a used icon
  (joint or transform, never the disabled ones).\<close>
theorem wanted_tree_items_used_only:
  assumes "influences_show_used_influences_only config"
    and "wanted_tree_items (Some l) config g dq f items = Finished rows"
    and "r \<in> set (drop (length (header_rows g dq)) rows)"
  shows "row_icon r \<in> {IconJoint, IconTransform}"
proof -
  obtain names where un: "unique_names (map path_name (shown_items l config g items)) = Some names" and
    rows: "rows = header_rows g dq @ map (influence_row (set (or_empty (used_influences l))) (set (or_empty (locked_influences l))))
           (filter (\<lambda>iu. is_match f (path_name (fst iu)))
              (if influences_sort config = InfluencesSortDescending
               then sort_key snd (zip (shown_items l config g items) names)
               else zip (shown_items l config g items) names))"
    using assms(2) by (rule wanted_tree_items_Finished)
  from assms(3) rows obtain iu where iu: "iu \<in> set (zip (shown_items l config g items) names)"
    and r: "r = influence_row (set (or_empty (used_influences l))) (set (or_empty (locked_influences l))) iu"
    by (auto split: if_splits)
  have "fst iu \<in> set (shown_items l config g items)" using iu by (rule set_zip_leftD [where x = "fst iu" and y = "snd iu", simplified])
  then have "logicalIndex (fst iu) \<in> set (or_empty (used_influences l))"
    using assms(1) by (rule shown_items_used [rotated])
  then show ?thesis using r get_icon_used by simp
qed

lemma lock_targets_mem [simp]: "x \<in> set (lock_targets x l)"
  by (simp add: lock_targets_def)

lemma lock_targets_subset: "set (lock_targets x l) \<subseteq> insert x (set (paint_targets l))"
  by (auto simp: lock_targets_def)

lemma lock_unlock_handler_Some:
  "locked_influences l = Some xs \<Longrightarrow>
   lock_unlock_handler lock x l =
     Inr (l\<lparr>locked_influences := Some (if lock then xs @ lock_targets x l
            else filter (\<lambda>i. i \<notin> set (lock_targets x l)) xs)\<rparr>, True)"
  by (simp add: lock_unlock_handler_def add_or_remove_def Let_def)

text \<open>C26. Locking a row and then unlocking it from the layer that results gives back the
  original layer, when none of the locked targets were locked before; the row is locked
  in between.\<close>
theorem lock_then_unlock_roundtrip:
  assumes "locked_influences l = Some xs" "x \<notin> set xs" "set (paint_targets l) \<inter> set xs = {}"
  shows "\<exists>l'. lock_unlock_handler True x l = Inr (l', True) \<and> x \<in> set (or_empty (locked_influences l'))
             \<and> lock_unlock_handler False x l' = Inr (l, True)"
proof -
  define l' where "l' = l\<lparr>locked_influences := Some (xs @ lock_targets x l)\<rparr>"
  have lock: "lock_unlock_handler True x l = Inr (l', True)"
    unfolding l'_def by (simp add: lock_unlock_handler_Some [OF assms(1)])
  have "set (lock_targets x l) \<inter> set xs = {}"
    using lock_targets_subset [of x l] assms(2,3) by blast
  then have "filter (\<lambda>i. i \<notin> set (lock_targets x l)) (xs @ lock_targets x l) = xs"
    by (auto simp: filter_id_conv)
  moreover have "l\<lparr>locked_influences := Some xs\<rparr> = l" using assms(1) by simp
  moreover have "lock_targets x l' = lock_targets x l" by (simp add: l'_def lock_targets_def)
  ultimately have "lock_unlock_handler False x l' = Inr (l, True)"
    by (simp add: lock_unlock_handler_Some l'_def)
  moreover have "x \<in> set (or_empty (locked_influences l'))"
    by (simp add: l'_def or_empty_def)
  ultimately show ?thesis using lock by blast
qed

text \<open>C27. A lock button locks the row's influence and an unlock button unlocks it; the paint
  targets are unchanged, as is the lock state of every influence that is neither the row
  nor a paint target; the handler reports the change.\<close>
lemma lock_targets_other:
  "i \<notin> set (paint_targets l) \<Longrightarrow> i \<noteq> x \<Longrightarrow> i \<notin> set (lock_targets x l)"
  by (simp add: lock_targets_def)

theorem lock_unlock_handler_effect:
  assumes "locked_influences l = Some xs"
  shows "\<exists>l'. lock_unlock_handler lock x l = Inr (l', True) \<and> paint_targets l' = paint_targets l
             \<and> (x \<in> set (or_empty (locked_influences l')) \<longleftrightarrow> lock)
             \<and> (\<forall>i. i \<notin> set (paint_targets l) \<and> i \<noteq> x \<longrightarrow>
                    (i \<in> set (or_empty (locked_influences l')) \<longleftrightarrow> i \<in> set xs))"
proof -
  define ys where "ys = (if lock then xs @ lock_targets x l else filter (\<lambda>i. i \<notin> set (lock_targets x l)) xs)"
  have h: "lock_unlock_handler lock x l = Inr (l\<lparr>locked_influences := Some ys\<rparr>, True)"
    unfolding ys_def by (rule lock_unlock_handler_Some [OF assms])
  have x: "x \<in> set ys \<longleftrightarrow> lock" unfolding ys_def by simp
  have o: "\<forall>i. i \<notin> set (paint_targets l) \<and> i \<noteq> x \<longrightarrow> (i \<in> set ys \<longleftrightarrow> i \<in> set xs)"
  proof (intro allI impI)
    fix i assume "i \<notin> set (paint_targets l) \<and> i \<noteq> x"
    then have "i \<notin> set (lock_targets x l)" using lock_targets_other by blast
    then show "i \<in> set ys \<longleftrightarrow> i \<in> set xs" unfolding ys_def by simp
  qed
  show ?thesis using h x o by (simp add: or_empty_def)
qed

text \<open>C28. A lock button fails with \<open>TypeError\<close> exactly when the layer's
  \<open>locked_influences\<close> is \<open>None\<close> (\<open>list(None)\<close> in
  \<open>add_or_remove\<close>), which \<open>wanted_tree_items\<close> instead reads as empty.\<close>
theorem lock_unlock_handler_error:
  "lock_unlock_handler lock x l = Inl TypeError \<longleftrightarrow> locked_influences l = None"
  by (cases "locked_influences l") (simp_all add: lock_unlock_handler_def add_or_remove_def Let_def)

text \<open>C29. Triggering either check-mark action, or setting "show used influences only" from
  anywhere, keeps both check marks in step with the options.\<close>
theorem actions_stay_synced:
  assumes "actions_synced s"
  shows "actions_synced (trigger_used_action s) \<and> actions_synced (trigger_sort_action s)
         \<and> actions_synced (set_show_used v s)"
  using assms
  by (auto simp: actions_synced_def trigger_used_action_def trigger_sort_action_def set_show_used_def
      set_sort_def on_show_used_changed_def on_sort_changed_def update_used_def update_sorted_def Let_def
      split: sort_mode.splits)

text \<open>C30. Setting the sort option from anywhere but its action leaves the sort check mark
  stale: its \<open>update\<close> is registered on the signal of the other option (line 53).\<close>
theorem set_sort_leaves_action_stale:
  assumes "actions_synced s" "v \<noteq> influences_sort (fst s)"
  shows "\<not> actions_synced (set_sort v s)"
  using assms
  by (cases v; cases "influences_sort (fst s)")
     (simp_all add: actions_synced_def set_sort_def on_sort_changed_def Let_def)

lemma fill_rows_rows:
  "k \<le> length (view_rows st) \<Longrightarrow>
   view_rows (fill_rows st sel cur k rs) = take k (view_rows st) @ map (mk_view_row sel) rs"
proof (induction rs arbitrary: st k)
  case Nil
  then show ?case by simp
next
  case (Cons r rs)
  let ?rows = "if k < length (view_rows st) then (view_rows st)[k := mk_view_row sel r]
               else view_rows st @ [mk_view_row sel r]"
  have len: "Suc k \<le> length ?rows" using Cons.prems by auto
  have tk: "take (Suc k) ?rows = take k (view_rows st) @ [mk_view_row sel r]"
    using Cons.prems by (auto simp: take_Suc_conv_app_nth)
  define st' where "st' = st\<lparr>view_rows := ?rows, tree_items := py_dict_set (tree_items st) (item_id r) k,
           view_current := (if Some (item_id r) = cur then Some k else view_current st)\<rparr>"
  have "fill_rows st sel cur k (r # rs) = fill_rows st' sel cur (Suc k) rs" by (simp add: st'_def)
  moreover have "view_rows st' = ?rows" by (simp add: st'_def)
  ultimately show ?case using Cons.IH [where st = st' and k = "Suc k"] len tk by simp
qed

lemma fill_rows_no_current:
  "cur \<notin> Some ` set (map item_id rs) \<Longrightarrow>
   view_current (fill_rows st sel cur k rs) =
     (case view_current st of None \<Rightarrow> None | Some c \<Rightarrow> if c < k + length rs then Some c else None)"
proof (induction rs arbitrary: st k)
  case Nil
  then show ?case by (simp split: option.splits)
next
  case (Cons r rs)
  then show ?case by (auto split: option.splits)
qed

lemma fill_rows_current:
  assumes "t \<in> set (map item_id rs)"
  shows "\<exists>j. view_current (fill_rows st sel (Some t) k rs) = Some j \<and> k \<le> j \<and> j < k + length rs
             \<and> item_id (rs ! (j - k)) = t"
  using assms
proof (induction rs arbitrary: st k)
  case Nil
  then show ?case by simp
next
  case (Cons r rs)
  show ?case
  proof (cases "t \<in> set (map item_id rs)")
    case True
    then show ?thesis using Cons.IH [OF True] by fastforce
  next
    case False
    then have "Some t \<notin> Some ` set (map item_id rs)" by auto
    moreover have "item_id r = t" using Cons.prems False by simp
    ultimately show ?thesis by (simp add: fill_rows_no_current)
  qed
qed

lemma fill_rows_tree_items:
  assumes "k \<le> length (view_rows st)"
    and "\<forall>(i, j) \<in> set (tree_items st). j < k \<and> vr_id (view_rows st ! j) = i"
  shows "\<forall>(i, j) \<in> set (tree_items (fill_rows st sel cur k rs)).
           j < k + length rs \<and> vr_id (view_rows (fill_rows st sel cur k rs) ! j) = i"
  using assms
proof (induction rs arbitrary: st k)
  case Nil
  then show ?case by auto
next
  case (Cons r rs)
  let ?rows = "if k < length (view_rows st) then (view_rows st)[k := mk_view_row sel r]
               else view_rows st @ [mk_view_row sel r]"
  define st' where "st' = st\<lparr>view_rows := ?rows, tree_items := py_dict_set (tree_items st) (item_id r) k,
           view_current := (if Some (item_id r) = cur then Some k else view_current st)\<rparr>"
  have step: "fill_rows st sel cur k (r # rs) = fill_rows st' sel cur (Suc k) rs" by (simp add: st'_def)
  have len: "Suc k \<le> length (view_rows st')" using Cons.prems(1) by (auto simp: st'_def)
  have old: "\<And>j. j < k \<Longrightarrow> view_rows st' ! j = view_rows st ! j"
    using Cons.prems(1) by (auto simp: st'_def nth_append)
  have new: "view_rows st' ! k = mk_view_row sel r"
    using Cons.prems(1) by (auto simp: st'_def nth_append)
  have "\<forall>(i, j) \<in> set (tree_items st'). j < Suc k \<and> vr_id (view_rows st' ! j) = i"
  proof (intro ballI, clarify)
    fix i j assume "(i, j) \<in> set (tree_items st')"
    then have "(i = item_id r \<and> j = k) \<or> (i \<noteq> item_id r \<and> (i, j) \<in> set (tree_items st))"
      by (simp add: st'_def py_dict_set_mem)
    then show "j < Suc k \<and> vr_id (view_rows st' ! j) = i"
    proof
      assume "i = item_id r \<and> j = k" then show ?thesis using new by (simp add: mk_view_row_def)
    next
      assume "i \<noteq> item_id r \<and> (i, j) \<in> set (tree_items st)"
      then have "j < k" "vr_id (view_rows st ! j) = i" using Cons.prems(2) by auto
      then show ?thesis using old by simp
    qed
  qed
  then show ?case using Cons.IH [where st = st' and k = "Suc k", OF len] step by simp
qed

lemma map_vr_id_update_selected [simp]:
  "map vr_id (rows[k := (rows ! k)\<lparr>vr_selected := b\<rparr>]) = map vr_id rows"
  by (cases "k < length rows") (auto simp: list_eq_iff_nth_eq nth_list_update list_update_beyond)

lemma cic_loop_ids: "map vr_id (fst (cic_loop rows cur ts first ks)) = map vr_id rows"
  by (induction rows cur ts first ks rule: cic_loop.induct) (simp_all add: Let_def)

lemma cic_loop_untouched:
  "k \<notin> set ks \<Longrightarrow> fst (cic_loop rows cur ts first ks) ! k = rows ! k"
  by (induction rows cur ts first ks rule: cic_loop.induct) (simp_all add: Let_def)

lemma cic_loop_selected:
  "k \<in> set ks \<Longrightarrow> k < length rows \<Longrightarrow>
   vr_selected (fst (cic_loop rows cur ts first ks) ! k) = (vr_id (rows ! k) \<in> set ts)"
proof (induction rows cur ts first ks rule: cic_loop.induct)
  case (1 rows cur ts first)
  then show ?case by simp
next
  case (2 rows cur ts first k' ks)
  let ?rows = "rows[k' := (rows ! k')\<lparr>vr_selected := vr_id (rows ! k') \<in> set ts\<rparr>]"
  have ids: "map vr_id ?rows = map vr_id rows" by simp
  show ?case
  proof (cases "k \<in> set ks")
    case True
    have "vr_id (?rows ! k) = vr_id (rows ! k)" using ids "2.prems"(2) by (metis length_map nth_map)
    then show ?thesis using "2.IH" [OF refl True] "2.prems"(2) by (simp add: Let_def)
  next
    case False
    then have "k = k'" using "2.prems"(1) by simp
    then show ?thesis using cic_loop_untouched [OF False] "2.prems"(2) by (simp add: Let_def)
  qed
qed

lemma cic_loop_not_first: "snd (cic_loop rows cur ts False ks) = cur"
  by (induction ks arbitrary: rows) (simp_all add: Let_def)

lemma cic_loop_first:
  "snd (cic_loop rows cur ts True (k # ks)) = (if vr_id (rows ! k) \<in> set ts then Some k else cur)"
  by (simp add: Let_def cic_loop_not_first)

lemma build_items_Some:
  assumes "build_items st items lo sl dq config f = Some st'"
  obtains rows where
    "wanted_tree_items lo config (case lo of None \<Rightarrow> False | Some l \<Rightarrow> num_children l \<noteq> 0) dq f items = Finished rows"
    "st' = fill_rows (st\<lparr>tree_items := []\<rparr>) (case sl of None \<Rightarrow> [] | Some l \<Rightarrow> paint_targets l)
             (case (case sl of None \<Rightarrow> [] | Some l \<Rightarrow> paint_targets l) of [] \<Rightarrow> None | x # _ \<Rightarrow> Some x) 0 rows"
  using assms by (auto simp: build_items_def Let_def split: gen_result.splits)

text \<open>C31. A \<open>build_items\<close> call that returns shows exactly the rows the generator
  yields, in order, each selected when it is a paint target of the session's layer, and
  \<open>tree_items\<close> maps each id to a row with that id.\<close>
theorem build_items_rows:
  assumes "build_items st items lo sl dq config f = Some st'"
  shows "\<exists>rows. wanted_tree_items lo config (case lo of None \<Rightarrow> False | Some l \<Rightarrow> num_children l \<noteq> 0) dq f items = Finished rows
           \<and> view_rows st' = map (mk_view_row (case sl of None \<Rightarrow> [] | Some l \<Rightarrow> paint_targets l)) rows
           \<and> (\<forall>(i, j) \<in> set (tree_items st'). j < length (view_rows st') \<and> vr_id (view_rows st' ! j) = i)"
proof -
  let ?sel = "case sl of None \<Rightarrow> [] | Some l \<Rightarrow> paint_targets l"
  let ?cur = "case ?sel of [] \<Rightarrow> None | x # _ \<Rightarrow> Some x"
  obtain rows where w: "wanted_tree_items lo config (case lo of None \<Rightarrow> False | Some l \<Rightarrow> num_children l \<noteq> 0) dq f items = Finished rows"
    and st': "st' = fill_rows (st\<lparr>tree_items := []\<rparr>) ?sel ?cur 0 rows"
    using assms by (rule build_items_Some)
  have r: "view_rows st' = map (mk_view_row ?sel) rows"
    unfolding st' by (simp add: fill_rows_rows)
  have "\<forall>(i, j) \<in> set (tree_items st'). j < 0 + length rows \<and> vr_id (view_rows st' ! j) = i"
    unfolding st' by (rule fill_rows_tree_items) simp_all
  then show ?thesis using w r by auto
qed

lemma vr_id_mk_view_row [simp]: "vr_id (mk_view_row sel r) = item_id r"
  and vr_selected_mk_view_row [simp]: "vr_selected (mk_view_row sel r) = (item_id r \<in> set sel)"
  by (simp_all add: mk_view_row_def)

text \<open>C32. After \<open>build_items\<close>, the first paint target's row, when shown, is the
  current row and is selected.\<close>
theorem build_items_current:
  assumes "build_items st items lo (Some sl) dq config f = Some st'"
    and "paint_targets sl = t # ts" and "t \<in> set (map vr_id (view_rows st'))"
  shows "\<exists>k < length (view_rows st'). view_current st' = Some k \<and> vr_id (view_rows st' ! k) = t
           \<and> vr_selected (view_rows st' ! k)"
proof -
  obtain rows where
    st': "st' = fill_rows (st\<lparr>tree_items := []\<rparr>) (t # ts) (Some t) 0 rows"
    using assms(1) by (rule build_items_Some) (simp add: assms(2))
  have r: "view_rows st' = map (mk_view_row (t # ts)) rows"
    unfolding st' by (simp add: fill_rows_rows)
  then have "t \<in> set (map item_id rows)" using assms(3) by (simp add: comp_def)
  then obtain j where "view_current st' = Some j" "j < length rows" "item_id (rows ! j) = t"
    using fill_rows_current [where st = "st\<lparr>tree_items := []\<rparr>" and sel = "t # ts" and k = 0] st' by auto
  then show ?thesis using r by auto
qed

text \<open>C33. \<open>current_influence_changed\<close> sets every listed row's selection from the paint
  targets, but it makes a row current only when the first row of \<open>tree_items\<close> is a
  target: \<open>first = False\<close> is outside the \<open>if\<close> (lines 227--229).\<close>
theorem current_influence_changed_first_only:
  assumes "map snd (tree_items st) = k0 # ks"
  shows "view_current (current_influence_changed st (Some l)) =
           (if vr_id (view_rows st ! k0) \<in> set (paint_targets l) then Some k0 else view_current st)
         \<and> map vr_id (view_rows (current_influence_changed st (Some l))) = map vr_id (view_rows st)
         \<and> (\<forall>k \<in> set (k0 # ks). k < length (view_rows st) \<longrightarrow>
              vr_selected (view_rows (current_influence_changed st (Some l)) ! k) =
              (vr_id (view_rows st ! k) \<in> set (paint_targets l)))"
proof -
  define R where "R = cic_loop (view_rows st) (view_current st) (paint_targets l) True (k0 # ks)"
  have eq: "current_influence_changed st (Some l) = st\<lparr>view_rows := fst R, view_current := snd R\<rparr>"
    using assms by (simp add: current_influence_changed_def R_def split: prod.split)
  have c: "snd R = (if vr_id (view_rows st ! k0) \<in> set (paint_targets l) then Some k0 else view_current st)"
    unfolding R_def by (rule cic_loop_first)
  have i: "map vr_id (fst R) = map vr_id (view_rows st)"
    unfolding R_def by (rule cic_loop_ids)
  have s: "\<forall>k \<in> set (k0 # ks). k < length (view_rows st) \<longrightarrow>
             vr_selected (fst R ! k) = (vr_id (view_rows st ! k) \<in> set (paint_targets l))"
    unfolding R_def using cic_loop_selected by blast
  show ?thesis unfolding eq using c i s by simp
qed

lemma sync_current_selected:
  assumes "view_current st = Some c" "vr_selected (view_rows st ! c)" "c \<in> set selected"
  shows "\<exists>ids. sync_paint_targets_to_selection st selected (Some l) = Inr (Some (l\<lparr>paint_targets := ids\<rparr>))
           \<and> hd ids = vr_id (view_rows st ! c)
           \<and> mset ids = mset (map (\<lambda>k. vr_id (view_rows st ! k)) selected)"
proof -
  let ?sel = "map (\<lambda>k. vr_id (view_rows st ! k)) selected"
  have "vr_id (view_rows st ! c) \<in> set ?sel" using assms(3) by simp
  then obtain rest where rest: "py_remove (vr_id (view_rows st ! c)) ?sel = Some rest"
    using py_remove_Some_iff by fastforce
  have "mset (vr_id (view_rows st ! c) # rest) = mset ?sel" using py_remove_mset [OF rest] by simp
  then show ?thesis using assms(1,2) rest
    by (intro exI [where x = "vr_id (view_rows st ! c) # rest"])
       (simp add: sync_paint_targets_to_selection_def Let_def)
qed

text \<open>C34. When the current row is selected, the sync handler stores the selected rows' ids as
  the paint targets with the current row's id moved to the front (the same ids, as a
  multiset).\<close>
theorem current_item_changed_current_first:
  assumes "view_current st = Some c" "vr_selected (view_rows st ! c)" "c \<in> set selected"
  shows "\<exists>ids. current_item_changed True True st selected (Some l) = Inr (Some (l\<lparr>paint_targets := ids\<rparr>))
           \<and> hd ids = vr_id (view_rows st ! c)
           \<and> mset ids = mset (map (\<lambda>k. vr_id (view_rows st ! k)) selected)"
  using sync_current_selected [OF assms, of l] by (simp add: current_item_changed_def)

subsection \<open>Witnesses\<close>

theorem wanted_tree_items_shown_witness:
  "wanted_tree_items (Some \<lparr>num_children = 0, paint_targets = [InflId 1], locked_influences = Some [], used_influences = Some [1]\<rparr>)
     \<lparr>influences_show_used_influences_only = False, influences_sort = InfluencesSortDescending\<rparr> False False InfluenceNameFilter
     [\<lparr>logicalIndex = 0, infl_path = Some ''|a|c'', path_name = ''|a|c''\<rparr>, \<lparr>logicalIndex = 1, infl_path = Some ''|a|b'', path_name = ''|a|b''\<rparr>]
   = Finished [mask_row,
       \<lparr>item_id = InflId 1, display_name = ''b'', row_icon = IconJoint, row_buttons = [UnlockedButton]\<rparr>,
       \<lparr>item_id = InflId 0, display_name = ''c'', row_icon = IconJointDisabled, row_buttons = [UnlockedButton]\<rparr>]
   \<and> mset (map item_id (drop 1 [mask_row,
       \<lparr>item_id = InflId 1, display_name = ''b'', row_icon = IconJoint, row_buttons = [UnlockedButton]\<rparr>,
       \<lparr>item_id = InflId 0, display_name = ''c'', row_icon = IconJointDisabled, row_buttons = [UnlockedButton]\<rparr>]))
     = mset [InflId 0, InflId 1]"
proof -
  have h: "wanted_tree_items (Some \<lparr>num_children = 0, paint_targets = [InflId 1], locked_influences = Some [], used_influences = Some [1]\<rparr>)
     \<lparr>influences_show_used_influences_only = False, influences_sort = InfluencesSortDescending\<rparr> False False InfluenceNameFilter
     [\<lparr>logicalIndex = 0, infl_path = Some ''|a|c'', path_name = ''|a|c''\<rparr>, \<lparr>logicalIndex = 1, infl_path = Some ''|a|b'', path_name = ''|a|b''\<rparr>]
   = Finished [mask_row,
       \<lparr>item_id = InflId 1, display_name = ''b'', row_icon = IconJoint, row_buttons = [UnlockedButton]\<rparr>,
       \<lparr>item_id = InflId 0, display_name = ''c'', row_icon = IconJointDisabled, row_buttons = [UnlockedButton]\<rparr>]"
    by code_simp
  have m: "is_match InfluenceNameFilter s" for s by code_simp
  show ?thesis using wanted_tree_items_shown [OF h] h m
    by (simp add: header_rows_def shown_items_def)
qed

theorem wanted_tree_items_sorted_witness:
  "wanted_tree_items (Some \<lparr>num_children = 0, paint_targets = [InflId 1], locked_influences = Some [], used_influences = Some [1]\<rparr>) \<lparr>influences_show_used_influences_only = False, influences_sort = InfluencesSortDescending\<rparr> False False InfluenceNameFilter [\<lparr>logicalIndex = 0, infl_path = Some ''|a|c'', path_name = ''|a|c''\<rparr>, \<lparr>logicalIndex = 1, infl_path = Some ''|a|b'', path_name = ''|a|b''\<rparr>] = Finished [mask_row, \<lparr>item_id = InflId 1, display_name = ''b'', row_icon = IconJoint, row_buttons = [UnlockedButton]\<rparr>, \<lparr>item_id = InflId 0, display_name = ''c'', row_icon = IconJointDisabled, row_buttons = [UnlockedButton]\<rparr>]
   \<and> sorted (map display_name (drop (length (header_rows False False)) [mask_row, \<lparr>item_id = InflId 1, display_name = ''b'', row_icon = IconJoint, row_buttons = [UnlockedButton]\<rparr>, \<lparr>item_id = InflId 0, display_name = ''c'', row_icon = IconJointDisabled, row_buttons = [UnlockedButton]\<rparr>]))"
proof -
  have h: "wanted_tree_items (Some \<lparr>num_children = 0, paint_targets = [InflId 1], locked_influences = Some [], used_influences = Some [1]\<rparr>) \<lparr>influences_show_used_influences_only = False, influences_sort = InfluencesSortDescending\<rparr> False False InfluenceNameFilter [\<lparr>logicalIndex = 0, infl_path = Some ''|a|c'', path_name = ''|a|c''\<rparr>, \<lparr>logicalIndex = 1, infl_path = Some ''|a|b'', path_name = ''|a|b''\<rparr>] = Finished [mask_row, \<lparr>item_id = InflId 1, display_name = ''b'', row_icon = IconJoint, row_buttons = [UnlockedButton]\<rparr>, \<lparr>item_id = InflId 0, display_name = ''c'', row_icon = IconJointDisabled, row_buttons = [UnlockedButton]\<rparr>]"
    by code_simp
  show ?thesis using wanted_tree_items_sorted [OF h] h by simp
qed

theorem build_items_stalls_on_duplicate_paths_witness:
  "\<not> distinct (map path_name (shown_items \<lparr>num_children = 0, paint_targets = [InflId 1], locked_influences = Some [], used_influences = Some [1]\<rparr> \<lparr>influences_show_used_influences_only = False, influences_sort = InfluencesSortDescending\<rparr> (num_children \<lparr>num_children = 0, paint_targets = [InflId 1], locked_influences = Some [], used_influences = Some [1]\<rparr> \<noteq> 0) [\<lparr>logicalIndex = 0, infl_path = Some ''|a|b'', path_name = ''|a|b''\<rparr>, \<lparr>logicalIndex = 1, infl_path = Some ''|a|b'', path_name = ''|a|b''\<rparr>]))
   \<and> build_items \<lparr>view_rows = [], view_current = None, tree_items = []\<rparr> [\<lparr>logicalIndex = 0, infl_path = Some ''|a|b'', path_name = ''|a|b''\<rparr>, \<lparr>logicalIndex = 1, infl_path = Some ''|a|b'', path_name = ''|a|b''\<rparr>] (Some \<lparr>num_children = 0, paint_targets = [InflId 1], locked_influences = Some [], used_influences = Some [1]\<rparr>) (Some \<lparr>num_children = 0, paint_targets = [InflId 1], locked_influences = Some [], used_influences = Some [1]\<rparr>) False \<lparr>influences_show_used_influences_only = False, influences_sort = InfluencesSortDescending\<rparr> InfluenceNameFilter = None"
proof -
  have h: "\<not> distinct (map path_name (shown_items \<lparr>num_children = 0, paint_targets = [InflId 1], locked_influences = Some [], used_influences = Some [1]\<rparr> \<lparr>influences_show_used_influences_only = False, influences_sort = InfluencesSortDescending\<rparr> (num_children \<lparr>num_children = 0, paint_targets = [InflId 1], locked_influences = Some [], used_influences = Some [1]\<rparr> \<noteq> 0) [\<lparr>logicalIndex = 0, infl_path = Some ''|a|b'', path_name = ''|a|b''\<rparr>, \<lparr>logicalIndex = 1, infl_path = Some ''|a|b'', path_name = ''|a|b''\<rparr>]))"
    by (simp add: shown_items_def)
  show ?thesis using build_items_stalls_on_duplicate_paths [OF h] h by simp
qed

theorem wanted_tree_items_used_only_witness:
  "influences_show_used_influences_only \<lparr>influences_show_used_influences_only = True, influences_sort = InfluencesSortDescending\<rparr>
   \<and> wanted_tree_items (Some \<lparr>num_children = 0, paint_targets = [InflId 1], locked_influences = Some [], used_influences = Some [1]\<rparr>) \<lparr>influences_show_used_influences_only = True, influences_sort = InfluencesSortDescending\<rparr> False False InfluenceNameFilter [\<lparr>logicalIndex = 0, infl_path = Some ''|a|c'', path_name = ''|a|c''\<rparr>, \<lparr>logicalIndex = 1, infl_path = Some ''|a|b'', path_name = ''|a|b''\<rparr>] = Finished [mask_row, \<lparr>item_id = InflId 1, display_name = ''b'', row_icon = IconJoint, row_buttons = [UnlockedButton]\<rparr>]
   \<and> \<lparr>item_id = InflId 1, display_name = ''b'', row_icon = IconJoint, row_buttons = [UnlockedButton]\<rparr> \<in> set (drop (length (header_rows False False)) [mask_row, \<lparr>item_id = InflId 1, display_name = ''b'', row_icon = IconJoint, row_buttons = [UnlockedButton]\<rparr>])
   \<and> row_icon \<lparr>item_id = InflId 1, display_name = ''b'', row_icon = IconJoint, row_buttons = [UnlockedButton]\<rparr> \<in> {IconJoint, IconTransform}"
proof -
  have h: "wanted_tree_items (Some \<lparr>num_children = 0, paint_targets = [InflId 1], locked_influences = Some [], used_influences = Some [1]\<rparr>) \<lparr>influences_show_used_influences_only = True, influences_sort = InfluencesSortDescending\<rparr> False False InfluenceNameFilter [\<lparr>logicalIndex = 0, infl_path = Some ''|a|c'', path_name = ''|a|c''\<rparr>, \<lparr>logicalIndex = 1, infl_path = Some ''|a|b'', path_name = ''|a|b''\<rparr>] = Finished [mask_row, \<lparr>item_id = InflId 1, display_name = ''b'', row_icon = IconJoint, row_buttons = [UnlockedButton]\<rparr>]"
    by code_simp
  have r: "\<lparr>item_id = InflId 1, display_name = ''b'', row_icon = IconJoint, row_buttons = [UnlockedButton]\<rparr> \<in> set (drop (length (header_rows False False)) [mask_row, \<lparr>item_id = InflId 1, display_name = ''b'', row_icon = IconJoint, row_buttons = [UnlockedButton]\<rparr>])"
    by (simp add: header_rows_def)
  show ?thesis using wanted_tree_items_used_only [OF _ h r] h r by simp
qed

theorem lock_then_unlock_roundtrip_witness:
  "\<exists>l'. lock_unlock_handler True (InflId 3) \<lparr>num_children = 0, paint_targets = [], locked_influences = Some [], used_influences = None\<rparr> = Inr (l', True)
        \<and> InflId 3 \<in> set (or_empty (locked_influences l'))
        \<and> lock_unlock_handler False (InflId 3) l' = Inr (\<lparr>num_children = 0, paint_targets = [], locked_influences = Some [], used_influences = None\<rparr>, True)"
  using lock_then_unlock_roundtrip [of "\<lparr>num_children = 0, paint_targets = [], locked_influences = Some [], used_influences = None\<rparr>" "[]" "InflId 3"] by simp

theorem lock_unlock_handler_effect_witness:
  "\<exists>l'. lock_unlock_handler True (InflId 3) \<lparr>num_children = 0, paint_targets = [], locked_influences = Some [], used_influences = None\<rparr> = Inr (l', True) \<and> paint_targets l' = []
        \<and> InflId 3 \<in> set (or_empty (locked_influences l'))"
  using lock_unlock_handler_effect [of "\<lparr>num_children = 0, paint_targets = [], locked_influences = Some [], used_influences = None\<rparr>" "[]" True "InflId 3"] by auto

theorem actions_stay_synced_witness:
  "actions_synced (\<lparr>influences_show_used_influences_only = False, influences_sort = InfluencesSortUnsorted\<rparr>, \<lparr>used_checked = False, sort_checked = False\<rparr>) \<and> actions_synced (trigger_sort_action (\<lparr>influences_show_used_influences_only = False, influences_sort = InfluencesSortUnsorted\<rparr>, \<lparr>used_checked = False, sort_checked = False\<rparr>)) \<and> actions_synced (trigger_used_action (\<lparr>influences_show_used_influences_only = False, influences_sort = InfluencesSortUnsorted\<rparr>, \<lparr>used_checked = False, sort_checked = False\<rparr>))
   \<and> actions_synced (set_show_used True (\<lparr>influences_show_used_influences_only = False, influences_sort = InfluencesSortUnsorted\<rparr>, \<lparr>used_checked = False, sort_checked = False\<rparr>))"
proof -
  have h: "actions_synced (\<lparr>influences_show_used_influences_only = False, influences_sort = InfluencesSortUnsorted\<rparr>, \<lparr>used_checked = False, sort_checked = False\<rparr>)" by (simp add: actions_synced_def)
  show ?thesis using actions_stay_synced [OF h, of True] h by simp
qed

theorem set_sort_leaves_action_stale_witness:
  "actions_synced (\<lparr>influences_show_used_influences_only = False, influences_sort = InfluencesSortUnsorted\<rparr>, \<lparr>used_checked = False, sort_checked = False\<rparr>) \<and> \<not> actions_synced (set_sort InfluencesSortDescending (\<lparr>influences_show_used_influences_only = False, influences_sort = InfluencesSortUnsorted\<rparr>, \<lparr>used_checked = False, sort_checked = False\<rparr>))"
proof -
  have h: "actions_synced (\<lparr>influences_show_used_influences_only = False, influences_sort = InfluencesSortUnsorted\<rparr>, \<lparr>used_checked = False, sort_checked = False\<rparr>)" by (simp add: actions_synced_def)
  show ?thesis using set_sort_leaves_action_stale [OF h, of InfluencesSortDescending] h by simp
qed

theorem build_items_rows_witness:
  "build_items \<lparr>view_rows = [], view_current = None, tree_items = []\<rparr> [\<lparr>logicalIndex = 0, infl_path = Some ''|a|c'', path_name = ''|a|c''\<rparr>, \<lparr>logicalIndex = 1, infl_path = Some ''|a|b'', path_name = ''|a|b''\<rparr>] (Some \<lparr>num_children = 0, paint_targets = [InflId 1], locked_influences = Some [], used_influences = Some [1]\<rparr>) (Some \<lparr>num_children = 0, paint_targets = [InflId 1], locked_influences = Some [], used_influences = Some [1]\<rparr>) False \<lparr>influences_show_used_influences_only = False, influences_sort = InfluencesSortDescending\<rparr> InfluenceNameFilter \<noteq> None
   \<and> (\<exists>rows. wanted_tree_items (Some \<lparr>num_children = 0, paint_targets = [InflId 1], locked_influences = Some [], used_influences = Some [1]\<rparr>) \<lparr>influences_show_used_influences_only = False, influences_sort = InfluencesSortDescending\<rparr> False False InfluenceNameFilter [\<lparr>logicalIndex = 0, infl_path = Some ''|a|c'', path_name = ''|a|c''\<rparr>, \<lparr>logicalIndex = 1, infl_path = Some ''|a|b'', path_name = ''|a|b''\<rparr>] = Finished rows
        \<and> view_rows (the (build_items \<lparr>view_rows = [], view_current = None, tree_items = []\<rparr> [\<lparr>logicalIndex = 0, infl_path = Some ''|a|c'', path_name = ''|a|c''\<rparr>, \<lparr>logicalIndex = 1, infl_path = Some ''|a|b'', path_name = ''|a|b''\<rparr>] (Some \<lparr>num_children = 0, paint_targets = [InflId 1], locked_influences = Some [], used_influences = Some [1]\<rparr>) (Some \<lparr>num_children = 0, paint_targets = [InflId 1], locked_influences = Some [], used_influences = Some [1]\<rparr>) False \<lparr>influences_show_used_influences_only = False, influences_sort = InfluencesSortDescending\<rparr> InfluenceNameFilter)) = map (mk_view_row [InflId 1]) rows)"
proof -
  have h: "build_items \<lparr>view_rows = [], view_current = None, tree_items = []\<rparr> [\<lparr>logicalIndex = 0, infl_path = Some ''|a|c'', path_name = ''|a|c''\<rparr>, \<lparr>logicalIndex = 1, infl_path = Some ''|a|b'', path_name = ''|a|b''\<rparr>] (Some \<lparr>num_children = 0, paint_targets = [InflId 1], locked_influences = Some [], used_influences = Some [1]\<rparr>) (Some \<lparr>num_children = 0, paint_targets = [InflId 1], locked_influences = Some [], used_influences = Some [1]\<rparr>) False \<lparr>influences_show_used_influences_only = False, influences_sort = InfluencesSortDescending\<rparr> InfluenceNameFilter = Some (the (build_items \<lparr>view_rows = [], view_current = None, tree_items = []\<rparr> [\<lparr>logicalIndex = 0, infl_path = Some ''|a|c'', path_name = ''|a|c''\<rparr>, \<lparr>logicalIndex = 1, infl_path = Some ''|a|b'', path_name = ''|a|b''\<rparr>] (Some \<lparr>num_children = 0, paint_targets = [InflId 1], locked_influences = Some [], used_influences = Some [1]\<rparr>) (Some \<lparr>num_children = 0, paint_targets = [InflId 1], locked_influences = Some [], used_influences = Some [1]\<rparr>) False \<lparr>influences_show_used_influences_only = False, influences_sort = InfluencesSortDescending\<rparr> InfluenceNameFilter))" by code_simp
  have n: "build_items \<lparr>view_rows = [], view_current = None, tree_items = []\<rparr> [\<lparr>logicalIndex = 0, infl_path = Some ''|a|c'', path_name = ''|a|c''\<rparr>, \<lparr>logicalIndex = 1, infl_path = Some ''|a|b'', path_name = ''|a|b''\<rparr>] (Some \<lparr>num_children = 0, paint_targets = [InflId 1], locked_influences = Some [], used_influences = Some [1]\<rparr>) (Some \<lparr>num_children = 0, paint_targets = [InflId 1], locked_influences = Some [], used_influences = Some [1]\<rparr>) False \<lparr>influences_show_used_influences_only = False, influences_sort = InfluencesSortDescending\<rparr> InfluenceNameFilter \<noteq> None" by code_simp
  from build_items_rows [OF h] obtain rows where
    "wanted_tree_items (Some \<lparr>num_children = 0, paint_targets = [InflId 1], locked_influences = Some [], used_influences = Some [1]\<rparr>) \<lparr>influences_show_used_influences_only = False, influences_sort = InfluencesSortDescending\<rparr> False False InfluenceNameFilter [\<lparr>logicalIndex = 0, infl_path = Some ''|a|c'', path_name = ''|a|c''\<rparr>, \<lparr>logicalIndex = 1, infl_path = Some ''|a|b'', path_name = ''|a|b''\<rparr>] = Finished rows"
    "view_rows (the (build_items \<lparr>view_rows = [], view_current = None, tree_items = []\<rparr> [\<lparr>logicalIndex = 0, infl_path = Some ''|a|c'', path_name = ''|a|c''\<rparr>, \<lparr>logicalIndex = 1, infl_path = Some ''|a|b'', path_name = ''|a|b''\<rparr>] (Some \<lparr>num_children = 0, paint_targets = [InflId 1], locked_influences = Some [], used_influences = Some [1]\<rparr>) (Some \<lparr>num_children = 0, paint_targets = [InflId 1], locked_influences = Some [], used_influences = Some [1]\<rparr>) False \<lparr>influences_show_used_influences_only = False, influences_sort = InfluencesSortDescending\<rparr> InfluenceNameFilter)) = map (mk_view_row [InflId 1]) rows"
    by auto
  then show ?thesis using n by blast
qed

theorem build_items_current_witness:
  "\<exists>k. view_current (the (build_items \<lparr>view_rows = [], view_current = None, tree_items = []\<rparr> [\<lparr>logicalIndex = 0, infl_path = Some ''|a|c'', path_name = ''|a|c''\<rparr>, \<lparr>logicalIndex = 1, infl_path = Some ''|a|b'', path_name = ''|a|b''\<rparr>] (Some \<lparr>num_children = 0, paint_targets = [InflId 1], locked_influences = Some [], used_influences = Some [1]\<rparr>) (Some \<lparr>num_children = 0, paint_targets = [InflId 1], locked_influences = Some [], used_influences = Some [1]\<rparr>) False \<lparr>influences_show_used_influences_only = False, influences_sort = InfluencesSortDescending\<rparr> InfluenceNameFilter)) = Some k
      \<and> vr_id (view_rows (the (build_items \<lparr>view_rows = [], view_current = None, tree_items = []\<rparr> [\<lparr>logicalIndex = 0, infl_path = Some ''|a|c'', path_name = ''|a|c''\<rparr>, \<lparr>logicalIndex = 1, infl_path = Some ''|a|b'', path_name = ''|a|b''\<rparr>] (Some \<lparr>num_children = 0, paint_targets = [InflId 1], locked_influences = Some [], used_influences = Some [1]\<rparr>) (Some \<lparr>num_children = 0, paint_targets = [InflId 1], locked_influences = Some [], used_influences = Some [1]\<rparr>) False \<lparr>influences_show_used_influences_only = False, influences_sort = InfluencesSortDescending\<rparr> InfluenceNameFilter)) ! k) = InflId 1
      \<and> vr_selected (view_rows (the (build_items \<lparr>view_rows = [], view_current = None, tree_items = []\<rparr> [\<lparr>logicalIndex = 0, infl_path = Some ''|a|c'', path_name = ''|a|c''\<rparr>, \<lparr>logicalIndex = 1, infl_path = Some ''|a|b'', path_name = ''|a|b''\<rparr>] (Some \<lparr>num_children = 0, paint_targets = [InflId 1], locked_influences = Some [], used_influences = Some [1]\<rparr>) (Some \<lparr>num_children = 0, paint_targets = [InflId 1], locked_influences = Some [], used_influences = Some [1]\<rparr>) False \<lparr>influences_show_used_influences_only = False, influences_sort = InfluencesSortDescending\<rparr> InfluenceNameFilter)) ! k)"
proof -
  have h: "build_items \<lparr>view_rows = [], view_current = None, tree_items = []\<rparr> [\<lparr>logicalIndex = 0, infl_path = Some ''|a|c'', path_name = ''|a|c''\<rparr>, \<lparr>logicalIndex = 1, infl_path = Some ''|a|b'', path_name = ''|a|b''\<rparr>] (Some \<lparr>num_children = 0, paint_targets = [InflId 1], locked_influences = Some [], used_influences = Some [1]\<rparr>) (Some \<lparr>num_children = 0, paint_targets = [InflId 1], locked_influences = Some [], used_influences = Some [1]\<rparr>) False \<lparr>influences_show_used_influences_only = False, influences_sort = InfluencesSortDescending\<rparr> InfluenceNameFilter
         = Some (the (build_items \<lparr>view_rows = [], view_current = None, tree_items = []\<rparr> [\<lparr>logicalIndex = 0, infl_path = Some ''|a|c'', path_name = ''|a|c''\<rparr>, \<lparr>logicalIndex = 1, infl_path = Some ''|a|b'', path_name = ''|a|b''\<rparr>] (Some \<lparr>num_children = 0, paint_targets = [InflId 1], locked_influences = Some [], used_influences = Some [1]\<rparr>) (Some \<lparr>num_children = 0, paint_targets = [InflId 1], locked_influences = Some [], used_influences = Some [1]\<rparr>) False \<lparr>influences_show_used_influences_only = False, influences_sort = InfluencesSortDescending\<rparr> InfluenceNameFilter))"
    by code_simp
  have t: "InflId 1 \<in> set (map vr_id (view_rows (the (build_items \<lparr>view_rows = [], view_current = None, tree_items = []\<rparr> [\<lparr>logicalIndex = 0, infl_path = Some ''|a|c'', path_name = ''|a|c''\<rparr>, \<lparr>logicalIndex = 1, infl_path = Some ''|a|b'', path_name = ''|a|b''\<rparr>] (Some \<lparr>num_children = 0, paint_targets = [InflId 1], locked_influences = Some [], used_influences = Some [1]\<rparr>) (Some \<lparr>num_children = 0, paint_targets = [InflId 1], locked_influences = Some [], used_influences = Some [1]\<rparr>) False \<lparr>influences_show_used_influences_only = False, influences_sort = InfluencesSortDescending\<rparr> InfluenceNameFilter))))"
    by code_simp
  show ?thesis using build_items_current [OF h _ t] by auto
qed

theorem current_influence_changed_first_only_witness:
  "view_current (current_influence_changed \<lparr>view_rows = [\<lparr>vr_id = MaskId, vr_text = ''[Mask]'', vr_icon = IconMask, vr_buttons = [], vr_selected = False\<rparr>, \<lparr>vr_id = InflId 3, vr_text = ''a'', vr_icon = IconJoint, vr_buttons = [], vr_selected = False\<rparr>], view_current = None, tree_items = [(MaskId, 0), (InflId 3, 1)]\<rparr> (Some \<lparr>num_children = 0, paint_targets = [InflId 3], locked_influences = None, used_influences = None\<rparr>)) = None
   \<and> vr_selected (view_rows (current_influence_changed \<lparr>view_rows = [\<lparr>vr_id = MaskId, vr_text = ''[Mask]'', vr_icon = IconMask, vr_buttons = [], vr_selected = False\<rparr>, \<lparr>vr_id = InflId 3, vr_text = ''a'', vr_icon = IconJoint, vr_buttons = [], vr_selected = False\<rparr>], view_current = None, tree_items = [(MaskId, 0), (InflId 3, 1)]\<rparr> (Some \<lparr>num_children = 0, paint_targets = [InflId 3], locked_influences = None, used_influences = None\<rparr>)) ! 1)"
  using current_influence_changed_first_only [of "\<lparr>view_rows = [\<lparr>vr_id = MaskId, vr_text = ''[Mask]'', vr_icon = IconMask, vr_buttons = [], vr_selected = False\<rparr>, \<lparr>vr_id = InflId 3, vr_text = ''a'', vr_icon = IconJoint, vr_buttons = [], vr_selected = False\<rparr>], view_current = None, tree_items = [(MaskId, 0), (InflId 3, 1)]\<rparr>" 0 "[1]" "\<lparr>num_children = 0, paint_targets = [InflId 3], locked_influences = None, used_influences = None\<rparr>"] by simp

theorem current_item_changed_current_first_witness:
  "\<exists>ids. current_item_changed True True \<lparr>view_rows = [\<lparr>vr_id = MaskId, vr_text = ''[Mask]'', vr_icon = IconMask, vr_buttons = [], vr_selected = False\<rparr>, \<lparr>vr_id = InflId 3, vr_text = ''a'', vr_icon = IconJoint, vr_buttons = [], vr_selected = True\<rparr>, \<lparr>vr_id = InflId 4, vr_text = ''b'', vr_icon = IconJoint, vr_buttons = [], vr_selected = True\<rparr>], view_current = Some 2, tree_items = [(MaskId, 0), (InflId 3, 1), (InflId 4, 2)]\<rparr> [1, 2] (Some \<lparr>num_children = 0, paint_targets = [InflId 3], locked_influences = None, used_influences = None\<rparr>) = Inr (Some (\<lparr>num_children = 0, paint_targets = [InflId 3], locked_influences = None, used_influences = None\<rparr>\<lparr>paint_targets := ids\<rparr>))
        \<and> hd ids = InflId 4"
  using current_item_changed_current_first [of "\<lparr>view_rows = [\<lparr>vr_id = MaskId, vr_text = ''[Mask]'', vr_icon = IconMask, vr_buttons = [], vr_selected = False\<rparr>, \<lparr>vr_id = InflId 3, vr_text = ''a'', vr_icon = IconJoint, vr_buttons = [], vr_selected = True\<rparr>, \<lparr>vr_id = InflId 4, vr_text = ''b'', vr_icon = IconJoint, vr_buttons = [], vr_selected = True\<rparr>], view_current = Some 2, tree_items = [(MaskId, 0), (InflId 3, 1), (InflId 4, 2)]\<rparr>" 2 "[1, 2]" "\<lparr>num_children = 0, paint_targets = [InflId 3], locked_influences = None, used_influences = None\<rparr>"] by auto

end
