(* ===== verification/LayerActions.thy ===== *)
theory LayerActions
  imports Complex_Main Prelude
begin

text \<open>
  The layer operations of \<open>operations/layers.py\<close>. The layer store of the
  \<open>ngSkinTools2\<close> plugin (\<open>api.layers.Layers\<close>, outside \<open>src/\<close>) is a record:
  the layers in creation order, each with its id, name, parent and enabled flag, the
  current layer and the next free id. \<open>Layers.add\<close> appends a top-level enabled
  layer with a fresh id, \<open>Layers.delete\<close> removes one, and setting an attribute of a
  \<open>Layer\<close> object updates the layer of that id and raises when there is none. The
  session adds the selected skin cluster, \<open>layersAvailable\<close>, the layers selected
  in the UI and the log of emitted events. The operations of the plugin that are not
  in this file (\<open>generate_layer_name\<close>, the colour table, \<open>random.choice\<close>) are
  parameters of the operations that call them.
\<close>

datatype layer_event = TargetChanged | LayerListChanged | CurrentLayerChanged

record layer_rec =
  layer_id :: nat
  layer_name :: string
  layer_parent :: "nat option"
  layer_enabled :: bool

record layer_session =
  has_skin_cluster :: bool
  layers_available :: bool
  layer_list :: "layer_rec list"
  current_layer_id :: "nat option"
  next_layer_id :: nat
  mirror_configured :: bool
  selected_layers :: "nat list"
  emitted :: "layer_event list"
  infos_shown :: nat

datatype layer_error = InvalidLayer nat | IndexError

definition emit :: "layer_event \<Rightarrow> layer_session \<Rightarrow> layer_session" where
  "emit e st = st\<lparr>emitted := emitted st @ [e]\<rparr>"

definition find_layer :: "layer_session \<Rightarrow> nat \<Rightarrow> layer_rec option" where
  "find_layer st i = find (\<lambda>l. layer_id l = i) (layer_list st)"

definition num_children :: "layer_session \<Rightarrow> nat \<Rightarrow> nat" where
  "num_children st i = length (filter (\<lambda>l. layer_parent l = Some i) (layer_list st))"

definition api_add_layer :: "string \<Rightarrow> layer_session \<Rightarrow> layer_session \<times> nat" where
  "api_add_layer nm st =
     (let i = next_layer_id st
      in (st\<lparr>layer_list := layer_list st @ [\<lparr>layer_id = i, layer_name = nm, layer_parent = None, layer_enabled = True\<rparr>],
            next_layer_id := Suc i\<rparr>, i))"

definition api_update_layer ::
  "nat \<Rightarrow> (layer_rec \<Rightarrow> layer_rec) \<Rightarrow> layer_session \<Rightarrow> (layer_error, layer_session) outcome" where
  "api_update_layer i f st =
     (if find_layer st i = None then Raised (InvalidLayer i) st
      else Done (st\<lparr>layer_list := map (\<lambda>l. if layer_id l = i then f l else l) (layer_list st)\<rparr>))"


text \<open>\<open>u"\<dots>"\<close> of line 32, the name of the first layer, as its UTF-8 bytes.\<close>

definition base_layer_name :: string where
  "base_layer_name = map char_of [0xE5::nat, 0x9F, 0xBA, 0xE7, 0xA1, 0x80, 0xE6, 0x9D, 0x83, 0xE9, 0x87, 0x8D]"

text \<open>\<open>initializeLayers\<close> (lines 21--41): nothing when layers exist; otherwise the
  layer data is created, with a first layer made current when asked, the mirror
  configuration is set, \<open>targetChanged\<close> is emitted and, for a skin cluster in slow
  mode, an information dialog is shown.\<close>

definition initializeLayers :: "bool \<Rightarrow> bool \<Rightarrow> layer_session \<Rightarrow> layer_session" where
  "initializeLayers createFirstLayer slow_mode st =
     (if layers_available st then st
      else
        (let st1 = st\<lparr>layers_available := True, layer_list := [], current_layer_id := None\<rparr>;
             st2 = (if createFirstLayer
                    then (case api_add_layer base_layer_name st1 of (s, i) \<Rightarrow> s\<lparr>current_layer_id := Some i\<rparr>)
                    else st1);
             st3 = emit TargetChanged (st2\<lparr>mirror_configured := True\<rparr>)
         in if slow_mode then st3\<lparr>infos_shown := Suc (infos_shown st3)\<rparr> else st3))"

text \<open>\<open>addLayer.guessParent\<close> (lines 48--57).\<close>

definition guessParent :: "layer_session \<Rightarrow> nat option" where
  "guessParent st =
     (case current_layer_id st of
        None \<Rightarrow> None
      | Some c \<Rightarrow>
          (case find_layer st c of
             None \<Rightarrow> None
           | Some cl \<Rightarrow> if num_children st c > 0 then Some c else layer_parent cl))"

text \<open>\<open>setCurrentLayer\<close> (lines 124--137): the two checks only log, the layer is made
  current whatever they find.\<close>

definition setCurrentLayer :: "nat \<Rightarrow> layer_session \<Rightarrow> layer_session" where
  "setCurrentLayer i st = emit CurrentLayerChanged (st\<lparr>current_layer_id := Some i\<rparr>)"

text \<open>\<open>addLayer\<close> (lines 44--66), with the name \<open>generate_layer_name\<close> returned; the
  parent is guessed after the new layer was added.\<close>

definition addLayer :: "string \<Rightarrow> layer_session \<Rightarrow> layer_session \<times> nat" where
  "addLayer new_name st =
     (case api_add_layer new_name st of
        (st1, i) \<Rightarrow>
          (let p = guessParent st1;
               st2 = st1\<lparr>layer_list := map (\<lambda>l. if layer_id l = i then l\<lparr>layer_parent := p\<rparr> else l) (layer_list st1)\<rparr>
           in (setCurrentLayer i (emit LayerListChanged st2), i)))"

definition getCurrentLayer :: "layer_session \<Rightarrow> layer_rec option" where
  "getCurrentLayer st = (case current_layer_id st of None \<Rightarrow> None | Some c \<Rightarrow> find_layer st c)"

definition renameLayer :: "nat \<Rightarrow> string \<Rightarrow> layer_session \<Rightarrow> (layer_error, layer_session) outcome" where
  "renameLayer i nm st =
     (case api_update_layer i (\<lambda>l. l\<lparr>layer_name := nm\<rparr>) st of
        Raised e s \<Rightarrow> Raised e s
      | Done s \<Rightarrow> Done (emit LayerListChanged s))"


text \<open>The callback of the "initialise layers" action (lines 74--83): when layers of the
  previous version can be imported, the user must confirm first.\<close>

definition do_initialize :: "bool \<Rightarrow> bool \<Rightarrow> bool \<Rightarrow> layer_session \<Rightarrow> layer_session" where
  "do_initialize can_import confirmed slow_mode st =
     (if can_import \<and> \<not> confirmed then st else initializeLayers True slow_mode st)"

text \<open>The enabled state of the actions, as their \<open>update\<close> handlers compute it.\<close>

definition initialize_action_enabled :: "layer_session \<Rightarrow> bool" where
  "initialize_action_enabled st = has_skin_cluster st"

definition create_action_enabled :: "layer_session \<Rightarrow> bool" where
  "create_action_enabled st = layers_available st"

definition delete_action_enabled :: "layer_session \<Rightarrow> bool" where
  "delete_action_enabled st = (layers_available st \<and> selected_layers st \<noteq> [])"

text \<open>\<open>ToggleEnabledAction.checked\<close> (lines 168--185): a selected layer whose id is
  invalid counts for neither side.\<close>

definition enabled_balance :: "layer_session \<Rightarrow> nat list \<Rightarrow> int" where
  "enabled_balance st ls =
     sum_list (map (\<lambda>i. case find_layer st i of None \<Rightarrow> 0 | Some l \<Rightarrow> if layer_enabled l then 1 else -1) ls)"

definition toggle_checked :: "layer_session \<Rightarrow> bool" where
  "toggle_checked st = (selected_layers st = [] \<or> enabled_balance st (selected_layers st) \<ge> 0)"

fun set_enabled_all :: "bool \<Rightarrow> nat list \<Rightarrow> layer_session \<Rightarrow> (layer_error, layer_session) outcome" where
  "set_enabled_all e [] st = Done st"
| "set_enabled_all e (i # is) st =
     (case api_update_layer i (\<lambda>l. l\<lparr>layer_enabled := e\<rparr>) st of
        Raised err s \<Rightarrow> Raised err s
      | Done s \<Rightarrow> set_enabled_all e is s)"

text \<open>\<open>ToggleEnabledAction.run\<close> (lines 187--198).\<close>

definition toggle_run :: "layer_session \<Rightarrow> (layer_error, layer_session) outcome" where
  "toggle_run st =
     (let enabled = \<not> toggle_checked st
      in if selected_layers st = [] then Done st
         else (case set_enabled_all enabled (selected_layers st) st of
                 Raised err s \<Rightarrow> Raised err s
               | Done s \<Rightarrow> Done (emit LayerListChanged s)))"

definition toggle_enabled :: "layer_session \<Rightarrow> bool" where
  "toggle_enabled st = (layers_available st \<and> selected_layers st \<noteq> [])"

text \<open>\<open>build_action_randomize_influences_colors\<close> (lines 207--228). A colour is an RGB
  triple of reals (Maya's \<open>colorIndex\<close> floats); the palette is the set of the
  table's colours that pass \<open>color_filter\<close>, in the order the set is iterated, here
  the order of first occurrence. \<open>pick\<close> is \<open>random.choice\<close>: the index it
  chooses for each influence.\<close>

type_synonym color = "real \<times> real \<times> real"

definition color_filter :: "color \<Rightarrow> bool" where
  "color_filter c =
     (let (r, g, b) = c; brightness = r * r + g * g + b * b
      in brightness > 0.001 \<and> brightness < 0.99)"

definition palette :: "color list \<Rightarrow> color list" where
  "palette table = filter color_filter (remdups table)"

definition randomize_colors ::
  "bool \<Rightarrow> color list \<Rightarrow> (nat \<Rightarrow> nat) \<Rightarrow> nat list \<Rightarrow> layer_error + (nat \<times> color) list option" where
  "randomize_colors has_cluster table pick influences =
     (if \<not> has_cluster then Inr None
      else (let colors = palette table
            in if colors = [] \<and> influences \<noteq> [] then Inl IndexError
               else Inr (Some (fold (\<lambda>i d. py_dict_set d i (colors ! (pick i mod length colors))) influences []))))"


text \<open>The well-formedness of the layer store: ids are distinct and below the next
  free id, and so is every parent.\<close>

definition layers_wf :: "layer_session \<Rightarrow> bool" where
  "layers_wf st \<longleftrightarrow> distinct (map layer_id (layer_list st))
     \<and> (\<forall>l \<in> set (layer_list st). layer_id l < next_layer_id st
            \<and> (\<forall>p. layer_parent l = Some p \<longrightarrow> p < next_layer_id st))"

subsection \<open>Lemmas\<close>

lemma find_map_same_id:
  assumes "\<And>l. layer_id (f l) = layer_id l"
  shows "find (\<lambda>l. layer_id l = i) (map f xs) = map_option f (find (\<lambda>l. layer_id l = i) xs)"
  using assms by (induction xs) auto

lemma find_layer_None_iff: "find_layer st i = None \<longleftrightarrow> i \<notin> layer_id ` set (layer_list st)"
  by (auto simp: find_layer_def find_None_iff)

lemma find_Some_prop: "find P xs = Some x \<Longrightarrow> P x \<and> x \<in> set xs"
  by (induction xs) (auto split: if_splits)

lemma find_layer_Some: "find_layer st i = Some l \<Longrightarrow> layer_id l = i \<and> l \<in> set (layer_list st)"
  unfolding find_layer_def by (drule find_Some_prop) simp

lemma find_layer_update:
  assumes "\<And>l. layer_id (f l) = layer_id l"
  shows "find_layer (st\<lparr>layer_list := map (\<lambda>l. if layer_id l \<in> S then f l else l) (layer_list st)\<rparr>) i =
         map_option (\<lambda>l. if i \<in> S then f l else l) (find_layer st i)"
proof -
  let ?g = "\<lambda>l. if layer_id l \<in> S then f l else l"
  have ids: "layer_id (?g l) = layer_id l" for l by (simp add: assms)
  have m: "find_layer (st\<lparr>layer_list := map ?g (layer_list st)\<rparr>) i = map_option ?g (find_layer st i)"
    unfolding find_layer_def by (simp add: find_map_same_id [of ?g, OF ids])
  show ?thesis
  proof (cases "find_layer st i")
    case None
    then show ?thesis using m by simp
  next
    case (Some l)
    then have "layer_id l = i" by (blast dest: find_layer_Some)
    then show ?thesis using m Some by simp
  qed
qed


lemma find_layer_emit [simp]: "find_layer (emit e st) i = find_layer st i"
  by (simp add: find_layer_def emit_def)

lemma emitted_emit [simp]: "emitted (emit e st) = emitted st @ [e]"
  and layer_list_emit [simp]: "layer_list (emit e st) = layer_list st"
  and selected_layers_emit [simp]: "selected_layers (emit e st) = selected_layers st"
  and current_layer_id_emit [simp]: "current_layer_id (emit e st) = current_layer_id st"
  and next_layer_id_emit [simp]: "next_layer_id (emit e st) = next_layer_id st"
  by (simp_all add: emit_def)

lemma set_enabled_all_Done:
  assumes "\<forall>i \<in> set is. find_layer st i \<noteq> None"
  shows "set_enabled_all e is st =
           Done (st\<lparr>layer_list := map (\<lambda>l. if layer_id l \<in> set is then l\<lparr>layer_enabled := e\<rparr> else l) (layer_list st)\<rparr>)"
  using assms
proof (induction "is" arbitrary: st)
  case Nil
  then show ?case by simp
next
  case (Cons i "is")
  let ?st1 = "st\<lparr>layer_list := map (\<lambda>l. if layer_id l \<in> {i} then l\<lparr>layer_enabled := e\<rparr> else l) (layer_list st)\<rparr>"
  have u: "api_update_layer i (\<lambda>l. l\<lparr>layer_enabled := e\<rparr>) st = Done ?st1"
    using Cons.prems by (simp add: api_update_layer_def)
  have "find_layer ?st1 j = map_option (\<lambda>l. if j \<in> {i} then l\<lparr>layer_enabled := e\<rparr> else l) (find_layer st j)" for j
    by (rule find_layer_update) simp
  then have "\<forall>j \<in> set is. find_layer ?st1 j \<noteq> None"
    using Cons.prems by simp
  then have "set_enabled_all e is ?st1 =
      Done (?st1\<lparr>layer_list := map (\<lambda>l. if layer_id l \<in> set is then l\<lparr>layer_enabled := e\<rparr> else l) (layer_list ?st1)\<rparr>)"
    by (rule Cons.IH)
  moreover have "map (\<lambda>l. if layer_id l \<in> set is then l\<lparr>layer_enabled := e\<rparr> else l) (layer_list ?st1) =
      map (\<lambda>l. if layer_id l \<in> set (i # is) then l\<lparr>layer_enabled := e\<rparr> else l) (layer_list st)"
    by simp
  ultimately show ?case using u by simp
qed

lemma set_enabled_all_append:
  "set_enabled_all e (xs @ ys) st =
     (case set_enabled_all e xs st of Raised err s \<Rightarrow> Raised err s | Done s \<Rightarrow> set_enabled_all e ys s)"
  by (induction xs arbitrary: st) (simp_all split: outcome.splits)

lemma enabled_balance_uniform:
  assumes "\<forall>i \<in> set ls. \<exists>l. find_layer st i = Some l \<and> layer_enabled l = e"
  shows "enabled_balance st ls = (if e then int (length ls) else - int (length ls))"
  using assms by (induction ls) (auto simp: enabled_balance_def)

text \<open>C35. When the selection is non-empty and every selected layer exists,
  \<open>ToggleEnabledAction.run\<close> sets every selected layer to the opposite of the check
  mark, leaves the other layers alone, emits \<open>layerListChanged\<close> once, and the check
  mark flips.\<close>
theorem toggle_run_flips_checked:
  assumes "selected_layers st \<noteq> []" "\<forall>i \<in> set (selected_layers st). find_layer st i \<noteq> None"
  shows "\<exists>st'. toggle_run st = Done st' \<and> toggle_checked st' = (\<not> toggle_checked st)
           \<and> (\<forall>i \<in> set (selected_layers st). \<exists>l. find_layer st' i = Some l \<and> layer_enabled l = (\<not> toggle_checked st))
           \<and> (\<forall>i. i \<notin> set (selected_layers st) \<longrightarrow> find_layer st' i = find_layer st i)
           \<and> emitted st' = emitted st @ [LayerListChanged]"
proof -
  let ?e = "\<not> toggle_checked st"
  define st1 where "st1 = st\<lparr>layer_list := map (\<lambda>l. if layer_id l \<in> set (selected_layers st) then l\<lparr>layer_enabled := ?e\<rparr> else l) (layer_list st)\<rparr>"
  have run: "toggle_run st = Done (emit LayerListChanged st1)"
    using assms set_enabled_all_Done [OF assms(2), of ?e] by (simp add: toggle_run_def st1_def Let_def)
  have f: "find_layer st1 i = map_option (\<lambda>l. if i \<in> set (selected_layers st) then l\<lparr>layer_enabled := ?e\<rparr> else l) (find_layer st i)" for i
    unfolding st1_def by (rule find_layer_update) simp
  have sel: "\<forall>i \<in> set (selected_layers st). \<exists>l. find_layer st1 i = Some l \<and> layer_enabled l = ?e"
    using assms(2) f by auto
  have "selected_layers st1 = selected_layers st" by (simp add: st1_def)
  then have "toggle_checked (emit LayerListChanged st1) = ?e"
    using enabled_balance_uniform [OF sel] assms(1)
    by (auto simp: toggle_checked_def enabled_balance_def)
  moreover have "\<forall>i. i \<notin> set (selected_layers st) \<longrightarrow> find_layer st1 i = find_layer st i"
    using f by (simp add: option.map_ident)
  moreover have "emitted st1 = emitted st" by (simp add: st1_def)
  ultimately show ?thesis using run sel by simp
qed

text \<open>C36. When a selected layer no longer exists, \<open>run\<close> raises at it after the layers
  before it were already switched, and emits nothing: the toggle is not atomic, while
  \<open>checked\<close> skips the same layer silently.\<close>
theorem toggle_run_raises_midway:
  assumes "selected_layers st = pre @ i # post" "\<forall>j \<in> set pre. find_layer st j \<noteq> None" "find_layer st i = None"
  shows "\<exists>s. toggle_run st = Raised (InvalidLayer i) s
           \<and> (\<forall>j \<in> set pre. \<exists>l. find_layer s j = Some l \<and> layer_enabled l = (\<not> toggle_checked st))
           \<and> emitted s = emitted st"
proof -
  let ?e = "\<not> toggle_checked st"
  define st1 where "st1 = st\<lparr>layer_list := map (\<lambda>l. if layer_id l \<in> set pre then l\<lparr>layer_enabled := ?e\<rparr> else l) (layer_list st)\<rparr>"
  have f: "find_layer st1 j = map_option (\<lambda>l. if j \<in> set pre then l\<lparr>layer_enabled := ?e\<rparr> else l) (find_layer st j)" for j
    unfolding st1_def by (rule find_layer_update) simp
  have "set_enabled_all ?e pre st = Done st1"
    unfolding st1_def by (rule set_enabled_all_Done [OF assms(2)])
  moreover have "api_update_layer i (\<lambda>l. l\<lparr>layer_enabled := ?e\<rparr>) st1 = Raised (InvalidLayer i) st1"
    using f [of i] assms(3) by (simp add: api_update_layer_def)
  ultimately have "set_enabled_all ?e (selected_layers st) st = Raised (InvalidLayer i) st1"
    using assms(1) by (simp add: set_enabled_all_append)
  then have "toggle_run st = Raised (InvalidLayer i) st1"
    using assms(1) by (simp add: toggle_run_def Let_def)
  moreover have "\<forall>j \<in> set pre. \<exists>l. find_layer st1 j = Some l \<and> layer_enabled l = ?e"
    using assms(2) f by auto
  moreover have "emitted st1 = emitted st" by (simp add: st1_def)
  ultimately show ?thesis by blast
qed


lemma find_append_case:
  "find P (xs @ ys) = (case find P xs of None \<Rightarrow> find P ys | Some x \<Rightarrow> Some x)"
  by (induction xs) auto

lemma find_layer_append_fresh:
  assumes "layer_id nl \<notin> layer_id ` set (layer_list st)"
  shows "find_layer (st\<lparr>layer_list := layer_list st @ [nl], next_layer_id := n\<rparr>) j =
           (if j = layer_id nl then Some nl else find_layer st j)"
proof (cases "find_layer st j")
  case None
  then have n: "find (\<lambda>l. layer_id l = j) (layer_list st) = None" by (simp add: find_layer_def)
  show ?thesis
  proof (cases "j = layer_id nl")
    case True
    then show ?thesis using n by (simp add: find_layer_def find_append_case)
  next
    case False
    then show ?thesis using n None by (simp add: find_layer_def find_append_case)
  qed
next
  case (Some l)
  then have lid: "layer_id l = j" and lset: "l \<in> set (layer_list st)" by (simp_all add: find_layer_Some)
  have "j \<in> layer_id ` set (layer_list st)" by (rule rev_image_eqI [OF lset]) (simp add: lid)
  have "j \<noteq> layer_id nl"
  proof
    assume "j = layer_id nl"
    then show False using \<open>j \<in> layer_id ` set (layer_list st)\<close> assms by simp
  qed
  then show ?thesis using Some by (simp add: find_layer_def find_append_case)
qed

lemma fresh_id: "layers_wf st \<Longrightarrow> next_layer_id st \<notin> layer_id ` set (layer_list st)"
  by (auto simp: layers_wf_def)

lemma num_children_append_top:
  "num_children (st\<lparr>layer_list := layer_list st @ [nl], next_layer_id := n\<rparr>) c =
   num_children st c + (if layer_parent nl = Some c then 1 else 0)"
  by (simp add: num_children_def)

lemma guessParent_after_add:
  assumes "layers_wf st"
  shows "guessParent (fst (api_add_layer nm st)) = guessParent st"
proof -
  let ?nl = "\<lparr>layer_id = next_layer_id st, layer_name = nm, layer_parent = None, layer_enabled = True\<rparr>"
  have fr: "layer_id ?nl \<notin> layer_id ` set (layer_list st)" using fresh_id [OF assms] by simp
  have fst_add: "fst (api_add_layer nm st) = st\<lparr>layer_list := layer_list st @ [?nl], next_layer_id := Suc (next_layer_id st)\<rparr>"
    by (simp add: api_add_layer_def Let_def)
  have nc0: "num_children st (next_layer_id st) = 0"
    using assms by (fastforce simp: num_children_def layers_wf_def filter_empty_conv)
  have none: "find_layer st (next_layer_id st) = None"
    using fr by (simp add: find_layer_None_iff)
  show ?thesis
    unfolding fst_add guessParent_def
    using fr nc0 none
    by (auto simp: find_layer_append_fresh num_children_append_top split: option.splits)
qed

lemma map_id_update_parent [simp]:
  "map layer_id (map (\<lambda>l. if layer_id l = i then l\<lparr>layer_parent := p\<rparr> else l) xs) = map layer_id xs"
  by (induction xs) auto

lemma layers_wf_update_parent:
  assumes "layers_wf st" "\<forall>q. p = Some q \<longrightarrow> q < next_layer_id st"
  shows "layers_wf (st\<lparr>layer_list := map (\<lambda>l. if layer_id l = i then l\<lparr>layer_parent := p\<rparr> else l) (layer_list st)\<rparr>)"
  using assms unfolding layers_wf_def by (auto simp del: map_map)

lemma guessParent_bound:
  assumes "layers_wf st" "guessParent st = Some q"
  shows "q < next_layer_id st"
proof -
  obtain c cl where c: "current_layer_id st = Some c" "find_layer st c = Some cl"
    using assms(2) by (auto simp: guessParent_def split: option.splits)
  have cl: "layer_id cl = c" "cl \<in> set (layer_list st)" using c(2) by (blast dest: find_layer_Some)+
  have "q = c \<or> layer_parent cl = Some q"
    using assms(2) c by (auto simp: guessParent_def split: if_splits)
  then show ?thesis using assms(1) cl by (auto simp: layers_wf_def)
qed

lemma layers_wf_add:
  assumes "layers_wf st"
  shows "layers_wf (st\<lparr>layer_list := layer_list st @ [\<lparr>layer_id = next_layer_id st, layer_name = nm, layer_parent = None, layer_enabled = True\<rparr>],
                      next_layer_id := Suc (next_layer_id st)\<rparr>)"
proof -
  have fr: "next_layer_id st \<notin> set (map layer_id (layer_list st))" using fresh_id [OF assms] by simp
  have d: "distinct (map layer_id (layer_list st) @ [next_layer_id st])" using assms fr by (simp add: layers_wf_def)
  have b: "\<forall>l \<in> set (layer_list st). layer_id l < Suc (next_layer_id st)
              \<and> (\<forall>p. layer_parent l = Some p \<longrightarrow> p < Suc (next_layer_id st))"
    using assms unfolding layers_wf_def by (blast intro: less_SucI)
  show ?thesis using d b by (simp add: layers_wf_def)
qed

text \<open>C37. \<open>addLayer\<close> keeps the layer store well formed, creates a layer with a fresh id,
  the given name and the parent \<open>guessParent\<close> computes from the state before the call
  (the current layer when it has children, else its parent), makes it current, changes no
  other layer and emits \<open>layerListChanged\<close> then \<open>currentLayerChanged\<close>.\<close>
theorem addLayer_spec:
  assumes "layers_wf st" "addLayer nm st = (st', i)"
  shows "layers_wf st' \<and> i \<notin> layer_id ` set (layer_list st) \<and> current_layer_id st' = Some i
         \<and> find_layer st' i = Some \<lparr>layer_id = i, layer_name = nm, layer_parent = guessParent st, layer_enabled = True\<rparr>
         \<and> (\<forall>j. j \<noteq> i \<longrightarrow> find_layer st' j = find_layer st j)
         \<and> emitted st' = emitted st @ [LayerListChanged, CurrentLayerChanged]"
proof -
  let ?n = "next_layer_id st"
  let ?nl = "\<lparr>layer_id = ?n, layer_name = nm, layer_parent = None, layer_enabled = True\<rparr>"
  define st1 where "st1 = st\<lparr>layer_list := layer_list st @ [?nl], next_layer_id := Suc ?n\<rparr>"
  define st2 where "st2 = st1\<lparr>layer_list := map (\<lambda>l. if layer_id l = ?n then l\<lparr>layer_parent := guessParent st\<rparr> else l) (layer_list st1)\<rparr>"
  have add: "api_add_layer nm st = (st1, ?n)" by (simp add: api_add_layer_def st1_def Let_def)
  have gp: "guessParent st1 = guessParent st"
    using guessParent_after_add [OF assms(1), of nm] add by simp
  have res: "addLayer nm st = (setCurrentLayer ?n (emit LayerListChanged st2), ?n)"
    unfolding addLayer_def add by (simp only: prod.case Let_def gp st2_def)
  then have st': "st' = setCurrentLayer ?n (emit LayerListChanged st2)" and i: "i = ?n" using assms(2) by simp_all
  have fr: "?n \<notin> layer_id ` set (layer_list st)" by (rule fresh_id [OF assms(1)])
  have wf1: "layers_wf st1"
    unfolding st1_def by (rule layers_wf_add [OF assms(1)])
  have "\<forall>q. guessParent st = Some q \<longrightarrow> q < next_layer_id st1"
    using guessParent_bound [OF assms(1)] by (simp add: st1_def less_SucI)
  then have wf2: "layers_wf st2" unfolding st2_def by (rule layers_wf_update_parent [OF wf1])
  have f1: "find_layer st1 j = (if j = ?n then Some ?nl else find_layer st j)" for j
    unfolding st1_def using find_layer_append_fresh [of ?nl st] fr by simp
  have f2: "find_layer st2 j = map_option (\<lambda>l. if j \<in> {?n} then l\<lparr>layer_parent := guessParent st\<rparr> else l) (find_layer st1 j)" for j
    unfolding st2_def using find_layer_update [where f = "\<lambda>l. l\<lparr>layer_parent := guessParent st\<rparr>" and st = st1 and S = "{?n}" and i = j] by simp
  have fl: "find_layer st' j = find_layer st2 j" for j
    using st' by (simp add: find_layer_def setCurrentLayer_def emit_def)
  have cur: "current_layer_id st' = Some ?n" using st' by (simp add: setCurrentLayer_def emit_def)
  have "emitted st2 = emitted st" by (simp add: st2_def st1_def)
  then have em: "emitted st' = emitted st @ [LayerListChanged, CurrentLayerChanged]"
    using st' by (simp add: setCurrentLayer_def emit_def)
  have wf': "layers_wf st'" using st' wf2 by (simp add: layers_wf_def setCurrentLayer_def emit_def)
  have new: "find_layer st' ?n = Some \<lparr>layer_id = ?n, layer_name = nm, layer_parent = guessParent st, layer_enabled = True\<rparr>"
    using fl f2 f1 by simp
  have other: "\<forall>j. j \<noteq> ?n \<longrightarrow> find_layer st' j = find_layer st j"
    using fl f2 f1 by (simp add: option.map_ident)
  show ?thesis using wf' fr cur new other em i by simp
qed

lemma api_add_layer_available [simp]: "layers_available (fst (api_add_layer nm st)) = layers_available st"
  by (simp add: api_add_layer_def Let_def)

lemma initializeLayers_available: "layers_available (initializeLayers c s st)"
proof (cases "layers_available st")
  case False
  have "layers_available (case api_add_layer base_layer_name st' of (s, i) \<Rightarrow> s\<lparr>current_layer_id := Some i\<rparr>)
        = layers_available st'" for st'
    by (simp add: api_add_layer_def Let_def)
  then show ?thesis using False by (simp add: initializeLayers_def Let_def emit_def)
qed (simp add: initializeLayers_def)

lemma initializeLayers_noop: "layers_available st \<Longrightarrow> initializeLayers c s st = st"
  by (simp add: initializeLayers_def)

text \<open>C38. \<open>initializeLayers\<close> is idempotent: once layers exist a second call changes
  nothing. On a target without layers it creates the base layer as the current layer and
  emits \<open>targetChanged\<close>.\<close>
theorem initializeLayers_spec:
  "initializeLayers c2 s2 (initializeLayers c s st) = initializeLayers c s st
   \<and> (\<not> layers_available st \<longrightarrow>
        getCurrentLayer (initializeLayers True s st) =
          Some \<lparr>layer_id = next_layer_id st, layer_name = base_layer_name, layer_parent = None, layer_enabled = True\<rparr>
        \<and> emitted (initializeLayers True s st) = emitted st @ [TargetChanged])"
proof -
  have "initializeLayers c2 s2 (initializeLayers c s st) = initializeLayers c s st"
    by (rule initializeLayers_noop [OF initializeLayers_available])
  moreover have "\<not> layers_available st \<longrightarrow>
        getCurrentLayer (initializeLayers True s st) =
          Some \<lparr>layer_id = next_layer_id st, layer_name = base_layer_name, layer_parent = None, layer_enabled = True\<rparr>
        \<and> emitted (initializeLayers True s st) = emitted st @ [TargetChanged]"
  proof
    assume na: "\<not> layers_available st"
    show "getCurrentLayer (initializeLayers True s st) =
          Some \<lparr>layer_id = next_layer_id st, layer_name = base_layer_name, layer_parent = None, layer_enabled = True\<rparr>
        \<and> emitted (initializeLayers True s st) = emitted st @ [TargetChanged]"
      using na by (cases s) (simp_all add: initializeLayers_def api_add_layer_def Let_def getCurrentLayer_def find_layer_def emit_def)
  qed
  ultimately show ?thesis by blast
qed

lemma fold_dict_set_mem:
  "(k, v) \<in> set (fold (\<lambda>i d. py_dict_set d i (g i)) xs d0) \<Longrightarrow> (k, v) \<in> set d0 \<or> (k \<in> set xs \<and> v = g k)"
proof (induction xs arbitrary: d0)
  case Nil
  then show ?case by simp
next
  case (Cons x xs)
  have "(k, v) \<in> set (fold (\<lambda>i d. py_dict_set d i (g i)) xs (py_dict_set d0 x (g x)))"
    using Cons.prems by simp
  then have "(k, v) \<in> set (py_dict_set d0 x (g x)) \<or> (k \<in> set xs \<and> v = g k)"
    by (rule Cons.IH)
  then show ?case using py_dict_set_mem [of k v d0 x "g x"] by auto
qed

lemma fold_dict_set_map_of:
  "map_of (fold (\<lambda>i d. py_dict_set d i (g i)) xs d0) k = (if k \<in> set xs then Some (g k) else map_of d0 k)"
  by (induction xs arbitrary: d0) (simp_all add: py_dict_set_map_of)

lemma palette_nth:
  "palette table \<noteq> [] \<Longrightarrow> palette table ! (n mod length (palette table)) \<in> set table
     \<and> color_filter (palette table ! (n mod length (palette table)))"
proof -
  assume ne: "palette table \<noteq> []"
  then have "palette table ! (n mod length (palette table)) \<in> set (palette table)" by simp
  then show ?thesis by (simp add: palette_def)
qed


text \<open>C39. Randomising the influence colours fails with \<open>IndexError\<close> exactly when the
  palette is empty and there is an influence. Otherwise the new \<open>influence_colors\<close>
  dict has exactly the influences as keys, and maps each to the palette colour
  \<open>random.choice\<close> picks for it, a colour of the table that passes \<open>color_filter\<close>
  (neither black nor white).\<close>
theorem randomize_colors_spec:
  "(randomize_colors True table pick infl = Inl IndexError \<longleftrightarrow> palette table = [] \<and> infl \<noteq> [])
   \<and> (palette table \<noteq> [] \<or> infl = [] \<longrightarrow>
        (\<exists>d. randomize_colors True table pick infl = Inr (Some d)
             \<and> dom (map_of d) = set infl
             \<and> (\<forall>i \<in> set infl. map_of d i = Some (palette table ! (pick i mod length (palette table)))
                    \<and> palette table ! (pick i mod length (palette table)) \<in> set table
                    \<and> color_filter (palette table ! (pick i mod length (palette table))))))"
proof -
  let ?g = "\<lambda>i. palette table ! (pick i mod length (palette table))"
  let ?d = "fold (\<lambda>i d. py_dict_set d i (?g i)) infl []"
  have err: "randomize_colors True table pick infl = Inl IndexError \<longleftrightarrow> palette table = [] \<and> infl \<noteq> []"
    by (simp add: randomize_colors_def Let_def)
  have ok: "\<exists>d. randomize_colors True table pick infl = Inr (Some d)
             \<and> dom (map_of d) = set infl
             \<and> (\<forall>i \<in> set infl. map_of d i = Some (?g i) \<and> ?g i \<in> set table \<and> color_filter (?g i))"
    if ne: "palette table \<noteq> [] \<or> infl = []"
  proof -
    have r: "randomize_colors True table pick infl = Inr (Some ?d)"
      using ne by (auto simp: randomize_colors_def Let_def)
    have m: "map_of ?d i = (if i \<in> set infl then Some (?g i) else None)" for i
      by (simp add: fold_dict_set_map_of)
    have "dom (map_of ?d) = set infl" by (auto simp: m split: if_splits)
    moreover have "\<forall>i \<in> set infl. map_of ?d i = Some (?g i) \<and> ?g i \<in> set table \<and> color_filter (?g i)"
      using ne palette_nth [of table] by (auto simp: m)
    ultimately show ?thesis using r by blast
  qed
  show ?thesis using err ok by blast
qed


subsection \<open>Witnesses\<close>

theorem toggle_run_flips_checked_witness:
  "\<exists>st'. toggle_run \<lparr>has_skin_cluster = True, layers_available = True, layer_list = [\<lparr>layer_id = 0, layer_name = ''a'', layer_parent = None, layer_enabled = True\<rparr>, \<lparr>layer_id = 1, layer_name = ''b'', layer_parent = Some 0, layer_enabled = False\<rparr>], current_layer_id = Some 1, next_layer_id = 2, mirror_configured = True, selected_layers = [0, 1], emitted = [], infos_shown = 0\<rparr> = Done st' \<and> \<not> toggle_checked st' \<and> emitted st' = [LayerListChanged]"
proof -
  have c: "toggle_checked \<lparr>has_skin_cluster = True, layers_available = True, layer_list = [\<lparr>layer_id = 0, layer_name = ''a'', layer_parent = None, layer_enabled = True\<rparr>, \<lparr>layer_id = 1, layer_name = ''b'', layer_parent = Some 0, layer_enabled = False\<rparr>], current_layer_id = Some 1, next_layer_id = 2, mirror_configured = True, selected_layers = [0, 1], emitted = [], infos_shown = 0\<rparr>" by (simp add: toggle_checked_def enabled_balance_def find_layer_def)
  have h1: "selected_layers \<lparr>has_skin_cluster = True, layers_available = True, layer_list = [\<lparr>layer_id = 0, layer_name = ''a'', layer_parent = None, layer_enabled = True\<rparr>, \<lparr>layer_id = 1, layer_name = ''b'', layer_parent = Some 0, layer_enabled = False\<rparr>], current_layer_id = Some 1, next_layer_id = 2, mirror_configured = True, selected_layers = [0, 1], emitted = [], infos_shown = 0\<rparr> \<noteq> []" by simp
  have h2: "\<forall>i \<in> set (selected_layers \<lparr>has_skin_cluster = True, layers_available = True, layer_list = [\<lparr>layer_id = 0, layer_name = ''a'', layer_parent = None, layer_enabled = True\<rparr>, \<lparr>layer_id = 1, layer_name = ''b'', layer_parent = Some 0, layer_enabled = False\<rparr>], current_layer_id = Some 1, next_layer_id = 2, mirror_configured = True, selected_layers = [0, 1], emitted = [], infos_shown = 0\<rparr>). find_layer \<lparr>has_skin_cluster = True, layers_available = True, layer_list = [\<lparr>layer_id = 0, layer_name = ''a'', layer_parent = None, layer_enabled = True\<rparr>, \<lparr>layer_id = 1, layer_name = ''b'', layer_parent = Some 0, layer_enabled = False\<rparr>], current_layer_id = Some 1, next_layer_id = 2, mirror_configured = True, selected_layers = [0, 1], emitted = [], infos_shown = 0\<rparr> i \<noteq> None" by (simp add: find_layer_def)
  from toggle_run_flips_checked [OF h1 h2] obtain st' where
    "toggle_run \<lparr>has_skin_cluster = True, layers_available = True, layer_list = [\<lparr>layer_id = 0, layer_name = ''a'', layer_parent = None, layer_enabled = True\<rparr>, \<lparr>layer_id = 1, layer_name = ''b'', layer_parent = Some 0, layer_enabled = False\<rparr>], current_layer_id = Some 1, next_layer_id = 2, mirror_configured = True, selected_layers = [0, 1], emitted = [], infos_shown = 0\<rparr> = Done st'" "toggle_checked st' = (\<not> toggle_checked \<lparr>has_skin_cluster = True, layers_available = True, layer_list = [\<lparr>layer_id = 0, layer_name = ''a'', layer_parent = None, layer_enabled = True\<rparr>, \<lparr>layer_id = 1, layer_name = ''b'', layer_parent = Some 0, layer_enabled = False\<rparr>], current_layer_id = Some 1, next_layer_id = 2, mirror_configured = True, selected_layers = [0, 1], emitted = [], infos_shown = 0\<rparr>)"
    "emitted st' = emitted \<lparr>has_skin_cluster = True, layers_available = True, layer_list = [\<lparr>layer_id = 0, layer_name = ''a'', layer_parent = None, layer_enabled = True\<rparr>, \<lparr>layer_id = 1, layer_name = ''b'', layer_parent = Some 0, layer_enabled = False\<rparr>], current_layer_id = Some 1, next_layer_id = 2, mirror_configured = True, selected_layers = [0, 1], emitted = [], infos_shown = 0\<rparr> @ [LayerListChanged]" by blast
  then show ?thesis using c by auto
qed

theorem toggle_run_raises_midway_witness:
  "\<exists>s. toggle_run \<lparr>has_skin_cluster = True, layers_available = True, layer_list = [\<lparr>layer_id = 0, layer_name = ''a'', layer_parent = None, layer_enabled = True\<rparr>, \<lparr>layer_id = 1, layer_name = ''b'', layer_parent = Some 0, layer_enabled = False\<rparr>], current_layer_id = Some 1, next_layer_id = 2, mirror_configured = True, selected_layers = [0, 5], emitted = [], infos_shown = 0\<rparr> = Raised (InvalidLayer 5) s
       \<and> (\<exists>l. find_layer s 0 = Some l \<and> \<not> layer_enabled l) \<and> emitted s = []"
proof -
  have c: "toggle_checked \<lparr>has_skin_cluster = True, layers_available = True, layer_list = [\<lparr>layer_id = 0, layer_name = ''a'', layer_parent = None, layer_enabled = True\<rparr>, \<lparr>layer_id = 1, layer_name = ''b'', layer_parent = Some 0, layer_enabled = False\<rparr>], current_layer_id = Some 1, next_layer_id = 2, mirror_configured = True, selected_layers = [0, 5], emitted = [], infos_shown = 0\<rparr>" by (simp add: toggle_checked_def enabled_balance_def find_layer_def)
  have h1: "selected_layers \<lparr>has_skin_cluster = True, layers_available = True, layer_list = [\<lparr>layer_id = 0, layer_name = ''a'', layer_parent = None, layer_enabled = True\<rparr>, \<lparr>layer_id = 1, layer_name = ''b'', layer_parent = Some 0, layer_enabled = False\<rparr>], current_layer_id = Some 1, next_layer_id = 2, mirror_configured = True, selected_layers = [0, 5], emitted = [], infos_shown = 0\<rparr> = [0] @ 5 # []" by simp
  have h2: "\<forall>j \<in> set [0]. find_layer \<lparr>has_skin_cluster = True, layers_available = True, layer_list = [\<lparr>layer_id = 0, layer_name = ''a'', layer_parent = None, layer_enabled = True\<rparr>, \<lparr>layer_id = 1, layer_name = ''b'', layer_parent = Some 0, layer_enabled = False\<rparr>], current_layer_id = Some 1, next_layer_id = 2, mirror_configured = True, selected_layers = [0, 5], emitted = [], infos_shown = 0\<rparr> j \<noteq> None" by (simp add: find_layer_def)
  have h3: "find_layer \<lparr>has_skin_cluster = True, layers_available = True, layer_list = [\<lparr>layer_id = 0, layer_name = ''a'', layer_parent = None, layer_enabled = True\<rparr>, \<lparr>layer_id = 1, layer_name = ''b'', layer_parent = Some 0, layer_enabled = False\<rparr>], current_layer_id = Some 1, next_layer_id = 2, mirror_configured = True, selected_layers = [0, 5], emitted = [], infos_shown = 0\<rparr> 5 = None" by (simp add: find_layer_def)
  from toggle_run_raises_midway [OF h1 h2 h3] obtain s where
    "toggle_run \<lparr>has_skin_cluster = True, layers_available = True, layer_list = [\<lparr>layer_id = 0, layer_name = ''a'', layer_parent = None, layer_enabled = True\<rparr>, \<lparr>layer_id = 1, layer_name = ''b'', layer_parent = Some 0, layer_enabled = False\<rparr>], current_layer_id = Some 1, next_layer_id = 2, mirror_configured = True, selected_layers = [0, 5], emitted = [], infos_shown = 0\<rparr> = Raised (InvalidLayer 5) s"
    "\<forall>j \<in> set [0]. \<exists>l. find_layer s j = Some l \<and> layer_enabled l = (\<not> toggle_checked \<lparr>has_skin_cluster = True, layers_available = True, layer_list = [\<lparr>layer_id = 0, layer_name = ''a'', layer_parent = None, layer_enabled = True\<rparr>, \<lparr>layer_id = 1, layer_name = ''b'', layer_parent = Some 0, layer_enabled = False\<rparr>], current_layer_id = Some 1, next_layer_id = 2, mirror_configured = True, selected_layers = [0, 5], emitted = [], infos_shown = 0\<rparr>)"
    "emitted s = emitted \<lparr>has_skin_cluster = True, layers_available = True, layer_list = [\<lparr>layer_id = 0, layer_name = ''a'', layer_parent = None, layer_enabled = True\<rparr>, \<lparr>layer_id = 1, layer_name = ''b'', layer_parent = Some 0, layer_enabled = False\<rparr>], current_layer_id = Some 1, next_layer_id = 2, mirror_configured = True, selected_layers = [0, 5], emitted = [], infos_shown = 0\<rparr>" by blast
  then show ?thesis using c by auto
qed

theorem addLayer_spec_witness:
  "layers_wf \<lparr>has_skin_cluster = True, layers_available = True, layer_list = [\<lparr>layer_id = 0, layer_name = ''a'', layer_parent = None, layer_enabled = True\<rparr>, \<lparr>layer_id = 1, layer_name = ''b'', layer_parent = Some 0, layer_enabled = False\<rparr>], current_layer_id = Some 1, next_layer_id = 2, mirror_configured = True, selected_layers = [0, 1], emitted = [], infos_shown = 0\<rparr> \<and> current_layer_id (fst (addLayer ''c'' \<lparr>has_skin_cluster = True, layers_available = True, layer_list = [\<lparr>layer_id = 0, layer_name = ''a'', layer_parent = None, layer_enabled = True\<rparr>, \<lparr>layer_id = 1, layer_name = ''b'', layer_parent = Some 0, layer_enabled = False\<rparr>], current_layer_id = Some 1, next_layer_id = 2, mirror_configured = True, selected_layers = [0, 1], emitted = [], infos_shown = 0\<rparr>)) = Some 2
   \<and> find_layer (fst (addLayer ''c'' \<lparr>has_skin_cluster = True, layers_available = True, layer_list = [\<lparr>layer_id = 0, layer_name = ''a'', layer_parent = None, layer_enabled = True\<rparr>, \<lparr>layer_id = 1, layer_name = ''b'', layer_parent = Some 0, layer_enabled = False\<rparr>], current_layer_id = Some 1, next_layer_id = 2, mirror_configured = True, selected_layers = [0, 1], emitted = [], infos_shown = 0\<rparr>)) 2 = Some \<lparr>layer_id = 2, layer_name = ''c'', layer_parent = Some 0, layer_enabled = True\<rparr>"
proof -
  have wf: "layers_wf \<lparr>has_skin_cluster = True, layers_available = True, layer_list = [\<lparr>layer_id = 0, layer_name = ''a'', layer_parent = None, layer_enabled = True\<rparr>, \<lparr>layer_id = 1, layer_name = ''b'', layer_parent = Some 0, layer_enabled = False\<rparr>], current_layer_id = Some 1, next_layer_id = 2, mirror_configured = True, selected_layers = [0, 1], emitted = [], infos_shown = 0\<rparr>" by (simp add: layers_wf_def)
  have a: "addLayer ''c'' \<lparr>has_skin_cluster = True, layers_available = True, layer_list = [\<lparr>layer_id = 0, layer_name = ''a'', layer_parent = None, layer_enabled = True\<rparr>, \<lparr>layer_id = 1, layer_name = ''b'', layer_parent = Some 0, layer_enabled = False\<rparr>], current_layer_id = Some 1, next_layer_id = 2, mirror_configured = True, selected_layers = [0, 1], emitted = [], infos_shown = 0\<rparr> = (fst (addLayer ''c'' \<lparr>has_skin_cluster = True, layers_available = True, layer_list = [\<lparr>layer_id = 0, layer_name = ''a'', layer_parent = None, layer_enabled = True\<rparr>, \<lparr>layer_id = 1, layer_name = ''b'', layer_parent = Some 0, layer_enabled = False\<rparr>], current_layer_id = Some 1, next_layer_id = 2, mirror_configured = True, selected_layers = [0, 1], emitted = [], infos_shown = 0\<rparr>), 2)"
    by (simp add: addLayer_def api_add_layer_def Let_def setCurrentLayer_def emit_def)
  have gp: "guessParent \<lparr>has_skin_cluster = True, layers_available = True, layer_list = [\<lparr>layer_id = 0, layer_name = ''a'', layer_parent = None, layer_enabled = True\<rparr>, \<lparr>layer_id = 1, layer_name = ''b'', layer_parent = Some 0, layer_enabled = False\<rparr>], current_layer_id = Some 1, next_layer_id = 2, mirror_configured = True, selected_layers = [0, 1], emitted = [], infos_shown = 0\<rparr> = Some 0" by (simp add: guessParent_def find_layer_def num_children_def)
  from addLayer_spec [OF wf a] have
    "current_layer_id (fst (addLayer ''c'' \<lparr>has_skin_cluster = True, layers_available = True, layer_list = [\<lparr>layer_id = 0, layer_name = ''a'', layer_parent = None, layer_enabled = True\<rparr>, \<lparr>layer_id = 1, layer_name = ''b'', layer_parent = Some 0, layer_enabled = False\<rparr>], current_layer_id = Some 1, next_layer_id = 2, mirror_configured = True, selected_layers = [0, 1], emitted = [], infos_shown = 0\<rparr>)) = Some 2"
    "find_layer (fst (addLayer ''c'' \<lparr>has_skin_cluster = True, layers_available = True, layer_list = [\<lparr>layer_id = 0, layer_name = ''a'', layer_parent = None, layer_enabled = True\<rparr>, \<lparr>layer_id = 1, layer_name = ''b'', layer_parent = Some 0, layer_enabled = False\<rparr>], current_layer_id = Some 1, next_layer_id = 2, mirror_configured = True, selected_layers = [0, 1], emitted = [], infos_shown = 0\<rparr>)) 2 = Some \<lparr>layer_id = 2, layer_name = ''c'', layer_parent = guessParent \<lparr>has_skin_cluster = True, layers_available = True, layer_list = [\<lparr>layer_id = 0, layer_name = ''a'', layer_parent = None, layer_enabled = True\<rparr>, \<lparr>layer_id = 1, layer_name = ''b'', layer_parent = Some 0, layer_enabled = False\<rparr>], current_layer_id = Some 1, next_layer_id = 2, mirror_configured = True, selected_layers = [0, 1], emitted = [], infos_shown = 0\<rparr>, layer_enabled = True\<rparr>"
    by blast+
  then show ?thesis using wf gp by simp
qed

theorem initializeLayers_spec_witness:
  "getCurrentLayer (initializeLayers True False \<lparr>has_skin_cluster = True, layers_available = False, layer_list = [\<lparr>layer_id = 0, layer_name = ''a'', layer_parent = None, layer_enabled = True\<rparr>, \<lparr>layer_id = 1, layer_name = ''b'', layer_parent = Some 0, layer_enabled = False\<rparr>], current_layer_id = Some 1, next_layer_id = 2, mirror_configured = True, selected_layers = [], emitted = [], infos_shown = 0\<rparr>) =
     Some \<lparr>layer_id = 2, layer_name = base_layer_name, layer_parent = None, layer_enabled = True\<rparr>"
proof -
  have h: "\<not> layers_available \<lparr>has_skin_cluster = True, layers_available = False, layer_list = [\<lparr>layer_id = 0, layer_name = ''a'', layer_parent = None, layer_enabled = True\<rparr>, \<lparr>layer_id = 1, layer_name = ''b'', layer_parent = Some 0, layer_enabled = False\<rparr>], current_layer_id = Some 1, next_layer_id = 2, mirror_configured = True, selected_layers = [], emitted = [], infos_shown = 0\<rparr>" by simp
  from initializeLayers_spec [of _ _ True False "\<lparr>has_skin_cluster = True, layers_available = False, layer_list = [\<lparr>layer_id = 0, layer_name = ''a'', layer_parent = None, layer_enabled = True\<rparr>, \<lparr>layer_id = 1, layer_name = ''b'', layer_parent = Some 0, layer_enabled = False\<rparr>], current_layer_id = Some 1, next_layer_id = 2, mirror_configured = True, selected_layers = [], emitted = [], infos_shown = 0\<rparr>"] h show ?thesis by simp
qed

theorem randomize_colors_spec_witness:
  "palette [(0.5, 0, 0), (1, 1, 1), (0, 0, 0)] \<noteq> []
   \<and> (\<exists>d. randomize_colors True [(0.5, 0, 0), (1, 1, 1), (0, 0, 0)] (\<lambda>_. 0) [3, 5] = Inr (Some d)
          \<and> dom (map_of d) = {3, 5})
   \<and> randomize_colors True [(1, 1, 1)] (\<lambda>_. 0) [3] = Inl IndexError"
proof -
  have p1: "palette [(0.5, 0, 0), (1, 1, 1), (0, 0, 0)] \<noteq> []" by (simp add: palette_def color_filter_def)
  have p2: "palette [(1, 1, 1)] = []" by (simp add: palette_def color_filter_def)
  have s1: "\<exists>d. randomize_colors True [(0.5, 0, 0), (1, 1, 1), (0, 0, 0)] (\<lambda>_. 0) [3, 5] = Inr (Some d)
          \<and> dom (map_of d) = set [3, 5]"
    using randomize_colors_spec [of "[(0.5, 0, 0), (1, 1, 1), (0, 0, 0)]" "\<lambda>_. 0" "[3, 5]"] p1 by blast
  have s2: "randomize_colors True [(1, 1, 1)] (\<lambda>_. 0) [3] = Inl IndexError"
    using randomize_colors_spec [of "[(1, 1, 1)]" "\<lambda>_. 0" "[3]"] p2 by blast
  show ?thesis using p1 s1 s2 by simp
qed


end
