(* ===== verification/CustomNodeRemoval.thy ===== *)
theory CustomNodeRemoval
  imports Prelude
begin

text \<open>
  \<open>operations/removeLayerData.py\<close>: removing the plugin's custom nodes from the scene
  or from the selected meshes. The Maya scene is a record: its nodes with their types in
  scene order (what \<open>cmds.ls(type=...)\<close> and \<open>cmds.nodeType\<close> read), the
  skin cluster \<open>target_info.get_related_skin_cluster\<close> finds for a mesh, the
  downstream history \<open>cmds.listHistory(..., future=True, levels=1)\<close> returns, the
  selection, whether the paint tool is active, the dialogs shown and the number of
  \<open>targetChanged\<close> emissions. A dialog's answer is a parameter.
\<close>

datatype message =
  MsgSceneNoCustomNodes | MsgSelectionNoCustomNodes | MsgSceneWarning | MsgSelectionWarning

datatype dialog = InfoDialog message | YesNoDialog message

record scene =
  scene_nodes :: "(string \<times> string) list"
  related_skin :: "string \<Rightarrow> string option"
  future_history :: "string \<Rightarrow> string list option"
  selection :: "string list option"
  painting :: bool
  current_tool :: string
  dialogs :: "dialog list"
  target_changed :: nat

definition as_list :: "'a list option \<Rightarrow> 'a list" where
  "as_list arg = (case arg of None \<Rightarrow> [] | Some xs \<Rightarrow> xs)"

definition customNodeTypes :: "string list" where
  "customNodeTypes = [''ngst2MeshDisplay'', ''ngst2SkinLayerData'']"

definition ls_type :: "scene \<Rightarrow> string \<Rightarrow> string list" where
  "ls_type sc t = map fst (filter (\<lambda>nt. snd nt = t) (scene_nodes sc))"

definition node_type :: "scene \<Rightarrow> string \<Rightarrow> string" where
  "node_type sc n = (case map_of (scene_nodes sc) n of None \<Rightarrow> [] | Some t \<Rightarrow> t)"

definition list_custom_nodes :: "scene \<Rightarrow> string list" where
  "list_custom_nodes sc = concat (map (\<lambda>t. as_list (Some (ls_type sc t))) customNodeTypes)"

definition list_custom_nodes_for_mesh :: "scene \<Rightarrow> string \<Rightarrow> string list" where
  "list_custom_nodes_for_mesh sc mesh =
     (case related_skin sc mesh of
        None \<Rightarrow> []
      | Some skin_cluster \<Rightarrow>
          filter (\<lambda>i. node_type sc i \<in> set customNodeTypes) (as_list (future_history sc skin_cluster)))"

definition list_custom_nodes_for_meshes :: "scene \<Rightarrow> string list \<Rightarrow> string list" where
  "list_custom_nodes_for_meshes sc meshes = concat (map (list_custom_nodes_for_mesh sc) meshes)"

definition delete_nodes :: "string list \<Rightarrow> scene \<Rightarrow> scene" where
  "delete_nodes ns sc = sc\<lparr>scene_nodes := filter (\<lambda>nt. fst nt \<notin> set ns) (scene_nodes sc)\<rparr>"

text \<open>\<open>remove_custom_nodes\<close> (lines 58--96). \<open>meshes = None\<close> and \<open>[]\<close> both mean
  the whole scene. Setting the tool to Move ends painting.\<close>

definition remove_custom_nodes :: "bool \<Rightarrow> bool \<Rightarrow> string list option \<Rightarrow> bool \<Rightarrow> scene \<Rightarrow> scene" where
  "remove_custom_nodes interactive has_session meshes_opt answer sc =
     (let meshes = as_list meshes_opt;
          is_selection_mode = length meshes > 0;
          custom_nodes = (if \<not> is_selection_mode then list_custom_nodes sc
                          else list_custom_nodes_for_meshes sc meshes)
      in if custom_nodes = [] then
           (if interactive
            then sc\<lparr>dialogs := dialogs sc @ [InfoDialog (if is_selection_mode then MsgSelectionNoCustomNodes
                                                         else MsgSceneNoCustomNodes)]\<rparr>
            else sc)
         else
           (let sc1 = (if interactive
                       then sc\<lparr>dialogs := dialogs sc @ [YesNoDialog (if is_selection_mode then MsgSelectionWarning
                                                                    else MsgSceneWarning)]\<rparr>
                       else sc);
                delete_confirmed = (if interactive then answer else True);
                sc2 = (if delete_confirmed then delete_nodes custom_nodes sc1 else sc1);
                sc3 = (if painting sc2 then sc2\<lparr>current_tool := ''Move'', painting := False\<rparr> else sc2)
            in if has_session then sc3\<lparr>target_changed := Suc (target_changed sc3)\<rparr> else sc3))"

definition remove_custom_nodes_from_selection :: "bool \<Rightarrow> bool \<Rightarrow> bool \<Rightarrow> scene \<Rightarrow> scene" where
  "remove_custom_nodes_from_selection interactive has_session answer sc =
     remove_custom_nodes interactive has_session (Some (as_list (selection sc))) answer sc"


subsection \<open>Lemmas\<close>

lemma custom_node_listed:
  assumes "nt \<in> set (scene_nodes sc)" "snd nt \<in> set customNodeTypes"
  shows "fst nt \<in> set (list_custom_nodes sc)"
  using assms by (force simp: list_custom_nodes_def ls_type_def as_list_def)

lemma scene_nodes_remove_scene_wide:
  "scene_nodes (remove_custom_nodes interactive hs None answer sc) =
     (if list_custom_nodes sc \<noteq> [] \<and> (\<not> interactive \<or> answer)
      then filter (\<lambda>nt. fst nt \<notin> set (list_custom_nodes sc)) (scene_nodes sc)
      else scene_nodes sc)"
  by (simp add: remove_custom_nodes_def Let_def as_list_def delete_nodes_def)

text \<open>C40. "Remove from selection" with nothing selected is the scene-wide removal: the
  empty mesh list selects scene mode, so, unless the user declines, no node of a custom
  type is left anywhere in the scene.\<close>
theorem remove_from_empty_selection_is_scene_wide:
  assumes "as_list (selection sc) = []" "\<not> interactive \<or> answer"
  shows "\<forall>nt \<in> set (scene_nodes (remove_custom_nodes_from_selection interactive hs answer sc)).
           snd nt \<notin> set customNodeTypes"
proof
  fix nt
  assume m: "nt \<in> set (scene_nodes (remove_custom_nodes_from_selection interactive hs answer sc))"
  have eq: "remove_custom_nodes_from_selection interactive hs answer sc = remove_custom_nodes interactive hs None answer sc"
    using assms(1) by (simp add: remove_custom_nodes_from_selection_def remove_custom_nodes_def as_list_def)
  show "snd nt \<notin> set customNodeTypes"
  proof
    assume c: "snd nt \<in> set customNodeTypes"
    show False
    proof (cases "list_custom_nodes sc = []")
      case True
      have "nt \<in> set (scene_nodes sc)" using m True by (simp add: eq scene_nodes_remove_scene_wide)
      then show False using custom_node_listed [OF _ c, of sc] True by simp
    next
      case False
      then have "nt \<in> set (scene_nodes sc)" "fst nt \<notin> set (list_custom_nodes sc)"
        using m assms(2) by (simp_all add: eq scene_nodes_remove_scene_wide)
      then show False using custom_node_listed [OF _ c] by blast
    qed
  qed
qed

lemma remove_custom_nodes_declined:
  assumes "as_list meshes \<noteq> []" "list_custom_nodes_for_meshes sc (as_list meshes) \<noteq> []"
  shows "scene_nodes (remove_custom_nodes True hs meshes False sc) = scene_nodes sc
         \<and> \<not> painting (remove_custom_nodes True hs meshes False sc)
         \<and> target_changed (remove_custom_nodes True hs meshes False sc) = target_changed sc + (if hs then 1 else 0)
         \<and> dialogs (remove_custom_nodes True hs meshes False sc) = dialogs sc @ [YesNoDialog MsgSelectionWarning]"
  using assms by (simp add: remove_custom_nodes_def Let_def)

subsection \<open>Witnesses\<close>

theorem remove_from_empty_selection_is_scene_wide_witness:
  "as_list (selection \<lparr>scene_nodes = [(''skinCluster1'', ''skinCluster''), (''ngst2SkinLayerData1'', ''ngst2SkinLayerData''),
        (''ngst2MeshDisplay1'', ''ngst2MeshDisplay'')], related_skin = (\<lambda>_. None), future_history = (\<lambda>_. None),
        selection = None, painting = True, current_tool = ''ngst2Paint'', dialogs = [], target_changed = 0\<rparr>) = []
   \<and> ''ngst2SkinLayerData'' \<notin> snd ` set (scene_nodes (remove_custom_nodes_from_selection True True True
        \<lparr>scene_nodes = [(''skinCluster1'', ''skinCluster''), (''ngst2SkinLayerData1'', ''ngst2SkinLayerData''),
        (''ngst2MeshDisplay1'', ''ngst2MeshDisplay'')], related_skin = (\<lambda>_. None), future_history = (\<lambda>_. None),
        selection = None, painting = True, current_tool = ''ngst2Paint'', dialogs = [], target_changed = 0\<rparr>))"
proof -
  have h: "as_list (selection \<lparr>scene_nodes = [(''skinCluster1'', ''skinCluster''), (''ngst2SkinLayerData1'', ''ngst2SkinLayerData''),
        (''ngst2MeshDisplay1'', ''ngst2MeshDisplay'')], related_skin = (\<lambda>_. None), future_history = (\<lambda>_. None),
        selection = None, painting = True, current_tool = ''ngst2Paint'', dialogs = [], target_changed = 0\<rparr>) = []"
    by (simp add: as_list_def)
  have c: "''ngst2SkinLayerData'' \<in> set customNodeTypes" by (simp add: customNodeTypes_def)
  show ?thesis using remove_from_empty_selection_is_scene_wide [OF h, of True True] h c by force
qed

end
