(* ===== verification/ToolActions.thy ===== *)
theory ToolActions
  imports Complex_Main Prelude
begin

text \<open>
  The tool actions of \<open>operations/tools.py\<close>. Each action runs its handler only in an
  active session and is enabled while layers exist and a layer is current (and, for
  merging, the layer is not the bottom one). The handlers call the plugin's API
  (\<open>ngSkinTools2.api\<close>, outside \<open>src/\<close>): the model records those calls, in order,
  as \<open>api_call\<close> values, with the events emitted, the information dialogs shown and
  the Maya selection. A layer carries what the handlers read: its id, index, paint
  targets, paint target and \<open>get_weights\<close> (an absent weight list is \<open>[]\<close>).
\<close>

datatype tool_event = ToolLayerListChanged | ToolCurrentLayerChanged | InfluencesListUpdated

datatype api_call =
    AddLayerCall
  | AssignFromClosestJoint nat "nat list option"
  | UnifyWeights nat real bool
  | MergeLayers "nat list"
  | DuplicateLayer nat
  | FillTransparency nat
  | CopyComponentWeights nat
  | PasteAverageComponentWeights nat
  | AddInfluences "string list" string

record tool_layer =
  tl_id :: nat
  tl_index :: nat
  tl_paint_targets :: "nat list"
  tl_paint_target :: "nat option"
  tl_weights :: "nat \<Rightarrow> real list"

record tool_state =
  ts_calls :: "api_call list"
  ts_events :: "tool_event list"
  ts_infos :: nat
  ts_selection :: "string list"

definition call :: "api_call \<Rightarrow> tool_state \<Rightarrow> tool_state" where
  "call c st = st\<lparr>ts_calls := ts_calls st @ [c]\<rparr>"

definition emit_tool :: "tool_event list \<Rightarrow> tool_state \<Rightarrow> tool_state" where
  "emit_tool es st = st\<lparr>ts_events := ts_events st @ es\<rparr>"

text \<open>\<open>__create_tool_action__\<close> (lines 16--40): the guard of \<open>execute\<close> and the
  enabled state computed by \<open>update_state\<close>.\<close>

definition tool_execute :: "bool \<Rightarrow> ('s \<Rightarrow> 's) \<Rightarrow> 's \<Rightarrow> 's" where
  "tool_execute active exec_handler s = (if \<not> active then s else exec_handler s)"

definition tool_action_enabled ::
  "bool \<Rightarrow> tool_layer option \<Rightarrow> (tool_layer \<Rightarrow> bool) option \<Rightarrow> bool" where
  "tool_action_enabled layers_available current enabled_handler =
     (case current of
        None \<Rightarrow> False
      | Some l \<Rightarrow> layers_available \<and> (case enabled_handler of None \<Rightarrow> True | Some h \<Rightarrow> h l))"

text \<open>\<open>create_action__from_closest_joint.exec_handler\<close> (lines 52--75). The options
  are \<open>create_new_layer\<close> and \<open>all_influences\<close>; \<open>new_layer\<close> is the layer
  \<open>layers.addLayer()\<close> returns and \<open>used\<close> what \<open>get_used_influences\<close>
  returns after the assignment. The result is the layer the handler ends with.\<close>

definition closest_joint_exec ::
  "bool \<Rightarrow> bool \<Rightarrow> tool_layer \<Rightarrow> tool_layer \<Rightarrow> (tool_layer \<Rightarrow> nat list) \<Rightarrow> tool_state
   \<Rightarrow> tool_layer \<times> tool_state" where
  "closest_joint_exec create_new_layer all_influences layer new_layer used st =
     (let influences = (if \<not> all_influences then Some (tl_paint_targets layer) else None)
      in if \<not> all_influences \<and> tl_paint_targets layer = [] then (layer, st\<lparr>ts_infos := Suc (ts_infos st)\<rparr>)
         else
           (let (layer1, st1) = (if create_new_layer then (new_layer, call AddLayerCall st) else (layer, st));
                st2 = emit_tool [ToolCurrentLayerChanged, InfluencesListUpdated]
                        (call (AssignFromClosestJoint (tl_id layer1) influences) st1);
                layer2 = (if tl_paint_target layer1 = None \<and> used layer1 \<noteq> []
                          then layer1\<lparr>tl_paint_target := Some (Min (set (used layer1)))\<rparr> else layer1)
            in (layer2, st2)))"

definition unify_weights_exec :: "real \<Rightarrow> bool \<Rightarrow> tool_layer \<Rightarrow> tool_state \<Rightarrow> tool_state" where
  "unify_weights_exec overall_effect single_cluster_mode layer st =
     call (UnifyWeights (tl_id layer) overall_effect single_cluster_mode) st"

definition merge_layers_exec :: "tool_layer list \<Rightarrow> tool_state \<Rightarrow> tool_state" where
  "merge_layers_exec selected st =
     emit_tool [ToolLayerListChanged, ToolCurrentLayerChanged] (call (MergeLayers (map tl_id selected)) st)"

definition merge_enabled :: "tool_layer \<Rightarrow> bool" where
  "merge_enabled layer = (tl_index layer > 0)"

definition for_each_layer :: "(nat \<Rightarrow> api_call) \<Rightarrow> tool_layer list \<Rightarrow> tool_state \<Rightarrow> tool_state" where
  "for_each_layer f selected st = fold (\<lambda>l. call (f (tl_id l))) selected st"

definition duplicate_layer_exec :: "tool_layer list \<Rightarrow> tool_state \<Rightarrow> tool_state" where
  "duplicate_layer_exec selected st =
     emit_tool [ToolLayerListChanged, ToolCurrentLayerChanged] (for_each_layer DuplicateLayer selected st)"

definition fill_transparency_exec :: "tool_layer list \<Rightarrow> tool_state \<Rightarrow> tool_state" where
  "fill_transparency_exec selected st = for_each_layer FillTransparency selected st"

definition copy_component_weights_exec :: "tool_layer list \<Rightarrow> tool_state \<Rightarrow> tool_state" where
  "copy_component_weights_exec selected st = for_each_layer CopyComponentWeights selected st"

definition paste_average_exec :: "tool_layer list \<Rightarrow> tool_state \<Rightarrow> tool_state" where
  "paste_average_exec selected st = for_each_layer PasteAverageComponentWeights selected st"

text \<open>\<open>create_action__add_influences.exec_handler\<close> (lines 230--237): the last
  selected node is the skin target, the others are the influences to add.\<close>

definition add_influences_exec :: "tool_state \<Rightarrow> tool_state" where
  "add_influences_exec st =
     (let selection = ts_selection st
      in if length selection < 2 then st
         else emit_tool [InfluencesListUpdated]
                ((call (AddInfluences (butlast selection) (last selection)) st)\<lparr>ts_selection := [last selection]\<rparr>))"

text \<open>\<open>"%d" % n\<close>: the decimal digits of a natural number.\<close>

fun nat_str :: "nat \<Rightarrow> string" where
  "nat_str n = (if n < 10 then [char_of (48 + n)] else nat_str (n div 10) @ [char_of (48 + n mod 10)])"

definition vtx_name :: "string \<Rightarrow> nat \<Rightarrow> string" where
  "vtx_name mesh k = mesh @ ''.vtx['' @ nat_str k @ '']''"

text \<open>\<open>[sum(i) for i in zip(*ws)]\<close> for a non-empty list of weight lists: one sum per
  index below the shortest length.\<close>

definition combined_weights :: "real list list \<Rightarrow> real list" where
  "combined_weights ws = map (\<lambda>k. sum_list (map (\<lambda>w. w ! k) ws)) [0..<Min (set (map length ws))]"

text \<open>\<open>create_action__select_affected_vertices.exec_handler\<close> (lines 254--288):
  \<open>current_selection\<close> is \<open>cmds.ls(sl=True, o=True, l=True)\<close>; the final
  \<open>cmds.select\<close> replaces the selection.\<close>

definition select_affected_vertices_exec ::
  "tool_layer list \<Rightarrow> tool_layer option \<Rightarrow> string list \<Rightarrow> tool_state \<Rightarrow> tool_state" where
  "select_affected_vertices_exec selected_layers current current_selection st =
     (if selected_layers = [] then st
      else case current of
        None \<Rightarrow> st
      | Some cl \<Rightarrow>
          (let influences = tl_paint_targets cl
           in if influences = [] then st
              else
                (let non_zero_weights =
                       concat (map (\<lambda>layer. filter (\<lambda>w. w \<noteq> []) (map (tl_weights layer) influences)) selected_layers)
                 in if non_zero_weights = [] then st
                    else if length current_selection \<noteq> 1 then st
                    else
                      (let mesh = hd current_selection;
                           combined = combined_weights non_zero_weights;
                           indexes = map (vtx_name mesh) (filter (\<lambda>k. combined ! k > 0.00001) [0..<length combined])
                       in st\<lparr>ts_selection := indexes\<rparr>))))"



subsection \<open>The actions\<close>

text \<open>The nine \<open>create_action__*\<close> factories (lines 49--296), each of which hands
  its \<open>exec_handler\<close> and, for merge only, its \<open>enabled_handler\<close> to
  \<open>__create_tool_action__\<close>.\<close>

datatype tool_action =
    ActClosestJoint | ActUnifyWeights | ActMergeLayers | ActDuplicateLayer | ActFillTransparency
  | ActCopyComponentWeights | ActPasteAverage | ActAddInfluences | ActSelectAffectedVertices

definition tool_enabled_handler :: "tool_action \<Rightarrow> (tool_layer \<Rightarrow> bool) option" where
  "tool_enabled_handler a = (case a of ActMergeLayers \<Rightarrow> Some merge_enabled | _ \<Rightarrow> None)"

text \<open>What the handlers read from the session: whether it is active, the current layer,
  the selected layers, the options of the two option objects, the layer \<open>addLayer\<close>
  returns, the used influences, and \<open>cmds.ls(sl=True, o=True, l=True)\<close>.\<close>

record tool_session =
  tsn_active :: bool
  tsn_layers_available :: bool
  tsn_current :: "tool_layer option"
  tsn_selected :: "tool_layer list"
  cj_create_new_layer :: bool
  cj_all_influences :: bool
  uw_overall_effect :: real
  uw_single_cluster_mode :: bool
  tsn_new_layer :: tool_layer
  tsn_used :: "tool_layer \<Rightarrow> nat list"
  tsn_object_selection :: "string list"

text \<open>Each factory's \<open>exec_handler\<close> on a session whose current layer is \<open>l\<close>;
  the result is the current layer afterwards (only the closest-joint tool changes it) and
  the state.\<close>

definition tool_exec_handler ::
  "tool_session \<Rightarrow> tool_action \<Rightarrow> tool_layer \<Rightarrow> tool_state \<Rightarrow> tool_layer \<times> tool_state" where
  "tool_exec_handler sn a l st =
     (let sel = tsn_selected sn
      in case a of
        ActClosestJoint \<Rightarrow>
          closest_joint_exec (cj_create_new_layer sn) (cj_all_influences sn) l (tsn_new_layer sn) (tsn_used sn) st
      | ActUnifyWeights \<Rightarrow> (l, unify_weights_exec (uw_overall_effect sn) (uw_single_cluster_mode sn) l st)
      | ActMergeLayers \<Rightarrow> (l, merge_layers_exec sel st)
      | ActDuplicateLayer \<Rightarrow> (l, duplicate_layer_exec sel st)
      | ActFillTransparency \<Rightarrow> (l, fill_transparency_exec sel st)
      | ActCopyComponentWeights \<Rightarrow> (l, copy_component_weights_exec sel st)
      | ActPasteAverage \<Rightarrow> (l, paste_average_exec sel st)
      | ActAddInfluences \<Rightarrow> (l, add_influences_exec st)
      | ActSelectAffectedVertices \<Rightarrow> (l, select_affected_vertices_exec sel (Some l) (tsn_object_selection sn) st))"

text \<open>Triggering an action: \<open>execute\<close> (lines 23--27) runs the handler when the
  session is active. Without a current layer the handlers that read it fail:
  \<open>None.paint_targets\<close> raises (closest joint without all influences), or the plugin is
  called with \<open>None\<close> (closest joint onto the current layer, unify), whose outcome is
  outside the model; both are \<open>None\<close>. The other handlers do not read the current
  layer, and select-affected-vertices returns early.\<close>

definition run_tool_action ::
  "tool_session \<Rightarrow> tool_action \<Rightarrow> tool_state \<Rightarrow> (tool_layer option \<times> tool_state) option" where
  "run_tool_action sn a st =
     (if \<not> tsn_active sn then Some (tsn_current sn, st)
      else case tsn_current sn of
        Some l \<Rightarrow> Some (map_prod Some id (tool_exec_handler sn a l st))
      | None \<Rightarrow>
          (case a of
             ActClosestJoint \<Rightarrow>
               (if cj_all_influences sn \<and> cj_create_new_layer sn
                then Some (map_prod Some id (tool_exec_handler sn a (tsn_new_layer sn) st)) else None)
           | ActUnifyWeights \<Rightarrow> None
           | ActSelectAffectedVertices \<Rightarrow> Some (None, select_affected_vertices_exec (tsn_selected sn) None (tsn_object_selection sn) st)
           | _ \<Rightarrow> Some (None, snd (tool_exec_handler sn a (tsn_new_layer sn) st))))"

text \<open>The enabled state of each action as \<open>update_state\<close> sets it.\<close>

definition tool_enabled :: "tool_session \<Rightarrow> tool_action \<Rightarrow> bool" where
  "tool_enabled sn a = tool_action_enabled (tsn_layers_available sn) (tsn_current sn) (tool_enabled_handler a)"

subsection \<open>Lemmas\<close>

lemma of_char_digit [simp]: "d < 10 \<Longrightarrow> of_char (char_of (48 + d) :: char) = (48 + d :: nat)"
  by (simp add: of_char_of)






lemma closest_joint_paint_target:
  assumes "all_influences \<or> tl_paint_targets layer \<noteq> []"
    and "tl_paint_target (if create_new_layer then new_layer else layer) = None"
    and "used (if create_new_layer then new_layer else layer) = u # us"
  shows "tl_paint_target (fst (closest_joint_exec create_new_layer all_influences layer new_layer used st)) =
           Some (Min (set (u # us)))"
  using assms by (cases create_new_layer) (auto simp: closest_joint_exec_def Let_def)

lemma tool_enabled_current: "tool_enabled sn a \<Longrightarrow> tsn_current sn \<noteq> None"
  by (auto simp: tool_enabled_def tool_action_enabled_def split: option.splits)

text \<open>C1. The enabled state of every tool action protects its handler: when
  \<open>update_state\<close> (\<open>__create_tool_action__\<close>, lines 31--38, with the factory's
  enabled handler) shows an action enabled, triggering it runs its handler to the end; no
  handler reads a missing current layer.\<close>

theorem tool_enabled_runs:
  "tool_enabled sn a \<Longrightarrow> \<exists>l st'. run_tool_action sn a st = Some (l, st')"
  using tool_enabled_current [of sn a] by (auto simp: run_tool_action_def)

lemma merge_disabled_on_bottom_layer:
  "tsn_current sn = Some l \<Longrightarrow> tl_index l = 0 \<Longrightarrow> \<not> tool_enabled sn ActMergeLayers"
  by (simp add: tool_enabled_def tool_action_enabled_def tool_enabled_handler_def merge_enabled_def)

lemma tool_enabled_iff:
  "a \<noteq> ActMergeLayers \<Longrightarrow> tool_enabled sn a = (tsn_layers_available sn \<and> tsn_current sn \<noteq> None)"
  by (cases a) (auto simp: tool_enabled_def tool_action_enabled_def tool_enabled_handler_def split: option.splits)


subsection \<open>Witnesses\<close>

theorem tool_enabled_runs_witness:
  "tool_enabled \<lparr>tsn_active = True, tsn_layers_available = True, tsn_current = Some \<lparr>tl_id = 1, tl_index = 1, tl_paint_targets = [0], tl_paint_target = None, tl_weights = (\<lambda>i. if i = 0 then [0.5, 0, 1] else [])\<rparr>, tsn_selected = [\<lparr>tl_id = 1, tl_index = 1, tl_paint_targets = [0], tl_paint_target = None, tl_weights = (\<lambda>i. if i = 0 then [0.5, 0, 1] else [])\<rparr>], cj_create_new_layer = False, cj_all_influences = True, uw_overall_effect = 1, uw_single_cluster_mode = False, tsn_new_layer = \<lparr>tl_id = 1, tl_index = 1, tl_paint_targets = [0], tl_paint_target = None, tl_weights = (\<lambda>i. if i = 0 then [0.5, 0, 1] else [])\<rparr>, tsn_used = (\<lambda>_. [0]), tsn_object_selection = [''m'']\<rparr> ActClosestJoint
   \<and> (\<exists>l st'. run_tool_action \<lparr>tsn_active = True, tsn_layers_available = True, tsn_current = Some \<lparr>tl_id = 1, tl_index = 1, tl_paint_targets = [0], tl_paint_target = None, tl_weights = (\<lambda>i. if i = 0 then [0.5, 0, 1] else [])\<rparr>, tsn_selected = [\<lparr>tl_id = 1, tl_index = 1, tl_paint_targets = [0], tl_paint_target = None, tl_weights = (\<lambda>i. if i = 0 then [0.5, 0, 1] else [])\<rparr>], cj_create_new_layer = False, cj_all_influences = True, uw_overall_effect = 1, uw_single_cluster_mode = False, tsn_new_layer = \<lparr>tl_id = 1, tl_index = 1, tl_paint_targets = [0], tl_paint_target = None, tl_weights = (\<lambda>i. if i = 0 then [0.5, 0, 1] else [])\<rparr>, tsn_used = (\<lambda>_. [0]), tsn_object_selection = [''m'']\<rparr> ActClosestJoint \<lparr>ts_calls = [], ts_events = [], ts_infos = 0, ts_selection = []\<rparr> = Some (l, st'))"
proof -
  have h: "tool_enabled \<lparr>tsn_active = True, tsn_layers_available = True, tsn_current = Some \<lparr>tl_id = 1, tl_index = 1, tl_paint_targets = [0], tl_paint_target = None, tl_weights = (\<lambda>i. if i = 0 then [0.5, 0, 1] else [])\<rparr>, tsn_selected = [\<lparr>tl_id = 1, tl_index = 1, tl_paint_targets = [0], tl_paint_target = None, tl_weights = (\<lambda>i. if i = 0 then [0.5, 0, 1] else [])\<rparr>], cj_create_new_layer = False, cj_all_influences = True, uw_overall_effect = 1, uw_single_cluster_mode = False, tsn_new_layer = \<lparr>tl_id = 1, tl_index = 1, tl_paint_targets = [0], tl_paint_target = None, tl_weights = (\<lambda>i. if i = 0 then [0.5, 0, 1] else [])\<rparr>, tsn_used = (\<lambda>_. [0]), tsn_object_selection = [''m'']\<rparr> ActClosestJoint"
    by (simp add: tool_enabled_def tool_action_enabled_def tool_enabled_handler_def)
  show ?thesis using tool_enabled_runs [where sn = "\<lparr>tsn_active = True, tsn_layers_available = True, tsn_current = Some \<lparr>tl_id = 1, tl_index = 1, tl_paint_targets = [0], tl_paint_target = None, tl_weights = (\<lambda>i. if i = 0 then [0.5, 0, 1] else [])\<rparr>, tsn_selected = [\<lparr>tl_id = 1, tl_index = 1, tl_paint_targets = [0], tl_paint_target = None, tl_weights = (\<lambda>i. if i = 0 then [0.5, 0, 1] else [])\<rparr>], cj_create_new_layer = False, cj_all_influences = True, uw_overall_effect = 1, uw_single_cluster_mode = False, tsn_new_layer = \<lparr>tl_id = 1, tl_index = 1, tl_paint_targets = [0], tl_paint_target = None, tl_weights = (\<lambda>i. if i = 0 then [0.5, 0, 1] else [])\<rparr>, tsn_used = (\<lambda>_. [0]), tsn_object_selection = [''m'']\<rparr>" and a = ActClosestJoint and st = "\<lparr>ts_calls = [], ts_events = [], ts_infos = 0, ts_selection = []\<rparr>"] h by blast
qed


end
