(* ===== verification/MenuActions.thy ===== *)
theory MenuActions
  imports Prelude
begin

text \<open>
  The remaining menu actions: \<open>operations/import_export_actions.py\<close>,
  \<open>operations/copy_paste_actions.py\<close>, \<open>operations/paint.py\<close> and
  \<open>operations/website_links.py\<close>. Their callbacks check the session, ask a file dialog
  (whose answer is a parameter) and forward to the plugin; the model records the plugin
  calls in order (\<open>menu_call\<close>) and returns the new persistent default filter where a
  callback stores one. A lookup in \<open>format_map\<close> that misses raises \<open>KeyError\<close>.
\<close>

datatype file_format = JSON | CompressedJSON

datatype paste_operation = PasteAdd | PasteSubtract | PasteReplace

datatype menu_call =
    ExportJson string file_format
  | ImportTransfer string file_format
  | CopyWeights "nat list"
  | CutWeights "nat list"
  | PasteWeights paste_operation "nat list"
  | Flood "nat list"
  | SetToolTo string
  | StartPaintTool
  | OpenUrl string

datatype menu_error = KeyError string

definition filter_normal_json :: string where
  "filter_normal_json = ''JSON files(*.json)''"

definition filter_compressed :: string where
  "filter_compressed = ''Compressed JSON(*.json.gz)''"

definition file_dialog_filters :: string where
  "file_dialog_filters = filter_normal_json @ '';;'' @ filter_compressed"

definition format_map :: "(string \<times> file_format) list" where
  "format_map = [(filter_normal_json, JSON), (filter_compressed, CompressedJSON)]"

definition lookup_format :: "string \<Rightarrow> menu_error + file_format" where
  "lookup_format f = (case map_of format_map f of None \<Rightarrow> Inl (KeyError f) | Some x \<Rightarrow> Inr x)"

text \<open>\<open>buildAction_export.export_callback\<close> (lines 21--31). The dialog returns the
  file name (empty when cancelled) and the chosen filter; the result is the stored
  default filter and the calls made.\<close>

definition export_callback ::
  "bool \<Rightarrow> string \<times> string \<Rightarrow> string \<Rightarrow> menu_error + (string \<times> menu_call list)" where
  "export_callback layers_available answer default_filter =
     (case answer of (file_name, selected_filter) \<Rightarrow>
        if file_name = [] then Inr (default_filter, [])
        else if layers_available then
          (case lookup_format selected_filter of
             Inl e \<Rightarrow> Inl e
           | Inr fmt \<Rightarrow> Inr (selected_filter, [ExportJson file_name fmt]))
        else Inr (selected_filter, []))"

definition export_enabled :: "bool \<Rightarrow> bool" where
  "export_enabled layers_available = layers_available"

text \<open>\<open>buildAction_import\<close> (lines 53--81): the default dialog stores the filter only
  when a file was chosen; the transfer is loaded, targeted and executed.\<close>

definition import_callback ::
  "bool \<Rightarrow> string \<times> string \<Rightarrow> string \<Rightarrow> menu_error + (string \<times> menu_call list)" where
  "import_callback has_skin_cluster answer default_filter =
     (if \<not> has_skin_cluster then Inr (default_filter, [])
      else case answer of (file_name, selected_format) \<Rightarrow>
        if file_name = [] then Inr (default_filter, [])
        else (case lookup_format selected_format of
                Inl e \<Rightarrow> Inl e
              | Inr fmt \<Rightarrow> Inr (selected_format, [ImportTransfer file_name fmt])))"

definition import_enabled :: "bool \<Rightarrow> bool" where
  "import_enabled has_skin_cluster = has_skin_cluster"

text \<open>\<open>action_copy_cut\<close> and \<open>action_paste\<close> (\<open>copy_paste_actions.py\<close>, lines 7--65);
  the current layer is given by its paint targets. The enabled state is set only by the
  signal handlers, which are not run when the action is built: a new \<open>QAction\<close> is
  enabled.\<close>

definition cut_copy_callback :: "bool \<Rightarrow> bool \<Rightarrow> nat list option \<Rightarrow> menu_call list" where
  "cut_copy_callback is_cut has_skin_cluster current_targets =
     (if \<not> has_skin_cluster then []
      else case current_targets of
             None \<Rightarrow> []
           | Some influences \<Rightarrow> [if is_cut then CutWeights influences else CopyWeights influences])"

definition cut_copy_enabled :: "bool \<Rightarrow> nat list option \<Rightarrow> bool" where
  "cut_copy_enabled signal_seen current_targets =
     (if \<not> signal_seen then True
      else case current_targets of None \<Rightarrow> False | Some ts \<Rightarrow> length ts > 0)"

definition paste_callback :: "paste_operation \<Rightarrow> nat list option \<Rightarrow> menu_call list" where
  "paste_callback operation current_targets =
     (case current_targets of None \<Rightarrow> [] | Some influences \<Rightarrow> [PasteWeights operation influences])"

definition paste_enabled :: "bool \<Rightarrow> nat list option \<Rightarrow> bool" where
  "paste_enabled signal_seen current_targets = (\<not> signal_seen \<or> current_targets \<noteq> None)"

text \<open>\<open>FloodAction\<close> and \<open>PaintAction\<close> (\<open>paint.py\<close>, lines 8--42). Flooding
  without a current layer raises \<open>AttributeError\<close> (\<open>None.paint_targets\<close>); the
  action is disabled then.\<close>

definition flood_run :: "nat list option \<Rightarrow> unit + menu_call list" where
  "flood_run current_targets = (case current_targets of None \<Rightarrow> Inl () | Some ts \<Rightarrow> Inr [Flood ts])"

definition flood_enabled :: "bool \<Rightarrow> bool \<Rightarrow> nat list option \<Rightarrow> bool" where
  "flood_enabled is_painting has_skin_cluster current_targets =
     (is_painting \<and> has_skin_cluster \<and> current_targets \<noteq> None)"

text \<open>\<open>PaintAction.checked\<close> (lines 45--46) and \<open>run\<close> (lines 36--40), which
  reads it.\<close>

definition paint_checked :: "bool \<Rightarrow> bool" where
  "paint_checked is_painting = is_painting"

definition paint_run :: "bool \<Rightarrow> menu_call list" where
  "paint_run is_painting = (if paint_checked is_painting then [SetToolTo ''moveSuperContext''] else [StartPaintTool])"

text \<open>The session signals the two actions listen to (\<open>update_on_signals\<close>, lines
  22--28 and 42--43). An \<open>Action\<close> (\<open>ui/action.py\<close>, outside \<open>src/\<close>)
  recomputes its state on each signal of its list and keeps it otherwise.\<close>

datatype session_signal = SigToolChanged | SigCurrentLayerChanged | SigCurrentInfluenceChanged | SigTargetChanged

definition flood_update_on_signals :: "session_signal list" where
  "flood_update_on_signals = [SigToolChanged, SigCurrentLayerChanged, SigCurrentInfluenceChanged, SigTargetChanged]"

definition paint_update_on_signals :: "session_signal list" where
  "paint_update_on_signals = [SigToolChanged]"

definition action_on_signal :: "session_signal list \<Rightarrow> session_signal \<Rightarrow> 'a \<Rightarrow> 'a \<Rightarrow> 'a" where
  "action_on_signal signals sig recomputed old = (if sig \<in> set signals then recomputed else old)"

text \<open>The signal the session emits when an input of the two actions changes: the paint
  tool's state on \<open>toolChanged\<close>, the selected skin cluster on \<open>targetChanged\<close>,
  the current layer on \<open>currentLayerChanged\<close>.\<close>

datatype paint_input = InIsPainting | InSkinCluster | InCurrentLayer

definition input_signal :: "paint_input \<Rightarrow> session_signal" where
  "input_signal i = (case i of InIsPainting \<Rightarrow> SigToolChanged | InSkinCluster \<Rightarrow> SigTargetChanged
                              | InCurrentLayer \<Rightarrow> SigCurrentLayerChanged)"

text \<open>\<open>website_links.py\<close>: the base URL and the four documentation actions; the
  changelog path is given by its UTF-8 bytes.\<close>

definition website_base_url :: "bool \<Rightarrow> string" where
  "website_base_url debug_mode =
     (if debug_mode then ''http://localhost:1313'' else ''https://ngskintools-shuishan.netlify.app'')"

definition changelog_path :: string where
  "changelog_path = map char_of [0x2f::nat, 0x64, 0x6f, 0x63, 0x73, 0x2f, 0xe4, 0xb8, 0xad, 0xe6, 0x96, 0x87,
     0x6e, 0x67, 0xe6, 0x9b, 0xb4, 0xe6, 0x96, 0xb0, 0xe8, 0xae, 0xb0, 0xe5, 0xbd, 0x95, 0x2e, 0x68, 0x74, 0x6d, 0x6c]"

definition documentation_urls :: "string list" where
  "documentation_urls = [''/docs/apidocs.html'', ''/docs/userdocs.html'', changelog_path, ''/docs/lianxi.html'']"

definition documentation_handler :: "bool \<Rightarrow> string \<Rightarrow> menu_call list" where
  "documentation_handler debug_mode url = [OpenUrl (website_base_url debug_mode @ url)]"

subsection \<open>Lemmas\<close>

lemma lookup_format_dialog_filters:
  "lookup_format filter_normal_json = Inr JSON" "lookup_format filter_compressed = Inr CompressedJSON"
  by (simp_all add: lookup_format_def format_map_def filter_normal_json_def filter_compressed_def)

lemma lookup_format_error: "f \<notin> {filter_normal_json, filter_compressed} \<Longrightarrow> lookup_format f = Inl (KeyError f)"
  by (simp add: lookup_format_def format_map_def)

lemma export_callback_spec:
  "export_callback avail (file_name, f) d =
     (if file_name = [] then Inr (d, [])
      else if \<not> avail then Inr (f, [])
      else if f = filter_normal_json then Inr (f, [ExportJson file_name JSON])
      else if f = filter_compressed then Inr (f, [ExportJson file_name CompressedJSON])
      else Inl (KeyError f))"
  by (auto simp: export_callback_def lookup_format_dialog_filters lookup_format_error)

lemma import_callback_cancel_keeps_default:
  "import_callback hs ([], f) d = Inr (d, [])"
  by (simp add: import_callback_def)

lemma cut_copy_enabled_before_signal: "cut_copy_enabled False None"
  by (simp add: cut_copy_enabled_def)

lemma flood_enabled_run: "flood_enabled p h ts \<Longrightarrow> \<exists>cs. flood_run ts = Inr cs"
  by (auto simp: flood_enabled_def flood_run_def)

lemma documentation_urls_https: "\<not> d \<Longrightarrow> take 8 (hd (map (\<lambda>u. website_base_url d @ u) documentation_urls)) = ''https://''"
  by (simp add: website_base_url_def documentation_urls_def)

text \<open>Both actions listen to the signal of every input their state reads, so after the
  signal that announces a change their state is the recomputed one.\<close>

lemma flood_refreshed_on_inputs:
  "action_on_signal flood_update_on_signals (input_signal i) (flood_enabled p h ts) old = flood_enabled p h ts"
  by (cases i) (simp_all add: action_on_signal_def flood_update_on_signals_def input_signal_def)

lemma paint_refreshed_on_tool_change:
  "action_on_signal paint_update_on_signals (input_signal InIsPainting) (paint_checked p) old = p"
  by (simp add: action_on_signal_def paint_update_on_signals_def input_signal_def paint_checked_def)

end
