(* ===== verification/SetWeightsTab.thy ===== *)
theory SetWeightsTab
  imports Complex_Main Prelude
begin

text \<open>
  The "set weights" tab of \<open>ui/tabSetWeights.py\<close>. \<open>Model\<close> keeps one
  \<open>PaintModeSettings\<close> object per paint mode (\<open>presets\<close>) and
  \<open>current_settings\<close>, which \<open>set_mode\<close> binds to one of them; every handler that
  writes \<open>model.current_settings.x\<close> writes that preset. The store is therefore the
  function \<open>presets\<close> from modes to settings and the alias is the key
  \<open>current_mode\<close>: \<open>current_settings\<close> is \<open>presets (current_mode st)\<close>.

  The widgets are a record of the values and enabled flags \<open>update_ui\<close> sets. Both
  \<open>update_ui\<close> functions run their setters under \<open>ui_lock\<close> (the mode settings) or
  without it (the common settings): a setter that changes a check box emits
  \<open>stateChanged\<close>, whose handler is skipped while the lock is held and runs otherwise.
  A user event is one \<open>sw_event\<close>; \<open>sw_step\<close> runs its handler and what it
  triggers. The defaults of \<open>PaintModeSettings()\<close> (outside \<open>src/\<close>) are a
  parameter.
\<close>

datatype paint_mode = PaintReplace | PaintAdd | PaintScale | PaintSmooth | PaintSharpen


record paint_settings =
  ps_mode :: paint_mode
  intensity :: real
  iterations :: int
  influences_limit :: int
  fixed_influences_per_vertex :: bool
  limit_to_component_selection :: bool
  use_volume_neighbours :: bool
  mirror :: bool
  distribute_to_other_influences :: bool

text \<open>\<open>make_presets\<close> (lines 16--26): one settings object per mode, then four
  intensity assignments; the second one for \<open>scale\<close> overwrites the first.\<close>

definition make_presets :: "paint_settings \<Rightarrow> paint_mode \<Rightarrow> paint_settings" where
  "make_presets defaults =
     (let p0 = (\<lambda>m. defaults\<lparr>ps_mode := m\<rparr>);
          p1 = p0(PaintSmooth := (p0 PaintSmooth)\<lparr>intensity := 0.3\<rparr>);
          p2 = p1(PaintScale := (p1 PaintScale)\<lparr>intensity := 0.3\<rparr>);
          p3 = p2(PaintAdd := (p2 PaintAdd)\<lparr>intensity := 0.1\<rparr>);
          p4 = p3(PaintScale := (p3 PaintScale)\<lparr>intensity := 0.95\<rparr>)
      in p4)"

record sw_widgets =
  w_intensity :: real
  w_iterations :: int
  w_iterations_enabled :: bool
  w_fixed_checked :: bool
  w_fixed_enabled :: bool
  w_limit_sel_checked :: bool
  w_limit_sel_enabled :: bool
  w_influences_limit :: int
  w_volume_checked :: bool
  w_volume_enabled :: bool
  w_mirror_checked :: bool
  w_redistribute_checked :: bool

record sw_model =
  presets :: "paint_mode \<Rightarrow> paint_settings"
  current_mode :: paint_mode
  mode_changed_count :: nat
  widgets :: sw_widgets

abbreviation current_settings :: "sw_model \<Rightarrow> paint_settings" where
  "current_settings st \<equiv> presets st (current_mode st)"

definition update_current :: "(paint_settings \<Rightarrow> paint_settings) \<Rightarrow> sw_model \<Rightarrow> sw_model" where
  "update_current f st = st\<lparr>presets := (presets st)(current_mode st := f (current_settings st))\<rparr>"

definition update_all_presets :: "(paint_settings \<Rightarrow> paint_settings) \<Rightarrow> sw_model \<Rightarrow> sw_model" where
  "update_all_presets f st = st\<lparr>presets := (\<lambda>m. f (presets st m))\<rparr>"

definition set_widgets :: "(sw_widgets \<Rightarrow> sw_widgets) \<Rightarrow> sw_model \<Rightarrow> sw_model" where
  "set_widgets f st = st\<lparr>widgets := f (widgets st)\<rparr>"

text \<open>\<open>Model.set_mode\<close> (lines 36--38), without its listeners.\<close>

definition set_mode :: "paint_mode \<Rightarrow> sw_model \<Rightarrow> sw_model" where
  "set_mode m st = st\<lparr>current_mode := m, mode_changed_count := Suc (mode_changed_count st)\<rparr>"

text \<open>\<open>build_mode_settings_group.update_ui\<close> (lines 138--156), under the lock: no
  handler runs.\<close>

definition mode_update_ui :: "sw_model \<Rightarrow> sw_model" where
  "mode_update_ui st =
     (let s = current_settings st; fixed_enabled = (ps_mode s = PaintSmooth)
      in set_widgets (\<lambda>w. w\<lparr>w_intensity := intensity s, w_iterations := iterations s,
            w_iterations_enabled := (ps_mode s \<in> {PaintSmooth, PaintSharpen}),
            w_fixed_enabled := fixed_enabled, w_fixed_checked := fixed_influences_per_vertex s,
            w_limit_sel_checked := limit_to_component_selection s, w_limit_sel_enabled := fixed_enabled,
            w_influences_limit := influences_limit s,
            w_volume_checked := use_volume_neighbours s, w_volume_enabled := (ps_mode s = PaintSmooth)\<rparr>) st)"

text \<open>The two handlers of the common settings (lines 180--192): each writes every
  preset.\<close>

definition mirror_changed :: "bool \<Rightarrow> sw_model \<Rightarrow> sw_model" where
  "mirror_changed b st = update_all_presets (\<lambda>v. v\<lparr>mirror := b\<rparr>) st"

definition redistribute_removed_weight_changed :: "bool \<Rightarrow> sw_model \<Rightarrow> sw_model" where
  "redistribute_removed_weight_changed b st =
     update_all_presets (\<lambda>v. v\<lparr>distribute_to_other_influences := b\<rparr>) st"

text \<open>\<open>common_settings.update_ui\<close> (lines 194--197), run on \<open>mode_changed\<close>
  without the lock: a check box whose value changes emits \<open>stateChanged\<close>, and its
  handler runs.\<close>

definition common_update_ui :: "sw_model \<Rightarrow> sw_model" where
  "common_update_ui st =
     (let m = mirror (current_settings st);
          st1 = (if w_mirror_checked (widgets st) \<noteq> m
                 then mirror_changed m (set_widgets (\<lambda>w. w\<lparr>w_mirror_checked := m\<rparr>) st) else st);
          r = distribute_to_other_influences (current_settings st1)
      in if w_redistribute_checked (widgets st1) \<noteq> r
         then redistribute_removed_weight_changed r (set_widgets (\<lambda>w. w\<lparr>w_redistribute_checked := r\<rparr>) st1)
         else st1)"

text \<open>\<open>set_mode\<close> with its listener (\<open>mode_changed\<close> is connected to the common
  settings' \<open>update_ui\<close>).\<close>

definition set_mode_emit :: "paint_mode \<Rightarrow> sw_model \<Rightarrow> sw_model" where
  "set_mode_emit m st = common_update_ui (set_mode m st)"

datatype sw_event =
    ToggleMode paint_mode
  | InfluencesLimitEdited int
  | IntensityEdited real
  | IterationsEdited int
  | FixedInfluencesClicked bool
  | LimitToSelectionClicked bool
  | VolumeNeighboursClicked bool
  | MirrorClicked bool
  | RedistributeClicked bool

text \<open>One user event and its handler (lines 64--136 and 180--192). The mode buttons
  form an exclusive group whose checked button is the current mode: a click on it emits
  nothing, a click on another emits \<open>toggled(True)\<close> for it (and \<open>toggled(False)\<close>,
  ignored, for the old one). A click on a check box sets the box; the volume box has no
  handler.\<close>

fun sw_step :: "sw_model \<Rightarrow> sw_event \<Rightarrow> sw_model" where
  "sw_step st (ToggleMode m) =
     (if m = current_mode st then st else mode_update_ui (set_mode_emit m st))"
| "sw_step st (InfluencesLimitEdited v) = mode_update_ui (update_all_presets (\<lambda>p. p\<lparr>influences_limit := v\<rparr>) st)"
| "sw_step st (IntensityEdited v) = mode_update_ui (update_current (\<lambda>p. p\<lparr>intensity := v\<rparr>) st)"
| "sw_step st (IterationsEdited v) = mode_update_ui (update_current (\<lambda>p. p\<lparr>iterations := v\<rparr>) st)"
| "sw_step st (FixedInfluencesClicked b) =
     update_current (\<lambda>p. p\<lparr>fixed_influences_per_vertex := b\<rparr>) (set_widgets (\<lambda>w. w\<lparr>w_fixed_checked := b\<rparr>) st)"
| "sw_step st (LimitToSelectionClicked b) =
     update_current (\<lambda>p. p\<lparr>limit_to_component_selection := b\<rparr>) (set_widgets (\<lambda>w. w\<lparr>w_limit_sel_checked := b\<rparr>) st)"
| "sw_step st (VolumeNeighboursClicked b) = set_widgets (\<lambda>w. w\<lparr>w_volume_checked := b\<rparr>) st"
| "sw_step st (MirrorClicked b) = mirror_changed b (set_widgets (\<lambda>w. w\<lparr>w_mirror_checked := b\<rparr>) st)"
| "sw_step st (RedistributeClicked b) =
     redistribute_removed_weight_changed b (set_widgets (\<lambda>w. w\<lparr>w_redistribute_checked := b\<rparr>) st)"

definition sw_run :: "sw_model \<Rightarrow> sw_event list \<Rightarrow> sw_model" where
  "sw_run st evs = fold (\<lambda>e s. sw_step s e) evs st"

text \<open>The widgets as Qt creates them: boxes unchecked and enabled, sliders at zero.\<close>

definition qt_initial_widgets :: sw_widgets where
  "qt_initial_widgets =
     \<lparr>w_intensity = 0, w_iterations = 0, w_iterations_enabled = True, w_fixed_checked = False,
      w_fixed_enabled = True, w_limit_sel_checked = False, w_limit_sel_enabled = True,
      w_influences_limit = 0, w_volume_checked = False, w_volume_enabled = True,
      w_mirror_checked = False, w_redistribute_checked = False\<rparr>"

text \<open>\<open>build_ui\<close> (lines 44--229) up to the first user event: \<open>Model()\<close> sets the
  replace mode with no listener yet; checking the replace button runs \<open>toggled\<close>
  (line 84), which sets the mode again and updates the mode settings; line 170 updates
  them once more; the common settings update their boxes (line 202).\<close>

definition sw_init :: "paint_settings \<Rightarrow> sw_model" where
  "sw_init defaults =
     (let st0 = set_mode PaintReplace
                  \<lparr>presets = make_presets defaults, current_mode = PaintReplace, mode_changed_count = 0,
                   widgets = qt_initial_widgets\<rparr>;
          st1 = mode_update_ui (set_mode PaintReplace st0)
      in common_update_ui (mode_update_ui st1))"

text \<open>\<open>Model.apply\<close> (lines 40--41): \<open>flood_weights\<close> with the current settings;
  without a current layer \<open>None.paint_targets\<close> raises \<open>AttributeError\<close>.\<close>

definition sw_apply :: "sw_model \<Rightarrow> nat list option \<Rightarrow> unit + (nat list \<times> paint_settings)" where
  "sw_apply st current_layer_targets =
     (case current_layer_targets of None \<Rightarrow> Inl () | Some ts \<Rightarrow> Inr (ts, current_settings st))"

definition sw_tab_enabled :: "bool \<Rightarrow> bool" where
  "sw_tab_enabled layers_available = layers_available"

text \<open>The ranges of the two integer sliders (lines 88 and 105); every value a slider
  reports lies in its range.\<close>

definition slider_in_range :: "sw_event \<Rightarrow> bool" where
  "slider_in_range e =
     (case e of InfluencesLimitEdited v \<Rightarrow> 0 \<le> v \<and> v \<le> 10
              | IterationsEdited v \<Rightarrow> 1 \<le> v \<and> v \<le> 100
              | _ \<Rightarrow> True)"

text \<open>Invariants of the model: every preset carries its own mode; the settings the
  common group writes to all presets agree, and its boxes show them; the values of the
  integer sliders lie in their ranges; the enabled flags follow the current mode.\<close>

definition presets_typed :: "sw_model \<Rightarrow> bool" where
  "presets_typed st = (\<forall>m. ps_mode (presets st m) = m)"

definition sw_uniform :: "sw_model \<Rightarrow> bool" where
  "sw_uniform st =
     (\<forall>m. mirror (presets st m) = w_mirror_checked (widgets st)
        \<and> distribute_to_other_influences (presets st m) = w_redistribute_checked (widgets st)
        \<and> influences_limit (presets st m) = influences_limit (current_settings st))"

definition sw_bounded :: "sw_model \<Rightarrow> bool" where
  "sw_bounded st =
     (\<forall>m. 1 \<le> iterations (presets st m) \<and> iterations (presets st m) \<le> 100
        \<and> 0 \<le> influences_limit (presets st m) \<and> influences_limit (presets st m) \<le> 10)"

definition sw_enabled_ok :: "sw_model \<Rightarrow> bool" where
  "sw_enabled_ok st =
     (let w = widgets st; c = current_mode st
      in w_iterations_enabled w = (c \<in> {PaintSmooth, PaintSharpen}) \<and> w_fixed_enabled w = (c = PaintSmooth)
         \<and> w_limit_sel_enabled w = w_fixed_enabled w \<and> w_volume_enabled w = (c = PaintSmooth))"

text \<open>\<open>PaintMode.all()\<close> is the enumeration of the modes, so quantifiers over the
  presets evaluate.\<close>

instantiation paint_mode :: enum
begin

definition enum_paint_mode :: "paint_mode list" where
  "enum_paint_mode = [PaintReplace, PaintAdd, PaintScale, PaintSmooth, PaintSharpen]"

definition enum_all_paint_mode :: "(paint_mode \<Rightarrow> bool) \<Rightarrow> bool" where
  "enum_all_paint_mode P = (P PaintReplace \<and> P PaintAdd \<and> P PaintScale \<and> P PaintSmooth \<and> P PaintSharpen)"

definition enum_ex_paint_mode :: "(paint_mode \<Rightarrow> bool) \<Rightarrow> bool" where
  "enum_ex_paint_mode P = (P PaintReplace \<or> P PaintAdd \<or> P PaintScale \<or> P PaintSmooth \<or> P PaintSharpen)"

lemma UNIV_paint_mode: "(UNIV :: paint_mode set) = {PaintReplace, PaintAdd, PaintScale, PaintSmooth, PaintSharpen}"
  using paint_mode.exhaust by auto

instance
proof
  show "(UNIV :: paint_mode set) = set enum_class.enum"
    by (simp add: UNIV_paint_mode enum_paint_mode_def)
  show "distinct (enum_class.enum :: paint_mode list)"
    by (simp add: enum_paint_mode_def)
  show "\<And>P. enum_class.enum_all P = Ball (UNIV :: paint_mode set) P"
    by (simp add: UNIV_paint_mode enum_all_paint_mode_def)
  show "\<And>P. enum_class.enum_ex P = Bex (UNIV :: paint_mode set) P"
    by (simp add: UNIV_paint_mode enum_ex_paint_mode_def)
qed

end


section \<open>The mode settings\<close>

lemmas sw_update_defs = update_current_def update_all_presets_def set_widgets_def set_mode_def
  mirror_changed_def redistribute_removed_weight_changed_def

lemma make_presets_eq:
  "make_presets d m = d\<lparr>ps_mode := m, intensity := (case m of PaintSmooth \<Rightarrow> 0.3 | PaintScale \<Rightarrow> 0.95
                                         | PaintAdd \<Rightarrow> 0.1 | _ \<Rightarrow> intensity d)\<rparr>"
  by (cases m) (simp_all add: make_presets_def)

lemma mode_update_ui_model [simp]:
  "presets (mode_update_ui st) = presets st"
  "current_mode (mode_update_ui st) = current_mode st"
  "w_mirror_checked (widgets (mode_update_ui st)) = w_mirror_checked (widgets st)"
  "w_redistribute_checked (widgets (mode_update_ui st)) = w_redistribute_checked (widgets st)"
  by (simp_all add: mode_update_ui_def set_widgets_def Let_def)

lemma common_update_ui_current [simp]:
  "current_mode (common_update_ui st) = current_mode st"
  by (simp add: common_update_ui_def Let_def mirror_changed_def redistribute_removed_weight_changed_def
                update_all_presets_def set_widgets_def)

lemma common_update_ui_typed:
  "presets_typed st \<Longrightarrow> presets_typed (common_update_ui st)"
  by (simp add: common_update_ui_def Let_def sw_update_defs presets_typed_def)

lemma set_mode_typed [simp]: "presets_typed (set_mode m st) = presets_typed st"
  by (simp add: set_mode_def presets_typed_def)

lemma mode_update_ui_typed [simp]: "presets_typed (mode_update_ui st) = presets_typed st"
  by (simp add: presets_typed_def)

lemma set_mode_uniform:
  assumes u: "sw_uniform st"
  shows "sw_uniform (set_mode m st)"
proof -
  have lim: "influences_limit (presets st k) = influences_limit (current_settings st)" for k
    using u by (simp add: sw_uniform_def)
  have "influences_limit (presets st k) = influences_limit (presets st m)" for k
    using lim [of k] lim [of m] by (simp only:)
  then show ?thesis
    using u by (simp add: set_mode_def sw_uniform_def)
qed

lemma sw_step_typed:
  "presets_typed st \<Longrightarrow> presets_typed (sw_step st e)"
  by (cases e) (simp_all add: set_mode_emit_def common_update_ui_typed, simp_all add: presets_typed_def sw_update_defs)

lemma common_update_ui_uniform:
  "sw_uniform st \<Longrightarrow> common_update_ui st = st"
  by (simp add: common_update_ui_def sw_uniform_def Let_def)

lemma mode_update_ui_uniform [simp]: "sw_uniform (mode_update_ui st) = sw_uniform st"
  by (simp add: sw_uniform_def)

lemma sw_step_uniform:
  "sw_uniform st \<Longrightarrow> sw_uniform (sw_step st e)"
proof (cases e)
  case (ToggleMode m)
  assume "sw_uniform st"
  then have "sw_uniform (set_mode m st)" by (rule set_mode_uniform)
  then show ?thesis
    using ToggleMode \<open>sw_uniform st\<close> by (simp add: set_mode_emit_def common_update_ui_uniform)
qed (simp_all add: sw_uniform_def sw_update_defs)

lemma mode_update_ui_bounded [simp]: "sw_bounded (mode_update_ui st) = sw_bounded st"
  by (simp add: sw_bounded_def)

lemma common_update_ui_bounded:
  "sw_bounded st \<Longrightarrow> sw_bounded (common_update_ui st)"
  by (simp add: common_update_ui_def Let_def sw_update_defs sw_bounded_def)

lemma sw_step_bounded:
  "sw_bounded st \<Longrightarrow> slider_in_range e \<Longrightarrow> sw_bounded (sw_step st e)"
proof (cases e)
  case (ToggleMode m)
  assume "sw_bounded st"
  then have "sw_bounded (set_mode m st)" by (simp add: set_mode_def sw_bounded_def)
  then show ?thesis
    using ToggleMode \<open>sw_bounded st\<close> by (simp add: set_mode_emit_def common_update_ui_bounded)
qed (simp_all add: sw_bounded_def sw_update_defs slider_in_range_def)

lemma sw_run_Cons [simp]: "sw_run st (e # evs) = sw_run (sw_step st e) evs"
  by (simp add: sw_run_def)

lemma sw_run_Nil [simp]: "sw_run st [] = st"
  by (simp add: sw_run_def)

lemma sw_init_eq:
  "sw_init d = common_update_ui (mode_update_ui
     \<lparr>presets = make_presets d, current_mode = PaintReplace, mode_changed_count = 2,
      widgets = qt_initial_widgets\<rparr>)"
  by (simp add: sw_init_def set_mode_def mode_update_ui_def set_widgets_def Let_def numeral_2_eq_2)

lemma make_presets_typed: "presets_typed \<lparr>presets = make_presets d, current_mode = c, mode_changed_count = n, widgets = w\<rparr>"
  by (simp add: presets_typed_def make_presets_eq)

lemma sw_init_typed: "presets_typed (sw_init d)"
  unfolding sw_init_eq by (rule common_update_ui_typed) (simp add: make_presets_typed)

lemma sw_init_uniform: "sw_uniform (sw_init d)"
  by (simp add: sw_init_eq common_update_ui_def Let_def sw_update_defs sw_uniform_def make_presets_eq)

lemma sw_init_bounded:
  "1 \<le> iterations d \<Longrightarrow> iterations d \<le> 100 \<Longrightarrow> 0 \<le> influences_limit d \<Longrightarrow> influences_limit d \<le> 10
   \<Longrightarrow> sw_bounded (sw_init d)"
  unfolding sw_init_eq by (rule common_update_ui_bounded) (simp add: sw_bounded_def make_presets_eq)

lemma sw_run_typed: "presets_typed st \<Longrightarrow> presets_typed (sw_run st evs)"
  by (induction evs arbitrary: st) (simp_all add: sw_step_typed)

lemma sw_run_uniform: "sw_uniform st \<Longrightarrow> sw_uniform (sw_run st evs)"
  by (induction evs arbitrary: st) (simp_all add: sw_step_uniform)

lemma sw_run_bounded: "sw_bounded st \<Longrightarrow> list_all slider_in_range evs \<Longrightarrow> sw_bounded (sw_run st evs)"
  by (induction evs arbitrary: st) (simp_all add: sw_step_bounded)

lemma mode_update_ui_enabled:
  "presets_typed st \<Longrightarrow> sw_enabled_ok (mode_update_ui st)"
  by (simp add: presets_typed_def sw_enabled_ok_def mode_update_ui_def set_widgets_def Let_def)

lemma common_update_ui_widgets_enabled [simp]:
  "sw_enabled_ok (common_update_ui st) = sw_enabled_ok st"
  by (simp add: common_update_ui_def sw_enabled_ok_def Let_def sw_update_defs)

lemma sw_step_enabled:
  assumes t: "presets_typed st" and en: "sw_enabled_ok st"
  shows "sw_enabled_ok (sw_step st e)"
proof -
  have t': "presets_typed (sw_step st e)"
    by (rule sw_step_typed [OF t])
  show ?thesis
  proof (cases e)
    case (ToggleMode m)
    then show ?thesis
      using t' en by (auto simp: mode_update_ui_enabled)
  qed (use t' en in \<open>simp_all add: mode_update_ui_enabled, simp_all add: sw_enabled_ok_def Let_def sw_update_defs\<close>)
qed

lemma sw_run_enabled:
  "presets_typed st \<Longrightarrow> sw_enabled_ok st \<Longrightarrow> sw_enabled_ok (sw_run st evs)"
  by (induction evs arbitrary: st) (simp_all add: sw_step_enabled sw_step_typed)

lemma sw_init_enabled: "sw_enabled_ok (sw_init d)"
  unfolding sw_init_eq by (simp add: mode_update_ui_enabled make_presets_typed)

text \<open>C4. The enabled state of the mode widgets follows the checked mode in every
  state reached from the start (lines 145--156): the iterations slider is enabled exactly
  in smooth and sharpen mode, the fixed-influences, component-selection and volume boxes
  exactly in smooth mode. Events that do not run \<open>update_ui\<close> (the check boxes) do
  not change the mode.\<close>

theorem sw_reachable_enabled: "sw_enabled_ok (sw_run (sw_init d) evs)"
  by (rule sw_run_enabled [OF sw_init_typed sw_init_enabled])

text \<open>\<open>make_presets\<close> leaves the default intensity to the replace and sharpen modes:
  the second assignment to the scale preset (line 24) overrides the first (line 22).\<close>

lemma make_presets_intensity:
  "map (\<lambda>m. intensity (make_presets d m)) [PaintReplace, PaintAdd, PaintScale, PaintSmooth, PaintSharpen]
     = [intensity d, 0.1, 0.95, 0.3, intensity d]"
  by (simp add: make_presets_eq)

text \<open>C9. Every preset a user can reach carries its own mode: after any sequence of
  events from the start, the preset stored for mode m has mode m, so the current settings
  are those of the mode the checked button shows.\<close>

theorem reachable_presets_typed:
  "ps_mode (presets (sw_run (sw_init d) evs) m) = m"
  using sw_run_typed [OF sw_init_typed] by (simp add: presets_typed_def)

text \<open>C10. In every state reached from the start, all presets share the mirror, the
  redistribution and the influence limit settings, and the two common check boxes show
  the shared values: switching modes never changes them.\<close>

theorem reachable_common_settings_uniform:
  "sw_uniform (sw_run (sw_init d) evs)"
  by (rule sw_run_uniform [OF sw_init_uniform])

text \<open>C13. If the defaults lie in the slider ranges and every slider value does, then in
  every reachable state each preset has between 1 and 100 iterations and an influence
  limit between 0 and 10.\<close>

theorem reachable_presets_bounded:
  assumes "1 \<le> iterations d" "iterations d \<le> 100" "0 \<le> influences_limit d" "influences_limit d \<le> 10"
      and "list_all slider_in_range evs"
  shows "1 \<le> iterations (presets (sw_run (sw_init d) evs) m) \<and> iterations (presets (sw_run (sw_init d) evs) m) \<le> 100
       \<and> 0 \<le> influences_limit (presets (sw_run (sw_init d) evs) m)
       \<and> influences_limit (presets (sw_run (sw_init d) evs) m) \<le> 10"
  using sw_run_bounded [OF sw_init_bounded [OF assms(1-4)] assms(5)] by (simp add: sw_bounded_def)

text \<open>C14. The volume check box has no handler: clicking it leaves every preset unchanged,
  so \<open>apply\<close> uses the old setting, and the next update of the mode widgets (here
  after an intensity edit) sets the box back to the current preset's value.\<close>

theorem volume_click_ignored:
  "presets (sw_step st (VolumeNeighboursClicked b)) = presets st
   \<and> w_volume_checked (widgets (sw_step (sw_step st (VolumeNeighboursClicked b)) (IntensityEdited v)))
       = use_volume_neighbours (current_settings st)"
  by (simp add: set_widgets_def mode_update_ui_def update_current_def Let_def)

theorem reachable_presets_bounded_witness:
  "iterations (presets (sw_run (sw_init
      \<lparr>ps_mode = PaintReplace, intensity = 1, iterations = 10, influences_limit = 0,
       fixed_influences_per_vertex = False, limit_to_component_selection = False,
       use_volume_neighbours = False, mirror = False, distribute_to_other_influences = True\<rparr>)
      [IterationsEdited 5, InfluencesLimitEdited 3]) PaintSmooth) \<le> 100"
  using reachable_presets_bounded [where d = "\<lparr>ps_mode = PaintReplace, intensity = 1, iterations = 10,
       influences_limit = 0, fixed_influences_per_vertex = False, limit_to_component_selection = False,
       use_volume_neighbours = False, mirror = False, distribute_to_other_influences = True\<rparr>"
     and evs = "[IterationsEdited 5, InfluencesLimitEdited 3]" and m = PaintSmooth]
  by (simp add: slider_in_range_def)

end
