(* ===== verification/TargetUI.thy ===== *)
theory TargetUI
  imports NameFilter
begin

text \<open>
  The target view of \<open>ui/targetui.py\<close>: a stacked widget whose first page says why
  there are no skin layers and whose second page holds the layer and influence views
  with the influence filter box. The box's text drives the shared
  \<open>InfluenceNameFilter\<close> of \<open>NameFilter\<close> that the influences view matches
  against. The widget state is a record; the session's answers (\<open>layersAvailable\<close>,
  \<open>selectedSkinCluster\<close>, \<open>import_v1_actions.can_import\<close>, outside \<open>src/\<close>) are
  parameters. The licence banner runs an external program; its decoded output and the
  licence client's answer are parameters too.
\<close>

datatype note_kind = NoteSelectSkinnedMesh | NoteLayersNotInitialized | NoteV1LayersFound

record target_ui =
  filter_text :: string
  clear_visible :: bool
  infl_filter :: name_filter
  selection_display :: "string option"
  selection_display_visible :: bool
  selection_note :: note_kind
  banner_detail :: string
  banner_visible :: bool
  stack_index :: nat

text \<open>\<open>filter_edited\<close> (lines 38--42), the slot of \<open>editTextChanged\<close>: the filter
  takes the box's text; if \<open>set_filter_string\<close> raised, the clear button would keep its
  visibility.\<close>

definition filter_edited :: "target_ui \<Rightarrow> (filter_error + unit) \<times> target_ui" where
  "filter_edited st =
     (let (r, f) = set_filter_string (infl_filter st) (filter_text st); st1 = st\<lparr>infl_filter := f\<rparr>
      in case r of Inl e \<Rightarrow> (Inl e, st1)
                 | Inr u \<Rightarrow> (Inr u, st1\<lparr>clear_visible := (length (filter_text st) \<noteq> 0)\<rparr>))"

text \<open>The user edits the box's text: \<open>editTextChanged\<close> is emitted only when the text
  changes.\<close>

definition edit_filter_text :: "string \<Rightarrow> target_ui \<Rightarrow> (filter_error + unit) \<times> target_ui" where
  "edit_filter_text s st = (if s = filter_text st then (Inr (), st) else filter_edited (st\<lparr>filter_text := s\<rparr>))"

text \<open>\<open>clear_clicked\<close> (lines 44--46): \<open>clearEditText\<close> empties the box.\<close>

definition clear_clicked :: "target_ui \<Rightarrow> (filter_error + unit) \<times> target_ui" where
  "clear_clicked st = edit_filter_text [] st"

text \<open>The no-layers page's \<open>handle_target_changed\<close> (lines 140--155).\<close>

definition no_layers_target_changed ::
  "bool \<Rightarrow> string option \<Rightarrow> bool \<Rightarrow> target_ui \<Rightarrow> target_ui" where
  "no_layers_target_changed layers_available selected_skin_cluster can_import st =
     (if layers_available then st
      else (let is_skinned = (selected_skin_cluster \<noteq> None);
                n = (if is_skinned then (if can_import then NoteV1LayersFound else NoteLayersNotInitialized)
                     else NoteSelectSkinnedMesh)
            in st\<lparr>selection_display := selected_skin_cluster, selection_display_visible := is_skinned,
                  selection_note := n\<rparr>))"

text \<open>\<open>build_target_ui.handle_target_changed\<close> (lines 174--179).\<close>

definition stack_target_changed :: "bool \<Rightarrow> target_ui \<Rightarrow> target_ui" where
  "stack_target_changed layers_available st =
     st\<lparr>stack_index := (if \<not> layers_available then 0 else 1)\<rparr>"

text \<open>\<open>targetChanged\<close> runs both handlers in the order they were connected: the
  no-layers page's first, as it is built first (line 170).\<close>

definition target_changed :: "bool \<Rightarrow> string option \<Rightarrow> bool \<Rightarrow> target_ui \<Rightarrow> target_ui" where
  "target_changed layers_available selected_skin_cluster can_import st =
     stack_target_changed layers_available
       (no_layers_target_changed layers_available selected_skin_cluster can_import st)"

text \<open>\<open>build_evaluation_banner\<close> (lines 83--119): the detail label shows the
  output of the external program, decoded and stripped (\<open>decoded_output\<close> is the
  decoded text); \<open>update_banner_visibility\<close> (lines 113--115) shows the banner when the
  licence client asks for it, and runs once at once.\<close>

definition update_banner_visibility :: "bool \<Rightarrow> target_ui \<Rightarrow> target_ui" where
  "update_banner_visibility should_show st = st\<lparr>banner_visible := should_show\<rparr>"

definition build_evaluation_banner :: "string \<Rightarrow> bool \<Rightarrow> target_ui \<Rightarrow> target_ui" where
  "build_evaluation_banner decoded_output should_show st =
     update_banner_visibility should_show (st\<lparr>banner_detail := py_strip decoded_output\<rparr>)"

text \<open>\<open>build_no_layers_ui\<close> (lines 121--160): the label shows \<open>pPlane1\<close> and the
  note asks for a skinned mesh; the banner is built; when the session is active the
  handler runs once.\<close>

definition build_no_layers_ui ::
  "bool \<Rightarrow> bool \<Rightarrow> string option \<Rightarrow> bool \<Rightarrow> string \<Rightarrow> bool \<Rightarrow> target_ui \<Rightarrow> target_ui" where
  "build_no_layers_ui active layers_available selected_skin_cluster can_import decoded_output should_show st =
     (let st1 = build_evaluation_banner decoded_output should_show
                  (st\<lparr>selection_display := Some ''pPlane1'', selection_display_visible := True,
                      selection_note := NoteSelectSkinnedMesh\<rparr>)
      in if active then no_layers_target_changed layers_available selected_skin_cluster can_import st1 else st1)"

text \<open>\<open>build_target_ui\<close> (lines 163--184): the no-layers page, then the layers page
  whose filter box runs \<open>filter_edited()\<close> once on the empty box (line 48), then the
  stack's handler when the session is active. New Qt widgets are visible, labels empty,
  and a stacked widget shows its first page.\<close>

definition target_ui_init :: "bool \<Rightarrow> bool \<Rightarrow> string option \<Rightarrow> bool \<Rightarrow> string \<Rightarrow> bool \<Rightarrow> target_ui" where
  "target_ui_init active layers_available selected_skin_cluster can_import decoded_output should_show =
     (let st0 = \<lparr>filter_text = [], clear_visible = True, infl_filter = InfluenceNameFilter,
                 selection_display = None, selection_display_visible = True,
                 selection_note = NoteSelectSkinnedMesh, banner_detail = [], banner_visible = True,
                 stack_index = 0\<rparr>;
          st1 = build_no_layers_ui active layers_available selected_skin_cluster can_import
                  decoded_output should_show st0;
          st2 = snd (filter_edited st1)
      in if active then stack_target_changed layers_available st2 else st2)"

datatype target_event = EditFilter string | ClearFilter | TargetChanged bool "string option" bool
  | LicenseStatusChanged bool

fun target_step :: "target_ui \<Rightarrow> target_event \<Rightarrow> target_ui" where
  "target_step st (EditFilter s) = snd (edit_filter_text s st)"
| "target_step st ClearFilter = snd (clear_clicked st)"
| "target_step st (TargetChanged la sc ci) = target_changed la sc ci st"
| "target_step st (LicenseStatusChanged b) = update_banner_visibility b st"

definition target_run :: "target_ui \<Rightarrow> target_event list \<Rightarrow> target_ui" where
  "target_run st evs = fold (\<lambda>e s. target_step s e) evs st"

text \<open>The view's invariant: the filter's string is the box's text, the clear button is
  shown exactly when there is text, and the filter is one \<open>set_filter_string\<close> can
  reach.\<close>

definition target_ui_wf :: "target_ui \<Rightarrow> bool" where
  "target_ui_wf st =
     (currentFilterString (infl_filter st) = filter_text st \<and> clear_visible st = (filter_text st \<noteq> [])
      \<and> filter_reachable (infl_filter st))"

section \<open>The filter box\<close>

lemma filter_edited_eq:
  "filter_edited st = (Inr (), st\<lparr>infl_filter := snd (set_filter_string (infl_filter st) (filter_text st)),
                                  clear_visible := (filter_text st \<noteq> [])\<rparr>)"
  by (simp add: filter_edited_def set_filter_string_eq Let_def)

lemma filter_edited_wf:
  "filter_reachable (infl_filter st) \<Longrightarrow> target_ui_wf (snd (filter_edited st))"
  by (simp add: filter_edited_eq target_ui_wf_def fr_set)

lemma target_changed_filter [simp]:
  "infl_filter (target_changed la sc ci st) = infl_filter st"
  "filter_text (target_changed la sc ci st) = filter_text st"
  "clear_visible (target_changed la sc ci st) = clear_visible st"
  by (simp_all add: target_changed_def stack_target_changed_def no_layers_target_changed_def Let_def)

lemma edit_filter_text_wf:
  assumes wf: "target_ui_wf st"
  shows "target_ui_wf (snd (edit_filter_text s st))"
proof (cases "s = filter_text st")
  case True
  then show ?thesis using wf by (simp add: edit_filter_text_def)
next
  case False
  have "filter_reachable (infl_filter (st\<lparr>filter_text := s\<rparr>))"
    using wf by (simp add: target_ui_wf_def)
  then show ?thesis using False by (simp add: edit_filter_text_def filter_edited_wf)
qed

lemma update_banner_visibility_filter [simp]:
  "infl_filter (update_banner_visibility b st) = infl_filter st"
  "filter_text (update_banner_visibility b st) = filter_text st"
  "clear_visible (update_banner_visibility b st) = clear_visible st"
  by (simp_all add: update_banner_visibility_def)

lemma target_step_wf: "target_ui_wf st \<Longrightarrow> target_ui_wf (target_step st e)"
  by (cases e) (simp_all add: edit_filter_text_wf clear_clicked_def, simp_all add: target_ui_wf_def)

lemma target_run_Cons [simp]: "target_run st (e # evs) = target_run (target_step st e) evs"
  by (simp add: target_run_def)

lemma target_run_Nil [simp]: "target_run st [] = st"
  by (simp add: target_run_def)

lemma target_run_wf: "target_ui_wf st \<Longrightarrow> target_ui_wf (target_run st evs)"
  by (induction evs arbitrary: st) (simp_all add: target_step_wf)

lemma stack_target_changed_wf [simp]:
  "target_ui_wf (stack_target_changed la st) = target_ui_wf st"
  by (simp add: stack_target_changed_def target_ui_wf_def)

lemma no_layers_target_changed_filter [simp]:
  "infl_filter (no_layers_target_changed la sc ci st) = infl_filter st"
  by (simp add: no_layers_target_changed_def Let_def)

lemma build_no_layers_ui_filter [simp]:
  "infl_filter (build_no_layers_ui a la sc ci out sh st) = infl_filter st"
  "filter_text (build_no_layers_ui a la sc ci out sh st) = filter_text st"
  by (simp_all add: build_no_layers_ui_def build_evaluation_banner_def update_banner_visibility_def
      no_layers_target_changed_def Let_def)

lemma target_ui_init_wf: "target_ui_wf (target_ui_init a la sc ci out sh)"
  by (cases a) (simp_all add: target_ui_init_def Let_def filter_edited_wf fr_init)

lemma clear_clicked_state:
  "target_ui_wf st \<Longrightarrow> filter_text (snd (clear_clicked st)) = [] \<and> \<not> clear_visible (snd (clear_clicked st))
     \<and> currentFilterString (infl_filter (snd (clear_clicked st))) = []"
  using edit_filter_text_wf [of st "[]"] by (auto simp: clear_clicked_def edit_filter_text_def filter_edited_eq target_ui_wf_def)

lemma no_layers_note:
  "\<not> la \<Longrightarrow> selection_note (no_layers_target_changed la sc ci st) =
     (case sc of None \<Rightarrow> NoteSelectSkinnedMesh
               | Some _ \<Rightarrow> if ci then NoteV1LayersFound else NoteLayersNotInitialized)"
  by (simp add: no_layers_target_changed_def Let_def split: option.split)

lemma target_changed_stack:
  "stack_index (target_changed la sc ci st) = (if la then 1 else 0)"
  by (simp add: target_changed_def stack_target_changed_def)

lemma cleared_filter_matches_all:
  assumes "target_ui_wf st"
  shows "\<not> clear_visible (snd (clear_clicked st)) \<and> is_match (infl_filter (snd (clear_clicked st))) x"
proof -
  have c: "\<not> clear_visible (snd (clear_clicked st)) \<and> currentFilterString (infl_filter (snd (clear_clicked st))) = []"
    using clear_clicked_state [OF assms] by simp
  have "target_ui_wf (snd (clear_clicked st))"
    using edit_filter_text_wf [OF assms] by (simp add: clear_clicked_def)
  then have "filter_inv (infl_filter (snd (clear_clicked st)))"
    by (simp add: target_ui_wf_def filter_reachable_inv)
  then have "matchers (infl_filter (snd (clear_clicked st))) = []"
    using c by (simp add: filter_inv_def py_split_def)
  then show ?thesis using c by (simp add: is_match_def)
qed

text \<open>C11. In every state of the target view reached from its construction, the shared
  name filter holds exactly the text of the filter box, the clear button is visible exactly
  when the box is not empty, and the filter is a reachable \<open>InfluenceNameFilter\<close>
  state.\<close>

theorem target_ui_filter_in_step:
  "target_ui_wf (target_run (target_ui_init a la sc ci out sh) evs)"
  by (rule target_run_wf [OF target_ui_init_wf])

end
