(* ===== verification/ToolsTab.thy ===== *)
theory ToolsTab
  imports Prelude "HOL-Library.Monad_Syntax"
begin

text \<open>
  The tools tab of \<open>ui/tabTools.py\<close>. Its group for "assign weights from the closest
  joint" binds two radio buttons and a check box to the persistent options
  \<open>all_influences\<close> and \<open>create_new_layer\<close> of the tool. The bindings run both ways:
  a widget's \<open>toggled\<close> sets the option, the option's \<open>changed\<close> (emitted by every
  \<open>set\<close> of a \<open>PersistentValue\<close>, outside \<open>src/\<close>) checks the widget again, which
  emits \<open>toggled\<close> only if the check changes. These re-entrant calls are
  \<open>partial_function (option)\<close>s, so that a binding that never settled would be
  \<open>None\<close>; the lemmas show that they return after one round. Every \<open>set\<close> is recorded.
  The unify group's \<open>model_binds.bind\<close> and the buttons bound to actions live outside
  \<open>src/\<close> and are not modelled.
\<close>

datatype tools_option_set = SetAllInfluences bool | SetCreateNewLayer bool

record tools_tab =
  radio_checked :: "nat option"
  new_layer_checked :: bool
  all_influences :: bool
  create_new_layer :: bool
  option_sets :: "tools_option_set list"
  tools_tab_enabled :: bool

text \<open>\<open>PersistentValue.set\<close> of the two options, before its listeners run.\<close>

definition set_all_influences :: "bool \<Rightarrow> tools_tab \<Rightarrow> tools_tab" where
  "set_all_influences v st = st\<lparr>all_influences := v, option_sets := option_sets st @ [SetAllInfluences v]\<rparr>"

definition set_create_new_layer :: "bool \<Rightarrow> tools_tab \<Rightarrow> tools_tab" where
  "set_create_new_layer v st = st\<lparr>create_new_layer := v, option_sets := option_sets st @ [SetCreateNewLayer v]\<rparr>"

text \<open>The radio button \<open>update_ui\<close> checks (line 36).\<close>

definition all_influences_index :: "bool \<Rightarrow> nat" where
  "all_influences_index v = (if v then 0 else 1)"

text \<open>\<open>setChecked(True)\<close> on radio button \<open>i\<close> of the exclusive group (lines 23--38).
  If it is checked already nothing is emitted. Otherwise it becomes the checked button; the
  button checked before (if any) emits \<open>toggled(False)\<close>, then button \<open>i\<close> emits
  \<open>toggled(True)\<close>. Each runs \<open>update_value\<close>, which sets \<open>all_influences\<close> to whether the
  first button is checked; its \<open>changed\<close> runs \<open>update_ui\<close>, which checks the button of
  the new value.\<close>

partial_function (option) radio_set_checked :: "nat \<Rightarrow> tools_tab \<Rightarrow> tools_tab option" where
  "radio_set_checked i st =
     (if radio_checked st = Some i then Some st
      else (let s1 = st\<lparr>radio_checked := Some i\<rparr>
            in do {
                 s2 \<leftarrow> (if radio_checked st = None then Some s1
                        else radio_set_checked (all_influences_index (radio_checked s1 = Some 0))
                               (set_all_influences (radio_checked s1 = Some 0) s1));
                 radio_set_checked (all_influences_index (radio_checked s2 = Some 0))
                   (set_all_influences (radio_checked s2 = Some 0) s2)
               }))"

declare radio_set_checked.simps [code]

text \<open>\<open>setChecked(b)\<close> on the \<open>new_layer\<close> box (lines 42--50): a change emits
  \<open>toggled\<close>, whose \<open>update_new_layer\<close> sets the option from the box; its
  \<open>changed\<close> runs \<open>update_ui\<close>, which checks the box with the option's value.\<close>

partial_function (option) new_layer_set_checked :: "bool \<Rightarrow> tools_tab \<Rightarrow> tools_tab option" where
  "new_layer_set_checked b st =
     (if new_layer_checked st = b then Some st
      else (let s1 = st\<lparr>new_layer_checked := b\<rparr>;
                s2 = set_create_new_layer (new_layer_checked s1) s1
            in new_layer_set_checked (create_new_layer s2) s2))"

declare new_layer_set_checked.simps [code]

text \<open>\<open>update_tab_enabled\<close> (lines 106--108).\<close>

definition tools_update_tab_enabled :: "bool \<Rightarrow> tools_tab \<Rightarrow> tools_tab" where
  "tools_update_tab_enabled layers_available st = st\<lparr>tools_tab_enabled := layers_available\<rparr>"

datatype tools_event =
    ClickRadio nat
  | ClickNewLayer
  | AllInfluencesChanged bool
  | CreateNewLayerChanged bool
  | ToolsTargetChanged bool

text \<open>The events of the tab: a click on a radio button (an exclusive group checks the
  clicked button), a click on the box (it toggles), a \<open>set\<close> of either option from
  elsewhere (its \<open>changed\<close> runs \<open>update_ui\<close>), and \<open>targetChanged\<close>.\<close>

fun tools_step :: "tools_tab \<Rightarrow> tools_event \<Rightarrow> tools_tab option" where
  "tools_step st (ClickRadio i) = radio_set_checked i st"
| "tools_step st ClickNewLayer = new_layer_set_checked (\<not> new_layer_checked st) st"
| "tools_step st (AllInfluencesChanged v) =
     radio_set_checked (all_influences_index v) (set_all_influences v st)"
| "tools_step st (CreateNewLayerChanged v) = new_layer_set_checked v (set_create_new_layer v st)"
| "tools_step st (ToolsTargetChanged la) = Some (tools_update_tab_enabled la st)"

text \<open>\<open>build_ui\<close> (lines 10--112): the box is checked from the option (line 55), then
  the radio buttons, none checked yet, from the other option (line 38), then the tab's
  enabled state (line 110).\<close>

definition tools_tab_init :: "bool \<Rightarrow> bool \<Rightarrow> bool \<Rightarrow> tools_tab option" where
  "tools_tab_init all_infl new_layer layers_available =
     do {
       s1 \<leftarrow> new_layer_set_checked new_layer
               \<lparr>radio_checked = None, new_layer_checked = False, all_influences = all_infl,
                create_new_layer = new_layer, option_sets = [], tools_tab_enabled = True\<rparr>;
       s2 \<leftarrow> radio_set_checked (all_influences_index all_infl) s1;
       Some (tools_update_tab_enabled layers_available s2)
     }"

text \<open>A run of events; the radio group has two buttons (line 24); the invariant is that
  both widgets show their option.\<close>

primrec tools_run :: "tools_tab \<Rightarrow> tools_event list \<Rightarrow> tools_tab option" where
  "tools_run st [] = Some st"
| "tools_run st (e # es) = tools_step st e \<bind> (\<lambda>s. tools_run s es)"

definition tools_event_ok :: "tools_event \<Rightarrow> bool" where
  "tools_event_ok e = (case e of ClickRadio i \<Rightarrow> i < 2 | _ \<Rightarrow> True)"

definition tools_wf :: "tools_tab \<Rightarrow> bool" where
  "tools_wf st = (radio_checked st = Some (all_influences_index (all_influences st))
                  \<and> new_layer_checked st = create_new_layer st)"

section \<open>The bindings settle\<close>

lemma all_influences_index_ok [simp]: "i < 2 \<Longrightarrow> all_influences_index (i = 0) = i"
  by (simp add: all_influences_index_def)

lemma all_influences_index_less [simp]: "all_influences_index v < 2"
  by (simp add: all_influences_index_def)

lemma all_influences_index_iff [simp]: "(all_influences_index v = 0) = v"
  by (simp add: all_influences_index_def)

lemma radio_set_checked_same: "radio_checked st = Some i \<Longrightarrow> radio_set_checked i st = Some st"
  by (subst radio_set_checked.simps) simp

lemma radio_set_checked_eq:
  assumes "i < 2"
  shows "radio_set_checked i st =
     Some (if radio_checked st = Some i then st
           else st\<lparr>radio_checked := Some i, all_influences := (i = 0),
                   option_sets := option_sets st @ replicate (if radio_checked st = None then 1 else 2)
                                                      (SetAllInfluences (i = 0))\<rparr>)"
proof (cases "radio_checked st = Some i")
  case True
  then show ?thesis by (simp add: radio_set_checked_same)
next
  case False
  then show ?thesis
    using assms by (subst radio_set_checked.simps)
      (simp add: Let_def radio_set_checked_same set_all_influences_def numeral_2_eq_2)
qed

lemma new_layer_set_checked_same: "new_layer_checked st = b \<Longrightarrow> new_layer_set_checked b st = Some st"
  by (subst new_layer_set_checked.simps) simp

lemma new_layer_set_checked_eq:
  "new_layer_set_checked b st =
     Some (if new_layer_checked st = b then st
           else st\<lparr>new_layer_checked := b, create_new_layer := b,
                   option_sets := option_sets st @ [SetCreateNewLayer b]\<rparr>)"
proof (cases "new_layer_checked st = b")
  case True
  then show ?thesis by (simp add: new_layer_set_checked_same)
next
  case False
  then show ?thesis
    by (subst new_layer_set_checked.simps) (simp add: Let_def new_layer_set_checked_same set_create_new_layer_def)
qed

lemma tools_step_wf:
  assumes "tools_wf st" "tools_event_ok e"
  shows "\<exists>st'. tools_step st e = Some st' \<and> tools_wf st'"
  using assms
  by (cases e) (auto simp: tools_event_ok_def tools_wf_def radio_set_checked_eq new_layer_set_checked_eq
      set_all_influences_def set_create_new_layer_def tools_update_tab_enabled_def)

lemma tools_run_wf:
  "tools_wf st \<Longrightarrow> list_all tools_event_ok evs \<Longrightarrow> \<exists>st'. tools_run st evs = Some st' \<and> tools_wf st'"
proof (induction evs arbitrary: st)
  case (Cons e es)
  then obtain s where "tools_step st e = Some s" "tools_wf s" using tools_step_wf by fastforce
  then show ?case using Cons by simp
qed simp

lemma tools_tab_init_wf: "\<exists>st. tools_tab_init a n la = Some st \<and> tools_wf st"
  by (simp add: tools_tab_init_def radio_set_checked_eq new_layer_set_checked_eq tools_wf_def
      tools_update_tab_enabled_def)

text \<open>C20. The two-way bindings of the tools tab always settle: from the tab as built,
  any sequence of clicks on its two radio buttons and its box, outside sets of the options
  and target changes returns (no signal loop), and afterwards the checked radio button
  and the box show the values of \<open>all_influences\<close> and \<open>create_new_layer\<close>.\<close>

theorem tools_tab_bindings_settle:
  assumes "list_all tools_event_ok evs"
  shows "\<exists>st. (tools_tab_init a n la \<bind> (\<lambda>s. tools_run s evs)) = Some st
              \<and> radio_checked st = Some (all_influences_index (all_influences st))
              \<and> new_layer_checked st = create_new_layer st"
proof -
  obtain s where s: "tools_tab_init a n la = Some s" "tools_wf s"
    using tools_tab_init_wf by blast
  obtain st where "tools_run s evs = Some st" "tools_wf st"
    using tools_run_wf [OF s(2) assms] by blast
  then show ?thesis using s by (simp add: tools_wf_def)
qed

theorem tools_tab_bindings_settle_witness:
  "\<exists>st. (tools_tab_init True False True \<bind> (\<lambda>s. tools_run s [ClickRadio 1, ClickNewLayer, AllInfluencesChanged True])) = Some st
        \<and> radio_checked st = Some (all_influences_index (all_influences st))
        \<and> new_layer_checked st = create_new_layer st"
  using tools_tab_bindings_settle [where evs = "[ClickRadio 1, ClickNewLayer, AllInfluencesChanged True]"
      and a = True and n = False and la = True]
  by (simp add: tools_event_ok_def)

end
