(* ===== verification/InfluencesPanel.thy ===== *)
theory InfluencesPanel
  imports TargetUI InfluencesView
begin

text \<open>
  The layers page of the target view (\<open>build_layers_ui\<close>, \<open>ui/targetui.py\<close> lines
  13--73): the influences view of \<open>ui/influencesview.py\<close> (\<open>build_view\<close>) and the
  filter box below it share one \<open>InfluenceNameFilter\<close>. The view rebuilds its rows on
  the filter's \<open>changed\<close> signal, on changes of the two options and of the influence
  list (lines 198--205), and on \<open>currentLayerChanged\<close> (lines 207--214). The state is
  the target view's record, the view's widget state (\<open>None\<close> once a rebuild has hung
  in \<open>unique_names\<close>), and the session values the rebuilds read.
\<close>

text \<open>\<open>get_item_id\<close> (lines 84--87): the id of a tree item, \<open>None\<close> for no item.\<close>

definition get_item_id :: "view_row option \<Rightarrow> tree_id option" where
  "get_item_id item = map_option vr_id item"

definition empty_view :: view_state where
  "empty_view = \<lparr>view_rows = [], view_current = None, tree_items = []\<rparr>"

text \<open>\<open>build_view\<close> (lines 70--89 and 262--264): a new tree widget, filled by one call
  of \<open>current_layer_changed\<close>.\<close>

definition build_view ::
  "influence_info list \<Rightarrow> layer option \<Rightarrow> bool \<Rightarrow> ui_config \<Rightarrow> name_filter \<Rightarrow> view_state option" where
  "build_view items layer_opt include_dq config filter_obj =
     current_layer_changed empty_view items layer_opt include_dq config filter_obj"

record influences_panel =
  ip_target :: target_ui
  ip_view :: "view_state option"
  ip_items :: "influence_info list"
  ip_layer :: "layer option"
  ip_config :: ui_config
  ip_dq_channel_used :: bool

text \<open>\<open>filter_changed\<close> (lines 198--205): \<open>refresh_items\<close> with the session's
  current values; a hung view stays hung.\<close>

definition filter_changed :: "influences_panel \<Rightarrow> influences_panel" where
  "filter_changed p =
     p\<lparr>ip_view := Option.bind (ip_view p)
        (\<lambda>v. refresh_items v (ip_items p) (ip_layer p) (ip_dq_channel_used p) (ip_config p) (infl_filter (ip_target p)))\<rparr>"

text \<open>An event of the filter box runs its slot; \<open>set_filter_string\<close> emits
  \<open>changed\<close> only when it compiled a new string, and then the view refreshes.\<close>

definition panel_filter_event :: "target_event \<Rightarrow> influences_panel \<Rightarrow> influences_panel" where
  "panel_filter_event e p =
     (let t = target_step (ip_target p) e; p1 = p\<lparr>ip_target := t\<rparr>
      in if changed_emitted (infl_filter t) \<noteq> changed_emitted (infl_filter (ip_target p)) then filter_changed p1 else p1)"

datatype panel_event =
    PanelFilter target_event
  | InfluencesListUpdated "influence_info list"
  | OptionsChanged ui_config
  | CurrentLayerChanged "layer option"

text \<open>The session's signals: a new influence list or new options refresh the view; a
  new current layer runs \<open>current_layer_changed\<close>.\<close>

fun panel_step :: "influences_panel \<Rightarrow> panel_event \<Rightarrow> influences_panel" where
  "panel_step p (PanelFilter e) = panel_filter_event e p"
| "panel_step p (InfluencesListUpdated items) = filter_changed (p\<lparr>ip_items := items\<rparr>)"
| "panel_step p (OptionsChanged c) = filter_changed (p\<lparr>ip_config := c\<rparr>)"
| "panel_step p (CurrentLayerChanged lo) =
     p\<lparr>ip_layer := lo,
       ip_view := Option.bind (ip_view p)
         (\<lambda>v. current_layer_changed v (ip_items p) lo (ip_dq_channel_used p) (ip_config p) (infl_filter (ip_target p)))\<rparr>"

definition panel_run :: "influences_panel \<Rightarrow> panel_event list \<Rightarrow> influences_panel" where
  "panel_run p evs = fold (\<lambda>e q. panel_step q e) evs p"

text \<open>\<open>build_target_ui\<close> with \<open>build_layers_ui\<close> (lines 13--73): the view is built on
  the new filter (line 68) before the filter box runs \<open>filter_edited()\<close> (line 70).\<close>

definition panel_init ::
  "bool \<Rightarrow> bool \<Rightarrow> string option \<Rightarrow> bool \<Rightarrow> string \<Rightarrow> bool \<Rightarrow> influence_info list \<Rightarrow> layer option
   \<Rightarrow> ui_config \<Rightarrow> bool \<Rightarrow> influences_panel" where
  "panel_init active layers_available sc can_import decoded_output should_show items layer_opt config dq =
     \<lparr>ip_target = target_ui_init active layers_available sc can_import decoded_output should_show,
      ip_view = build_view items layer_opt dq config InfluenceNameFilter,
      ip_items = items, ip_layer = layer_opt, ip_config = config, ip_dq_channel_used = dq\<rparr>"

text \<open>The invariant: unless a rebuild hung, the view's rows are, in order, the rows
  \<open>wanted_tree_items\<close> yields for the session's current values and the filter the box
  holds.\<close>

definition panel_in_sync :: "influences_panel \<Rightarrow> bool" where
  "panel_in_sync p =
     (case ip_view p of
        None \<Rightarrow> True
      | Some v \<Rightarrow>
          (case wanted_tree_items (ip_layer p) (ip_config p)
                  (case ip_layer p of None \<Rightarrow> False | Some l \<Rightarrow> num_children l \<noteq> 0)
                  (ip_dq_channel_used p) (infl_filter (ip_target p)) (ip_items p) of
             Finished rows \<Rightarrow> map vr_id (view_rows v) = map item_id rows
           | Stalls _ \<Rightarrow> False))"

section \<open>The view follows the filter\<close>

lemma build_items_ids:
  assumes "build_items st items lo sl dq config f = Some st'"
  shows "\<exists>rows. wanted_tree_items lo config (case lo of None \<Rightarrow> False | Some l \<Rightarrow> num_children l \<noteq> 0) dq f items = Finished rows
               \<and> map vr_id (view_rows st') = map item_id rows"
proof -
  obtain rows where w: "wanted_tree_items lo config (case lo of None \<Rightarrow> False | Some l \<Rightarrow> num_children l \<noteq> 0) dq f items = Finished rows"
    and st': "st' = fill_rows (st\<lparr>tree_items := []\<rparr>) (case sl of None \<Rightarrow> [] | Some l \<Rightarrow> paint_targets l)
             (case (case sl of None \<Rightarrow> [] | Some l \<Rightarrow> paint_targets l) of [] \<Rightarrow> None | x # _ \<Rightarrow> Some x) 0 rows"
    using assms by (rule build_items_Some)
  have "map vr_id (view_rows st') = map item_id rows"
    unfolding st' by (simp add: fill_rows_rows comp_def mk_view_row_def)
  then show ?thesis using w by blast
qed

lemma current_layer_changed_ids:
  assumes "current_layer_changed st items lo dq config f = Some st'"
  shows "\<exists>rows. wanted_tree_items lo config (case lo of None \<Rightarrow> False | Some l \<Rightarrow> num_children l \<noteq> 0) dq f items = Finished rows
               \<and> map vr_id (view_rows st') = map item_id rows"
proof (cases lo)
  case None
  then have "build_items st [] None None dq config f = Some st'"
    using assms by (simp add: current_layer_changed_def)
  then obtain rows where "wanted_tree_items None config False dq f [] = Finished rows"
      "map vr_id (view_rows st') = map item_id rows"
    using build_items_ids by fastforce
  then show ?thesis using None by (simp add: wanted_tree_items_def)
next
  case (Some l)
  then obtain st1 where r: "refresh_items st items (Some l) dq config f = Some st1"
      and st': "st' = current_influence_changed st1 (Some l)"
    using assms by (auto simp: current_layer_changed_def)
  obtain rs c where eq: "cic_loop (view_rows st1) (view_current st1) (paint_targets l) True (map snd (tree_items st1)) = (rs, c)"
    by (cases "cic_loop (view_rows st1) (view_current st1) (paint_targets l) True (map snd (tree_items st1))")
  have ids: "map vr_id (view_rows st') = map vr_id (view_rows st1)"
    using cic_loop_ids [of "view_rows st1" "view_current st1" "paint_targets l" True "map snd (tree_items st1)"] eq
    by (simp add: st' current_influence_changed_def)
  show ?thesis
    using build_items_ids [OF r [unfolded refresh_items_def]] Some ids by simp
qed

lemma filter_changed_sync: "panel_in_sync (filter_changed p)"
proof (cases "ip_view p")
  case None
  then show ?thesis by (simp add: filter_changed_def panel_in_sync_def)
next
  case (Some v)
  show ?thesis
  proof (cases "refresh_items v (ip_items p) (ip_layer p) (ip_dq_channel_used p) (ip_config p) (infl_filter (ip_target p))")
    case None
    then show ?thesis using Some by (simp add: filter_changed_def panel_in_sync_def)
  next
    case (Some v')
    then show ?thesis
      using build_items_ids [OF Some [unfolded refresh_items_def]] \<open>ip_view p = Some v\<close>
      by (auto simp: filter_changed_def panel_in_sync_def)
  qed
qed

lemma target_step_filter_silent:
  "changed_emitted (infl_filter (target_step t e)) = changed_emitted (infl_filter t) \<Longrightarrow>
   infl_filter (target_step t e) = infl_filter t"
  by (cases e) (auto simp: clear_clicked_def edit_filter_text_def filter_edited_eq set_filter_string_eq)

lemma panel_in_sync_target:
  "infl_filter t = infl_filter (ip_target p) \<Longrightarrow> panel_in_sync (p\<lparr>ip_target := t\<rparr>) = panel_in_sync p"
  by (simp add: panel_in_sync_def split: option.split)

lemma panel_step_sync: "panel_in_sync p \<Longrightarrow> panel_in_sync (panel_step p e)"
proof (cases e)
  case (PanelFilter fe)
  assume s: "panel_in_sync p"
  show ?thesis
  proof (cases "changed_emitted (infl_filter (target_step (ip_target p) fe)) = changed_emitted (infl_filter (ip_target p))")
    case True
    then show ?thesis
      using PanelFilter s target_step_filter_silent [OF True] panel_in_sync_target
      by (simp add: panel_filter_event_def Let_def)
  next
    case False
    then show ?thesis using PanelFilter by (simp add: panel_filter_event_def Let_def filter_changed_sync)
  qed
next
  case (CurrentLayerChanged lo)
  show ?thesis
  proof (cases "ip_view p")
    case None
    then show ?thesis using CurrentLayerChanged by (simp add: panel_in_sync_def)
  next
    case (Some v)
    show ?thesis
    proof (cases "current_layer_changed v (ip_items p) lo (ip_dq_channel_used p) (ip_config p) (infl_filter (ip_target p))")
      case None
      then show ?thesis using Some CurrentLayerChanged by (simp add: panel_in_sync_def)
    next
      case (Some v')
      then show ?thesis
        using current_layer_changed_ids [OF Some] \<open>ip_view p = Some v\<close> CurrentLayerChanged
        by (auto simp: panel_in_sync_def)
    qed
  qed
qed (simp_all add: filter_changed_sync)

lemma panel_run_Cons [simp]: "panel_run p (e # evs) = panel_run (panel_step p e) evs"
  by (simp add: panel_run_def)

lemma panel_run_Nil [simp]: "panel_run p [] = p"
  by (simp add: panel_run_def)

lemma panel_run_sync: "panel_in_sync p \<Longrightarrow> panel_in_sync (panel_run p evs)"
  by (induction evs arbitrary: p) (simp_all add: panel_step_sync)

lemma target_ui_init_filter: "infl_filter (target_ui_init a la sc ci out sh) = InfluenceNameFilter"
  by (cases a) (simp_all add: target_ui_init_def Let_def filter_edited_eq set_filter_string_eq
      InfluenceNameFilter_def stack_target_changed_def)

lemma panel_init_sync: "panel_in_sync (panel_init a la sc ci out sh items lo config dq)"
proof (cases "build_view items lo dq config InfluenceNameFilter")
  case None
  then show ?thesis by (simp add: panel_init_def panel_in_sync_def)
next
  case (Some v)
  then show ?thesis
    using current_layer_changed_ids [OF Some [unfolded build_view_def]]
    by (auto simp: panel_init_def panel_in_sync_def target_ui_init_filter)
qed

text \<open>C21. The influences view and the filter box stay in step: in every state of the
  layers page reached from its construction through edits of the filter box, clicks on its
  clear button, new influence lists, new options and new current layers, the view either
  hung in a rebuild or lists, in order, the rows \<open>wanted_tree_items\<close> yields for the
  current layer, options and influences under the filter the box holds.\<close>

theorem panel_view_in_sync:
  "panel_in_sync (panel_run (panel_init a la sc ci out sh items lo config dq) evs)"
  by (rule panel_run_sync [OF panel_init_sync])

end
