(* ===== verification/Spec2Isabelle.thy ===== *)
theory Spec2Isabelle
  imports Prelude ShortNames UniqueNames GlobMatch NameFilter InfluencesView LayerActions CustomNodeRemoval ToolActions MenuActions SetWeightsTab TargetUI ToolsTab InfluencesPanel
begin

text \<open>
  A verification development of the Python scripts of ngSkinTools2 (Chinese edition)
  under \<open>src/ngskintools-2.3.0-windows/ngskintools2/Contents/scripts/ngSkinTools2/\<close>.

  \<^bold>\<open>The program.\<close> \<open>api/influence_names.py\<close> holds the two pure components the
  spec describes: the path uniquifier (\<open>short_name\<close>, \<open>IndexedName\<close>,
  \<open>unique_names\<close>), which gives each influence the shortest suffix of its DAG path
  that tells it apart, and the name filter (\<open>InfluenceNameFilter\<close>), which turns a
  filter string into case-insensitive patterns. \<open>ui/influencesview.py\<close> shows the
  influences of the current layer: it filters them with the name filter, names them with
  \<open>unique_names\<close>, and keeps the layer's paint targets and locks in step with the tree
  widget. The modules of \<open>operations/\<close> are the handlers of the menu actions; they
  change the plugin's layer store and the Maya scene through the plugin's API.

  \<^bold>\<open>Theories.\<close>
  \<^item> \<open>Prelude\<close>: Python's string operations on Latin-1 code points (\<open>str.lower\<close>,
    \<open>str.split\<close>, \<open>str.rfind\<close> with slice-end normalisation), dict assignment on an
    insertion-ordered association list (\<open>py_dict_set\<close>), \<open>list.remove\<close>
    (\<open>py_remove\<close>), the \<open>outcome\<close> of a sequence that may raise midway, and their
    shared lemmas.
  \<^item> \<open>ShortNames\<close>: \<open>short_name\<close>, with the full-path wrap-round (C7, C8).
  \<^item> \<open>UniqueNames\<close>: \<open>IndexedName\<close> as a record; the objects shared between the
    input-order and the sorted list are one store indexed by input position, the sorted
    list a permutation of positions (\<open>sort_key\<close> is Python's stable \<open>sorted\<close>); the
    inner \<open>for\<close> loop is \<open>scan_pass\<close>, the \<open>while\<close> loop the
    \<open>partial_function (option)\<close> \<open>extend_loop\<close>, so a loop that never ends is
    \<open>None\<close> (C2, C3, C5, C6).
  \<^item> \<open>GlobMatch\<close>: the regular-expression fragment \<open>set_filter_string\<close> compiles
    (word characters and \<open>.*\<close>), an executable \<open>re.I\<close> search and its equivalence
    with the inductive language \<open>whole_match\<close>, used by C18.
  \<^item> \<open>NameFilter\<close>: \<open>InfluenceNameFilter\<close> as a record with a count of
    \<open>changed\<close> emissions, \<open>set_filter_string\<close> with its early return and error
    path, \<open>is_match\<close>, the reachable states as an inductive set and their invariant
    (C12, C16, C18).
  \<^item> \<open>InfluencesView\<close>: the generator \<open>wanted_tree_items\<close> (a \<open>Finished\<close>
    or \<open>Stalls\<close> list of rows), the lock buttons, the two checkable actions with the
    handlers registered on the options, and the tree-widget handlers over a record of
    the widget state (C22--C34).
  \<^item> \<open>LayerActions\<close>: the session and the plugin's layer store as a record;
    \<open>initializeLayers\<close>, \<open>addLayer\<close>, \<open>setCurrentLayer\<close>, \<open>renameLayer\<close>,
    \<open>deleteSelectedLayers\<close>, \<open>ToggleEnabledAction\<close>, the enabled state of the
    actions and the colour randomiser (C19, C35--C39).
  \<^item> \<open>CustomNodeRemoval\<close>: the Maya scene as a record and
    \<open>remove_custom_nodes\<close> with its dialogs (C40).
  \<^item> \<open>ToolActions\<close>: every handler of \<open>tools.py\<close> as a function on a log of plugin
    calls, events, dialogs and the Maya selection: the decimal printing of vertex names
    (a round trip), so that \<open>select_affected_vertices\<close> selects each heavy vertex once
    (C17), the paint target the closest-joint tool sets, and the nine factories composed
    with \<open>__create_tool_action__\<close> (\<open>run_tool_action\<close>, \<open>tool_enabled\<close>): an
    enabled action never reads a missing current layer (C1).
  \<^item> \<open>MenuActions\<close>: the callbacks and enabled states of
    \<open>import_export_actions.py\<close> (with the \<open>format_map\<close> lookup and its
    \<open>KeyError\<close>), \<open>copy_paste_actions.py\<close>, \<open>paint.py\<close> and
    \<open>website_links.py\<close>, each returning the calls it makes, and the signals that
    refresh the paint actions.
  \<^item> \<open>SetWeightsTab\<close>: \<open>ui/tabSetWeights.py\<close>. \<open>Model\<close>'s presets are a store
    \<open>paint_mode \<Rightarrow> paint_settings\<close> and \<open>current_settings\<close> is the key
    \<open>current_mode\<close>, so a write through the alias is a write to one preset. The widgets
    are a record; each user event is an \<open>sw_event\<close> and \<open>sw_step\<close> runs its handler,
    the \<open>update_ui\<close> it calls and the \<open>stateChanged\<close> cascade of the common group
    (skipped under \<open>ui_lock\<close>); \<open>sw_init\<close> is \<open>build_ui\<close>'s start-up. Invariants
    of all reachable states: each preset carries its mode (C9), the common settings agree
    across presets (C10), the slider values stay in range (C13), the enabled flags follow
    the mode (C4); the unwired volume box (C14).
  \<^item> \<open>TargetUI\<close>: \<open>ui/targetui.py\<close>: the filter box that drives the shared name
    filter, its clear button, the no-layers page with its note and licence banner, and the
    stacked page, with the invariant that the filter holds the box's text (C11).
  \<^item> \<open>InfluencesPanel\<close>: the layers page of the target view, where the
    influences view (\<open>build_view\<close>) and the filter box share one name filter. The
    view rebuilds on the filter's \<open>changed\<close>, on the options, on the influence list
    and on the current layer; the view stays in step with the box (C21).
  \<^item> \<open>ToolsTab\<close>: \<open>ui/tabTools.py\<close>: the two-way bindings of the radio group and
    the new-layer box to their options. They re-enter through \<open>changed\<close> and
    \<open>toggled\<close>, so they are \<open>partial_function (option)\<close>s, proved to return (C20).

  \<^bold>\<open>How the parts meet.\<close> The target view's filter box writes the
  \<open>InfluenceNameFilter\<close> that the influences view reads: clearing the box gives a
  filter under which the view shows every influence it shows at all (C15, below), and
  the view's rows always follow the box through the filter's \<open>changed\<close> signal (C21).
  \<open>InfluencesView\<close> calls \<open>unique_names\<close> and
  \<open>is_match\<close> of the two pure components; its theorems use their lemmas, e.g. that
  duplicate paths make \<open>unique_names\<close> diverge (\<open>unique_names_not_distinct\<close>), so
  that the view hangs (C24), and that a result has one name per path
  (\<open>unique_names_length\<close>), so that the view shows each filtered influence once (C22).

  \<^bold>\<open>What the lemmas show.\<close> Functional behaviour of each operation on every
  branch, errors included (\<open>TypeError\<close> of the lock buttons, the midway exception of
  \<open>ToggleEnabledAction.run\<close>, \<open>IndexError\<close> of \<open>random.choice\<close>); invariants
  (reachable filter states, well-formed layer store, check marks in step with the
  options, the presets of the set-weights tab, the filter box and its filter, the tools
  tab's widgets and options, the enabled flags of the mode widgets, the influences view
  against its filter); bounds (iterations and influence limits of the presets); an
  equivalence lemma (the regex matcher and its language); refinements (the view's
  rows against the filtered influence list, \<open>is_match\<close> against the language of the
  tokens); a round trip (locking then unlocking); termination and divergence of
  \<open>unique_names\<close>.

  \<^bold>\<open>Fuel and bounds.\<close> No fuel is used. The loops that may not end are
  \<open>partial_function (option)\<close>s, and the claims that they return are proved as
  \<open>\<exists>\<close>/\<open>= Some\<close> results: \<open>extend_unique_names\<close>'s \<open>while\<close> (C5, C6;
  C3 shows that it diverges on duplicate paths) and the re-entrant bindings of the tools
  tab (C20). All other loops are structural
  recursion or \<open>fold\<close>. The slider ranges of the set-weights tab (0--10 and 1--100)
  are those the code gives \<open>NumberSliderGroup\<close>; C13 assumes that the slider reports
  values in its range and that the plugin's defaults lie in it. Python's integers are
  \<open>int\<close>/\<open>nat\<close>; no value in these scripts has a fixed width. Maya's colour and
  weight floats are reals, so rounding is not modelled.

  \<^bold>\<open>Not modelled.\<close> The Qt layout code (widgets, icons, sizes, tooltips); the
  external program whose output the licence banner shows (its decoded output is a
  parameter); the unify group of the tools tab, bound by \<open>model_binds\<close> outside
  \<open>src/\<close>; \<open>set_paint_expo\<close>. The plugin's own operations (weight assignment,
  merging, mirroring, file transfer) are outside \<open>src/\<close> and enter the model only as
  recorded calls or as parameters; dialogs enter as their answers.
\<close>

section \<open>Properties across components\<close>

text \<open>C15. The filter box of the target view, the name filter and the influences view
  together: after any edits of the filter box, a click on its clear button hides the button
  and gives a filter under which the influences view, when it finishes, shows the header
  rows and one row for every influence it shows at all.\<close>

theorem clear_filter_shows_all_influences:
  assumes "wanted_tree_items (Some l) config g dq
             (infl_filter (snd (clear_clicked (target_run (target_ui_init a la sc ci out sh) evs)))) items = Finished rows"
  shows "\<not> clear_visible (snd (clear_clicked (target_run (target_ui_init a la sc ci out sh) evs)))
         \<and> (\<exists>rest. rows = header_rows g dq @ rest
                  \<and> mset (map item_id rest) = mset (map (\<lambda>i. InflId (logicalIndex i)) (shown_items l config g items)))"
proof -
  have wf: "target_ui_wf (target_run (target_ui_init a la sc ci out sh) evs)"
    by (rule target_run_wf [OF target_ui_init_wf])
  note all = cleared_filter_matches_all [OF wf]
  then have "filter (\<lambda>i. is_match (infl_filter (snd (clear_clicked (target_run (target_ui_init a la sc ci out sh) evs)))) (path_name i))
               (shown_items l config g items) = shown_items l config g items"
    by simp
  then show ?thesis using wanted_tree_items_rows_mset [OF assms] all by simp
qed

theorem clear_filter_shows_all_influences_witness:
  "wanted_tree_items (Some (InfluencesView.layer.make 0 [] (Some []) (Some [0, 1])))
     \<lparr>influences_show_used_influences_only = False, influences_sort = InfluencesSortUnsorted\<rparr> False False
     (infl_filter (snd (clear_clicked (target_run (target_ui_init True True None False '''' False) [EditFilter ''leg'']))))
     [\<lparr>logicalIndex = 0, infl_path = Some ''|a|leg'', path_name = ''|a|leg''\<rparr>, \<lparr>logicalIndex = 1, infl_path = Some ''|a|arm'', path_name = ''|a|arm''\<rparr>]
   = Finished [mask_row,
       \<lparr>item_id = InflId 0, display_name = ''leg'', row_icon = IconJoint, row_buttons = [UnlockedButton]\<rparr>,
       \<lparr>item_id = InflId 1, display_name = ''arm'', row_icon = IconJoint, row_buttons = [UnlockedButton]\<rparr>]
   \<and> \<not> clear_visible (snd (clear_clicked (target_run (target_ui_init True True None False '''' False) [EditFilter ''leg''])))"
proof -
  have h: "wanted_tree_items (Some (InfluencesView.layer.make 0 [] (Some []) (Some [0, 1])))
     \<lparr>influences_show_used_influences_only = False, influences_sort = InfluencesSortUnsorted\<rparr> False False
     (infl_filter (snd (clear_clicked (target_run (target_ui_init True True None False '''' False) [EditFilter ''leg'']))))
     [\<lparr>logicalIndex = 0, infl_path = Some ''|a|leg'', path_name = ''|a|leg''\<rparr>, \<lparr>logicalIndex = 1, infl_path = Some ''|a|arm'', path_name = ''|a|arm''\<rparr>]
   = Finished [mask_row,
       \<lparr>item_id = InflId 0, display_name = ''leg'', row_icon = IconJoint, row_buttons = [UnlockedButton]\<rparr>,
       \<lparr>item_id = InflId 1, display_name = ''arm'', row_icon = IconJoint, row_buttons = [UnlockedButton]\<rparr>]"
    by code_simp
  show ?thesis using clear_filter_shows_all_influences [OF h] h by blast
qed

end
